theory Spec2Isabelle
  imports Main
begin

section \<open>Strings, as the operations of save-operations.ts use them\<close>

text \<open>
  Identifiers are JavaScript strings; they are modelled as \<open>string\<close> (a list of
  8-bit characters). Case conversion is the ASCII one, line terminators are LF and CR:
  every identifier of the save format and of the catalogs is ASCII.
\<close>

definition startsWith :: "string \<Rightarrow> string \<Rightarrow> bool" where
  "startsWith s p = (take (length p) s = p)"

definition endsWith :: "string \<Rightarrow> string \<Rightarrow> bool" where
  "endsWith s p = (length p \<le> length s \<and> drop (length s - length p) s = p)"

fun includesStr :: "string \<Rightarrow> string \<Rightarrow> bool" where
  "includesStr [] p = (p = [])"
| "includesStr (c # cs) p = (startsWith (c # cs) p \<or> includesStr cs p)"

text \<open>\<^verbatim>\<open>s.replace(/p$/, "")\<close> and \<^verbatim>\<open>s.replace(/^p/, "")\<close> for a literal \<open>p\<close>.\<close>

definition stripSuffix :: "string \<Rightarrow> string \<Rightarrow> string" where
  "stripSuffix s p = (if endsWith s p then take (length s - length p) s else s)"

definition stripPrefix :: "string \<Rightarrow> string \<Rightarrow> string" where
  "stripPrefix s p = (if startsWith s p then drop (length p) s else s)"

text \<open>\<^verbatim>\<open>s.split(d)\<close> for a one-character separator; never empty.\<close>

fun splitOn :: "char \<Rightarrow> string \<Rightarrow> string list" where
  "splitOn d [] = [[]]"
| "splitOn d (c # cs) =
     (if c = d then [] # splitOn d cs
      else (case splitOn d cs of [] \<Rightarrow> [[c]] | w # ws \<Rightarrow> (c # w) # ws))"

definition lowerLetters :: string where
  "lowerLetters = ''abcdefghijklmnopqrstuvwxyz''"

definition upperLetters :: string where
  "upperLetters = ''ABCDEFGHIJKLMNOPQRSTUVWXYZ''"

definition toUpperChar :: "char \<Rightarrow> char" where
  "toUpperChar c = (case map_of (zip lowerLetters upperLetters) c of Some u \<Rightarrow> u | None \<Rightarrow> c)"

definition toLowerChar :: "char \<Rightarrow> char" where
  "toLowerChar c = (case map_of (zip upperLetters lowerLetters) c of Some l \<Rightarrow> l | None \<Rightarrow> c)"

definition toUpperCase :: "string \<Rightarrow> string" where
  "toUpperCase s = map toUpperChar s"

definition toLowerCase :: "string \<Rightarrow> string" where
  "toLowerCase s = map toLowerChar s"

text \<open>The characters that \<^verbatim>\<open>.\<close> of a regular expression does not match.\<close>

definition isLineTerminator :: "char \<Rightarrow> bool" where
  "isLineTerminator c = (c = CHR 0x0A \<or> c = CHR 0x0D)"

section \<open>Sets of identifiers with insertion order (JavaScript \<^verbatim>\<open>Set\<close>)\<close>

text \<open>
  A \<^verbatim>\<open>Set<string>\<close> iterates in insertion order and \<^verbatim>\<open>Array.from\<close> keeps that order,
  so a set is the list of its elements without repetition: \<open>setAdd\<close> appends a new
  element, \<open>setDelete\<close> removes it, \<open>newSet\<close> is \<^verbatim>\<open>new Set(array)\<close>.
\<close>

definition setAdd :: "'a list \<Rightarrow> 'a \<Rightarrow> 'a list" where
  "setAdd xs x = (if x \<in> set xs then xs else xs @ [x])"

definition setDelete :: "'a list \<Rightarrow> 'a \<Rightarrow> 'a list" where
  "setDelete xs x = removeAll x xs"

definition newSet :: "'a list \<Rightarrow> 'a list" where
  "newSet xs = foldl setAdd [] xs"

section \<open>Data model (data/types.ts)\<close>

datatype DLC = Base | Sotv | Sots | Ac

datatype LogbookCategory = Monsters | Environments | Survivors | Items | Equipment | Drones

text \<open>
  Of a catalog entry only the fields that the operations read are kept (display name,
  description, rarity and image are never read by them). An optional field is an
  \<open>option\<close>; JavaScript takes it for present when it is defined and not empty.
\<close>

record LogbookEntry =
  e_id :: string
  e_category :: LogbookCategory
  e_unlockId :: string
  e_pickupId :: "string option"
  e_dlc :: DLC

record Challenge =
  c_id :: string
  c_achievement :: string
  c_unlocks :: "string list"
  c_dlc :: DLC

record SaveData =
  name :: string
  coins :: int
  achievements :: "string list"
  unviewedAchievements :: "string list"
  viewedUnlockables :: "string list"
  unlocks :: "string list"
  stats :: "string \<rightharpoonup> string"
  viewedViewables :: "string list"
  discoveredPickups :: "string list"

text \<open>
  The two static catalogs (data/challenges.ts and data/logbook-entries.ts) are
  parameters of every operation.
\<close>

record Catalog =
  challenges :: "Challenge list"
  logbookEntries :: "LogbookEntry list"

definition truthy :: "string option \<Rightarrow> bool" where
  "truthy p = (case p of None \<Rightarrow> False | Some v \<Rightarrow> v \<noteq> [])"

section \<open>The reference graph (challenge-logbook-mapping.ts)\<close>

text \<open>
  \<^verbatim>\<open>buildMapping\<close> fills its maps in two loops. Only the three maps that the
  operations read are kept (\<^verbatim>\<open>pickupIdToLogbook\<close> and \<^verbatim>\<open>unlockIdToChallenges\<close> serve
  the user interface only).
\<close>

record Mapping =
  challengeToLogbook :: "string \<rightharpoonup> string list"
  logbookToChallenge :: "string \<rightharpoonup> string list"
  unlockIdToLogbook :: "string \<rightharpoonup> LogbookEntry"

definition emptyMapping :: Mapping where
  "emptyMapping = \<lparr>challengeToLogbook = Map.empty, logbookToChallenge = Map.empty,
     unlockIdToLogbook = Map.empty\<rparr>"

definition isMappedPrefix :: "string \<Rightarrow> bool" where
  "isMappedPrefix u = (startsWith u ''Items.'' \<or> startsWith u ''Equipment.'')"

text \<open>First loop, one logbook entry.\<close>

definition indexEntry :: "Mapping \<Rightarrow> LogbookEntry \<Rightarrow> Mapping" where
  "indexEntry m e =
     (if e_category e = Items \<or> e_category e = Equipment
      then m\<lparr>unlockIdToLogbook := (unlockIdToLogbook m)(e_unlockId e \<mapsto> e)\<rparr>
      else m)"

text \<open>Second loop, one unlock id of one challenge; \<open>linked\<close> is \<^verbatim>\<open>linkedLogbookIds\<close>.\<close>

definition linkUnlock :: "Challenge \<Rightarrow> Mapping \<times> string list \<Rightarrow> string \<Rightarrow> Mapping \<times> string list" where
  "linkUnlock c ml u =
     (case ml of (m, linked) \<Rightarrow>
        if isMappedPrefix u then
          (case unlockIdToLogbook m u of
             None \<Rightarrow> (m, linked)
           | Some le \<Rightarrow>
               (m\<lparr>logbookToChallenge := (logbookToChallenge m)
                     (e_id le \<mapsto> (case logbookToChallenge m (e_id le) of None \<Rightarrow> [] | Some cs \<Rightarrow> cs)
                                  @ [c_id c])\<rparr>,
                linked @ [e_id le]))
        else (m, linked))"

definition linkChallenge :: "Mapping \<Rightarrow> Challenge \<Rightarrow> Mapping" where
  "linkChallenge m c =
     (case foldl (linkUnlock c) (m, []) (c_unlocks c) of (m', linked) \<Rightarrow>
        if linked \<noteq> [] then m'\<lparr>challengeToLogbook := (challengeToLogbook m')(c_id c \<mapsto> linked)\<rparr>
        else m')"

definition buildMapping :: "Catalog \<Rightarrow> Mapping" where
  "buildMapping cat =
     foldl linkChallenge (foldl indexEntry emptyMapping (logbookEntries cat)) (challenges cat)"

text \<open>\<^verbatim>\<open>new Map(list.map(x => [x.id, x]))\<close>: a later element replaces an earlier one.\<close>

definition challengeById :: "Catalog \<Rightarrow> string \<rightharpoonup> Challenge" where
  "challengeById cat = foldl (\<lambda>m c. m(c_id c \<mapsto> c)) Map.empty (challenges cat)"

definition logbookEntryById :: "Catalog \<Rightarrow> string \<rightharpoonup> LogbookEntry" where
  "logbookEntryById cat = foldl (\<lambda>m e. m(e_id e \<mapsto> e)) Map.empty (logbookEntries cat)"

definition getLogbookEntriesForChallenge :: "Catalog \<Rightarrow> string \<Rightarrow> LogbookEntry list" where
  "getLogbookEntriesForChallenge cat challengeId =
     List.map_filter (logbookEntryById cat)
       (case challengeToLogbook (buildMapping cat) challengeId of None \<Rightarrow> [] | Some ids \<Rightarrow> ids)"

definition getChallengesForLogbookEntry :: "Catalog \<Rightarrow> string \<Rightarrow> Challenge list" where
  "getChallengesForLogbookEntry cat entryId =
     List.map_filter (challengeById cat)
       (case logbookToChallenge (buildMapping cat) entryId of None \<Rightarrow> [] | Some ids \<Rightarrow> ids)"

definition isLogbookEntryProvidedByOtherChallenge ::
  "Catalog \<Rightarrow> LogbookEntry \<Rightarrow> string \<Rightarrow> string list \<Rightarrow> bool" where
  "isLogbookEntryProvidedByOtherChallenge cat entry excludeAchievementId unlockedAchievements =
     list_ex (\<lambda>challenge. c_achievement challenge \<noteq> excludeAchievementId
                \<and> c_achievement challenge \<in> set unlockedAchievements)
       (getChallengesForLogbookEntry cat (e_id entry))"

definition shouldDisableChallengeForEntry ::
  "Catalog \<Rightarrow> Challenge \<Rightarrow> LogbookEntry \<Rightarrow> string list \<Rightarrow> bool" where
  "shouldDisableChallengeForEntry cat challenge entryBeingDisabled currentViewedViewables =
     (let relatedEntries = getLogbookEntriesForChallenge cat (c_id challenge) in
      if length relatedEntries = 1 then True
      else \<not> list_ex (\<lambda>entry. e_id entry \<noteq> e_id entryBeingDisabled
                         \<and> e_unlockId entry \<in> set currentViewedViewables) relatedEntries)"

section \<open>Toggling one achievement (save-operations.ts)\<close>

text \<open>The six \<^verbatim>\<open>new Set(saveData.field)\<close> copies an operation works on.\<close>

definition copySets :: "SaveData \<Rightarrow> SaveData" where
  "copySets s = s\<lparr>achievements := newSet (achievements s),
     unviewedAchievements := newSet (unviewedAchievements s),
     viewedUnlockables := newSet (viewedUnlockables s),
     unlocks := newSet (unlocks s),
     viewedViewables := newSet (viewedViewables s),
     discoveredPickups := newSet (discoveredPickups s)\<rparr>"

definition grantUnlock :: "SaveData \<Rightarrow> string \<Rightarrow> SaveData" where
  "grantUnlock w unlock = w\<lparr>viewedUnlockables := setAdd (viewedUnlockables w) unlock,
     unlocks := setAdd (unlocks w) unlock\<rparr>"

definition revokeUnlock :: "SaveData \<Rightarrow> string \<Rightarrow> SaveData" where
  "revokeUnlock w unlock = w\<lparr>viewedUnlockables := setDelete (viewedUnlockables w) unlock,
     unlocks := setDelete (unlocks w) unlock\<rparr>"

definition addEntryMarkers :: "SaveData \<Rightarrow> LogbookEntry \<Rightarrow> SaveData" where
  "addEntryMarkers w entry =
     w\<lparr>viewedViewables := setAdd (viewedViewables w) (e_unlockId entry),
       unlocks := setAdd (unlocks w) (e_unlockId entry),
       discoveredPickups :=
         (case e_pickupId entry of
            None \<Rightarrow> discoveredPickups w
          | Some p \<Rightarrow> if p \<noteq> [] then setAdd (discoveredPickups w) p else discoveredPickups w)\<rparr>"

definition removeEntryMarkers :: "SaveData \<Rightarrow> LogbookEntry \<Rightarrow> SaveData" where
  "removeEntryMarkers w entry =
     w\<lparr>viewedViewables := setDelete (viewedViewables w) (e_unlockId entry),
       unlocks := setDelete (unlocks w) (e_unlockId entry),
       discoveredPickups :=
         (case e_pickupId entry of
            None \<Rightarrow> discoveredPickups w
          | Some p \<Rightarrow> if p \<noteq> [] then setDelete (discoveredPickups w) p else discoveredPickups w)\<rparr>"

definition removeUnlessProvided :: "Catalog \<Rightarrow> string \<Rightarrow> SaveData \<Rightarrow> LogbookEntry \<Rightarrow> SaveData" where
  "removeUnlessProvided cat achievementId w entry =
     (if \<not> isLogbookEntryProvidedByOtherChallenge cat entry achievementId (achievements w)
      then removeEntryMarkers w entry else w)"

definition toggleAchievement :: "Catalog \<Rightarrow> SaveData \<Rightarrow> string \<Rightarrow> bool \<Rightarrow> SaveData" where
  "toggleAchievement cat saveData achievementId enabled =
     (let w0 = copySets saveData;
          challenge = find (\<lambda>c. c_achievement c = achievementId) (challenges cat)
      in if enabled then
           (let w1 = w0\<lparr>achievements := setAdd (achievements w0) achievementId,
                        unviewedAchievements := setAdd (unviewedAchievements w0) achievementId\<rparr>
            in case challenge of
                 None \<Rightarrow> w1
               | Some c \<Rightarrow>
                   foldl addEntryMarkers (foldl grantUnlock w1 (c_unlocks c))
                     (getLogbookEntriesForChallenge cat (c_id c)))
         else
           (let w1 = w0\<lparr>achievements := setDelete (achievements w0) achievementId,
                        unviewedAchievements := setDelete (unviewedAchievements w0) achievementId\<rparr>
            in case challenge of
                 None \<Rightarrow> w1
               | Some c \<Rightarrow>
                   foldl (removeUnlessProvided cat achievementId) (foldl revokeUnlock w1 (c_unlocks c))
                     (getLogbookEntriesForChallenge cat (c_id c))))"

section \<open>Identifier resolution (save-operations.ts)\<close>

text \<open>
  The lookup tables are object literals of the source; a lookup is \<open>map_of\<close> on the
  literal's own keys.
\<close>

definition overrides :: "(string \<times> string) list" where
  "overrides =
     [(''TITANGOLD'', ''TitanGoldBody''), (''SUPERROBOBALLBOSS'', ''SuperRoboBallBossBody''),
      (''ROBOBALLBOSS'', ''RoboBallBossBody''), (''ROBOBALLMINI'', ''RoboBallMiniBody''),
      (''DRONE_BACKUP'', ''BackupDroneBody''), (''DRONE_BOMBER'', ''DroneBomberBody''),
      (''DRONE_DTHEALING'', ''DTHealingDroneBody''), (''DRONE_CLEANUP'', ''CleanupDroneBody''),
      (''DRONE_CHIRP'', ''ChirpBody''), (''MINIMUSHROOM'', ''Logs.MiniMushroom.0''),
      (''PARENT'', ''Logs.Parent.0''), (''NULLIFIER'', ''Logs.Nullifier.0''),
      (''SCAV'', ''Logs.Scav.0''), (''LUNARGOLEM'', ''Logs.LunarGolem.0''),
      (''LUNAREXPLODER'', ''Logs.LunarExploder.0''), (''LUNARWISP'', ''Logs.LunarWisp.0''),
      (''ACIDLARVA'', ''Logs.AcidLarva''), (''VOIDMEGACRAB'', ''Logs.VoidMegaCrab''),
      (''VOIDINFESTOR'', ''Logs.VoidInfestorBody''),
      (''MINORCONSTRUCT'', ''Logs.MinorConstructBody''),
      (''VOIDBARNACLE'', ''Logs.VoidBarnacleBody''),
      (''CLAYGRENADIER'', ''Logs.ClayGrenadierBody''),
      (''VOIDJAILER'', ''Logs.VoidJailerBody''),
      (''MEGACONSTRUCT'', ''Logs.MegaConstructBody''),
      (''XICONSTRUCT'', ''Logs.MegaConstructBody''),
      (''MINIVOIDRAIDCRAB'', ''Logs.MiniVoidRaidCrab''),
      (''FLYINGVERMIN'', ''Logs.FlyingVerminBody.0''),
      (''WORKERUNIT'', ''Logs.WorkerUnitBody.0''),
      (''EXTRACTORUNIT'', ''Logs.ExtractorUnitBody.0''),
      (''DEFECTIVEUNIT'', ''Logs.DefectiveUnitBody.0''),
      (''VULTUREHUNTER'', ''Logs.VultureHunter.0''), (''SOLUSWING'', ''Logs.SolusWingBody.0''),
      (''IRONHAULER'', ''Logs.IronHaulerBody.0''),
      (''SOLUSAMALGAMATOR'', ''Logs.SolusAmalgamatorBody.0''),
      (''FALSESONBOSS'', ''Logs.FalseSonBossBody.0''), (''SOLUSHEART'', ''Log.SolusHeart''),
      (''MINEPOD'', ''Logs.MinePodBody''), (''ELECTRICWORM'', ''Logs.ElectricWormBody.0''),
      (''MAGMAWORM'', ''Logs.MagmaWormBody.0''), (''IMPBOSS'', ''Logs.ImpBossBody.0''),
      (''BEETLEQUEEN'', ''Logs.BeetleQueenBody.0''), (''CLAYBOSS'', ''Logs.ClayBossBody.0''),
      (''BEETLEGUARD'', ''Logs.BeetleGuardBody.0''),
      (''GREATERWISP'', ''Logs.GreaterWispBody.0''),
      (''LEMURIANBRUISER'', ''Logs.LemurianBruiserBody.0''),
      (''CLAYBRUISER'', ''Logs.ClayBruiserBody.0''), (''VOIDSURVIVOR'', ''VoidSurvivorBody''),
      (''DRONETECH'', ''DroneTechBody''), (''FALSESON'', ''FalseSonBody''),
      (''CHEF'', ''ChefBody''), (''DAMPCAVE'', ''dampcavesimple'')]"

definition lastOrEmpty :: "string list \<Rightarrow> string" where
  "lastOrEmpty parts = (case rev parts of [] \<Rightarrow> [] | x # _ \<Rightarrow> x)"

definition pascalSegment :: "string \<Rightarrow> string" where
  "pascalSegment s = (case s of [] \<Rightarrow> [] | c # cs \<Rightarrow> toUpperChar c # toLowerCase cs)"

definition getInternalBodyName :: "string \<Rightarrow> string" where
  "getInternalBodyName viewableId =
     (let lastPart = lastOrEmpty (splitOn CHR ''/'' viewableId) in
      if lastPart = [] then []
      else
        (let clean = stripSuffix (stripPrefix (stripSuffix (stripSuffix lastPart
                       ''_BODY_NAME'') ''_NAME'') ''MAP_'') ''_TITLE''
         in case map_of overrides clean of
              Some v \<Rightarrow> v
            | None \<Rightarrow> concat (map pascalSegment (splitOn CHR ''_'' clean))))"

definition LOGBOOK_ALIASES :: "(string \<times> string) list" where
  "LOGBOOK_ALIASES =
     [(''/Logbook/LOGBOOK_CATEGORY_SURVIVOR/COMMANDO_BODY_NAME'', ''/Survivors/Commando''),
      (''/Logbook/LOGBOOK_CATEGORY_SURVIVOR/HUNTRESS_BODY_NAME'', ''/Survivors/Huntress''),
      (''/Logbook/LOGBOOK_CATEGORY_SURVIVOR/BANDIT2_BODY_NAME'', ''/Survivors/Bandit2''),
      (''/Logbook/LOGBOOK_CATEGORY_SURVIVOR/TOOLBOT_BODY_NAME'', ''/Survivors/Toolbot''),
      (''/Logbook/LOGBOOK_CATEGORY_SURVIVOR/ENGI_BODY_NAME'', ''/Survivors/Engi''),
      (''/Logbook/LOGBOOK_CATEGORY_SURVIVOR/MAGE_BODY_NAME'', ''/Survivors/Mage''),
      (''/Logbook/LOGBOOK_CATEGORY_SURVIVOR/MERC_BODY_NAME'', ''/Survivors/Merc''),
      (''/Logbook/LOGBOOK_CATEGORY_SURVIVOR/TREEBOT_BODY_NAME'', ''/Survivors/Treebot''),
      (''/Logbook/LOGBOOK_CATEGORY_SURVIVOR/LOADER_BODY_NAME'', ''/Survivors/Loader''),
      (''/Logbook/LOGBOOK_CATEGORY_SURVIVOR/CROCO_BODY_NAME'', ''/Survivors/Croco''),
      (''/Logbook/LOGBOOK_CATEGORY_SURVIVOR/CAPTAIN_BODY_NAME'', ''/Survivors/Captain''),
      (''/Logbook/LOGBOOK_CATEGORY_SURVIVOR/RAILGUNNER_BODY_NAME'', ''/Survivors/Railgunner''),
      (''/Logbook/LOGBOOK_CATEGORY_SURVIVOR/VOIDSURVIVOR_BODY_NAME'', ''/Survivors/VoidSurvivor''),
      (''/Logbook/LOGBOOK_CATEGORY_SURVIVOR/SEEKER_BODY_NAME'', ''/Survivors/Seeker''),
      (''/Logbook/LOGBOOK_CATEGORY_SURVIVOR/FALSESON_BODY_NAME'', ''/Survivors/FalseSon''),
      (''/Logbook/LOGBOOK_CATEGORY_SURVIVOR/CHEF_BODY_NAME'', ''/Survivors/Chef''),
      (''/Logbook/LOGBOOK_CATEGORY_SURVIVOR/DRONETECH_BODY_NAME'', ''/Survivors/DroneTech''),
      (''/Logbook/LOGBOOK_CATEGORY_SURVIVOR/DRIFTER_BODY_NAME'', ''/Survivors/Drifter'')]"

definition getLogbookAliases :: "string \<Rightarrow> string list" where
  "getLogbookAliases mainId = (case map_of LOGBOOK_ALIASES mainId of None \<Rightarrow> [] | Some a \<Rightarrow> [a])"

definition droneMap :: "(string \<times> string) list" where
  "droneMap =
     [(''Logs.Drone1Body.0'', ''DroneIndex.Drone1''),
      (''Logs.Drone2Body.0'', ''DroneIndex.Drone2''),
      (''Logs.Turret1Body.0'', ''DroneIndex.Turret1''),
      (''Logs.EmergencyDroneBody.0'', ''DroneIndex.EmergencyDrone''),
      (''Logs.EquipmentDroneBody.0'', ''DroneIndex.EquipmentDrone''),
      (''Logs.FlameDroneBody.0'', ''DroneIndex.FlameDrone''),
      (''Logs.MissileDroneBody.0'', ''DroneIndex.MissileDrone''),
      (''Logs.MegaDroneBody.0'', ''DroneIndex.MegaDrone''),
      (''Logs.DroneCommanderBody.0'', ''DroneIndex.DroneCommander''),
      (''Logs.HaulerDroneBody.0'', ''DroneIndex.HaulerDrone''),
      (''Logs.JunkDroneBody.0'', ''DroneIndex.JunkDrone''),
      (''Logs.BestBuddyBody.0'', ''DroneIndex.BestBuddy''),
      (''Logs.CleanupDroneBody.0'', ''DroneIndex.CleanupDrone''),
      (''Logs.DroneBomberBody.0'', ''DroneIndex.DroneBomber''),
      (''Logs.DTGunnerDroneBody.0'', ''DroneIndex.DTGunnerDrone''),
      (''Logs.DTHaulerDroneBody.0'', ''DroneIndex.DTHaulerDrone''),
      (''Logs.DTHealingDroneBody.0'', ''DroneIndex.DTHealingDrone''),
      (''Logs.JailerDroneBody.0'', ''DroneIndex.JailerDrone''),
      (''Logs.RechargeDroneBody.0'', ''DroneIndex.RechargeDrone''),
      (''Logs.BombardmentDroneBody.0'', ''DroneIndex.BombardmentDrone''),
      (''Logs.CopycatDroneBody.0'', ''DroneIndex.CopycatDrone''),
      (''Logs.LtDroneboyBody.0'', ''DroneIndex.LtDroneboy''),
      (''Logs.CrosshairsBody.0'', ''DroneIndex.Crosshairs''),
      (''Logs.ChirpBody.0'', ''DroneIndex.Chirp''), (''Logs.DocBody.0'', ''DroneIndex.Doc''),
      (''Logs.BarrierDroneBody.0'', ''DroneIndex.BarrierDrone''),
      (''Logs.FreezeDroneBody.0'', ''DroneIndex.FreezeDrone''),
      (''Logs.BackupDroneBody.0'', ''DroneIndex.BackupDrone''),
      (''DroneIndex.Drone1'', ''DroneIndex.Drone1'')]"

definition getDronePickupId :: "string \<Rightarrow> string option" where
  "getDronePickupId unlockId = map_of droneMap unlockId"

definition specialMappings :: "(string \<times> string) list" where
  "specialMappings =
     [(''OPERATOR'', ''DRONETECH''), (''BANDIT2'', ''BANDIT2''), (''MULT'', ''TOOLBOT''),
      (''ENGI'', ''ENGI''), (''MAGE'', ''MAGE''), (''MERC'', ''MERC''), (''REX'', ''TREEBOT''),
      (''LOADER'', ''LOADER''), (''ACRID'', ''CROCO''), (''VOIDFIEND'', ''VOIDSURVIVOR''),
      (''DRONE1'', ''GUNNER''), (''DRONE2'', ''HEALING''), (''TURRET1'', ''TURRET1''),
      (''FLAMEDRONE'', ''FLAMEDRONE''), (''MEGADRONE'', ''MEGA''),
      (''DRONECOMMANDER'', ''COMMANDER''), (''HAULERDRONE'', ''HAULER''),
      (''JUNKDRONE'', ''JUNK''), (''CLEANUPDRONE'', ''CLEANUP''),
      (''DRONEBOMBER'', ''BOMBER''), (''DTGUNNERDRONE'', ''DTGUNNER''),
      (''DTHAULERDRONE'', ''DTHAULER''), (''DTHEALINGDRONE'', ''DTHEALING''),
      (''JAILERDRONE'', ''JAILER''), (''RECHARGEDRONE'', ''RECHARGE''),
      (''BOMBARDMENTDRONE'', ''BOMBARDMENT''), (''COPYCATDRONE'', ''COPYCAT''),
      (''EMERGENCYDRONE'', ''EMERGENCYDRONE''), (''EQUIPMENTDRONE'', ''EQUIPMENTDRONE''),
      (''MINORCONSTRUCT'', ''MINORCONSTRUCT''), (''XICONSTRUCT'', ''MEGACONSTRUCT''),
      (''ACIDLARVA'', ''ACIDLARVA''), (''VOIDMEGACRAB'', ''VOIDMEGACRAB''),
      (''SOLUSPROBE'', ''ROBOALLMINI''), (''SOLUSCONTROLUNIT'', ''ROBOBALLBOSS''),
      (''ALLOYWORSHIPUNIT'', ''SUPERROBOBALLBOSS''), (''CHILD'', ''CHILD''),
      (''SCORCHLING'', ''SCORCHLING''), (''HALCYONITE'', ''HALCYONITE''),
      (''FALSESONBOSS'', ''FALSESON_BOSS'')]"

text \<open>
  \<^verbatim>\<open>s.match(/lit(.+)$/)\<close> for a literal \<open>lit\<close>: the leftmost occurrence of \<open>lit\<close>
  that is followed, up to the end of the string, by at least one character and no line
  terminator; the result is that rest.
\<close>

fun matchToEnd :: "string \<Rightarrow> string \<Rightarrow> string option" where
  "matchToEnd lit [] = None"
| "matchToEnd lit (c # cs) =
     (let r = drop (length lit) (c # cs) in
      if startsWith (c # cs) lit \<and> r \<noteq> [] \<and> \<not> list_ex isLineTerminator r then Some r
      else matchToEnd lit cs)"

text \<open>
  The group of \<^verbatim>\<open>/Logs\.(.+?)(?:Body)?(?:\.0)?$/\<close>: the non-greedy \<^verbatim>\<open>(.+?)\<close> takes the
  shortest non-empty prefix of the rest after which the optional suffixes reach the end.
\<close>

definition bodyGroup :: "string \<Rightarrow> string option" where
  "bodyGroup r =
     (case find (\<lambda>k. drop k r \<in> set [''Body.0'', ''Body'', ''.0'', []]) [1..<Suc (length r)] of
        None \<Rightarrow> None
      | Some k \<Rightarrow> Some (take k r))"

definition convertToViewableId :: "LogbookEntry \<Rightarrow> string option" where
  "convertToViewableId entry =
     (let category = e_category entry; unlockId = e_unlockId entry;
          bodyMatch = (case matchToEnd ''Logs.'' unlockId of None \<Rightarrow> None | Some r \<Rightarrow> bodyGroup r);
          stageMatch = matchToEnd ''Logs.Stages.'' unlockId
      in if stageMatch \<noteq> None \<and> category = Environments then
           (case stageMatch of
              None \<Rightarrow> None
            | Some g \<Rightarrow> Some (''/Logbook/LOGBOOK_CATEGORY_STAGE/MAP_'' @ toUpperCase g @ ''_TITLE''))
         else
           (case bodyMatch of
              None \<Rightarrow> None
            | Some g \<Rightarrow>
                (let bodyName0 = stripSuffix (toUpperCase g) ''BODY'';
                     bodyName = (case map_of specialMappings bodyName0 of
                                   None \<Rightarrow> bodyName0 | Some b \<Rightarrow> b)
                 in case category of
                      Monsters \<Rightarrow> Some (''/Logbook/LOGBOOK_CATEGORY_MONSTER/'' @ bodyName @ ''_BODY_NAME'')
                    | Survivors \<Rightarrow> Some (''/Logbook/LOGBOOK_CATEGORY_SURVIVOR/'' @ bodyName @ ''_BODY_NAME'')
                    | Drones \<Rightarrow>
                        if bodyName \<in> set [''EMERGENCYDRONE'', ''EQUIPMENTDRONE'', ''FLAMEDRONE'', ''MEGADRONE'']
                        then Some (''/Logbook/LOGBOOK_CATEGORY_DRONE/'' @ bodyName @ ''_BODY_NAME'')
                        else Some (''/Logbook/LOGBOOK_CATEGORY_DRONE/DRONE_'' @ bodyName @ ''_BODY_NAME'')
                    | _ \<Rightarrow> None)))"

section \<open>The unlocked predicate\<close>

text \<open>The body name of the last check of \<^verbatim>\<open>isLogbookEntryUnlocked\<close>.\<close>

definition failsafeBodyName :: "LogbookEntry \<Rightarrow> string" where
  "failsafeBodyName entry =
     (if startsWith (e_unlockId entry) ''Logs.'' then
        (let parts = splitOn CHR ''.'' (e_unlockId entry) in
         if length parts \<ge> 2 then stripSuffix (parts ! 1) ''.0'' else [])
      else if includesStr (e_unlockId entry) ''/Logbook/'' then getInternalBodyName (e_unlockId entry)
      else [])"

definition isLogbookEntryUnlocked :: "SaveData \<Rightarrow> LogbookEntry \<Rightarrow> bool" where
  "isLogbookEntryUnlocked saveData entry =
     (if e_unlockId entry \<in> set (unlocks saveData) then True
      else if e_unlockId entry \<in> set (viewedViewables saveData) then True
      else if list_ex (\<lambda>alias. alias \<in> set (viewedViewables saveData))
                (getLogbookAliases (e_unlockId entry)) then True
      else if (case convertToViewableId entry of
                 None \<Rightarrow> False
               | Some viewableId \<Rightarrow> viewableId \<noteq> [] \<and> viewableId \<in> set (viewedViewables saveData))
           then True
      else if (case e_pickupId entry of
                 None \<Rightarrow> False
               | Some p \<Rightarrow> p \<noteq> [] \<and> p \<in> set (discoveredPickups saveData)) then True
      else if e_category entry = Drones \<and> \<not> truthy (e_pickupId entry)
              \<and> (case getDronePickupId (e_unlockId entry) of
                    None \<Rightarrow> False
                  | Some d \<Rightarrow> d \<noteq> [] \<and> d \<in> set (discoveredPickups saveData)) then True
      else
        (let bodyName = failsafeBodyName entry in
         if bodyName \<noteq> [] then
           (if startsWith bodyName ''Logs.'' \<or> startsWith bodyName ''Log.''
            then bodyName \<in> set (unlocks saveData)
            else (let logStat = ''Logs.'' @ bodyName @ ''Body.0'' in
                  stats saveData logStat \<noteq> None \<or> logStat \<in> set (unlocks saveData)))
         else False))"

section \<open>Stat projection: \<^verbatim>\<open>updateLogbookStats\<close>\<close>

text \<open>
  The function mutates the \<^verbatim>\<open>unlocks\<close> set and the \<^verbatim>\<open>stats\<close> map it is given; the
  model returns both. \<open>logNames\<close> is the pair \<^verbatim>\<open>(bodyName, fullLogString)\<close> it starts with.
\<close>

definition stripLogAffixes :: "string \<Rightarrow> string" where
  "stripLogAffixes n = stripSuffix (stripPrefix (stripPrefix n ''Logs.'') ''Log.'') ''.0''"

definition logNames :: "LogbookEntry \<Rightarrow> string \<times> string" where
  "logNames entry =
     (if startsWith (e_unlockId entry) ''Logs.'' then
        (let overrideName = getInternalBodyName (e_unlockId entry) in
         if overrideName \<noteq> [] \<and> (startsWith overrideName ''Logs.'' \<or> startsWith overrideName ''Log.'')
         then (stripLogAffixes overrideName, overrideName)
         else
           (let parts = splitOn CHR ''.'' (e_unlockId entry) in
            if length parts \<ge> 2 then (stripSuffix (stripSuffix (parts ! 1) ''.0'') ''Body'', [])
            else ([], [])))
      else
        (let internal = getInternalBodyName (e_unlockId entry) in
         if startsWith internal ''Logs.'' \<or> startsWith internal ''Log.''
         then (stripLogAffixes internal, internal)
         else (internal, [])))"

definition stagesToUnlock :: "string \<Rightarrow> string list" where
  "stagesToUnlock stageName =
     [stageName]
     @ (if includesStr stageName ''artifactworld''
        then [''artifactworld01'', ''artifactworld02'', ''artifactworld03'', ''artifactworld04'']
        else [])
     @ (if stageName = ''moon'' \<or> stageName = ''moon2'' then [''moon2''] else [])"

definition enableStage :: "string list \<times> (string \<rightharpoonup> string) \<Rightarrow> string \<Rightarrow> string list \<times> (string \<rightharpoonup> string)" where
  "enableStage us stage =
     (case us of (u, st) \<Rightarrow>
        (setAdd u (''Logs.Stages.'' @ stage),
         st(''totalTimesVisited.'' @ stage \<mapsto> ''1'', ''totalTimesCleared.'' @ stage \<mapsto> ''1'')))"

definition disableStage :: "string list \<times> (string \<rightharpoonup> string) \<Rightarrow> string \<Rightarrow> string list \<times> (string \<rightharpoonup> string)" where
  "disableStage us stage =
     (case us of (u, st) \<Rightarrow>
        (setDelete u (''Logs.Stages.'' @ stage), st(''Logs.Stages.'' @ stage := None)))"

definition logUnlockOf :: "string \<Rightarrow> string \<Rightarrow> string" where
  "logUnlockOf bodyName fullLogString =
     (if fullLogString \<noteq> [] then fullLogString
      else ''Logs.'' @ (if \<not> endsWith bodyName ''Body'' then bodyName @ ''Body'' else bodyName) @ ''.0'')"

definition statBodyNameOf :: "string \<Rightarrow> string \<Rightarrow> string" where
  "statBodyNameOf bodyName fullLogString =
     (if \<not> endsWith bodyName ''Body'' \<and> \<not> includesStr fullLogString ''SolusHeart''
      then bodyName @ ''Body'' else bodyName)"

definition updateLogbookStats ::
  "LogbookEntry \<Rightarrow> bool \<Rightarrow> string list \<Rightarrow> (string \<rightharpoonup> string) \<Rightarrow> string list \<times> (string \<rightharpoonup> string)" where
  "updateLogbookStats entry enabled u st =
     (case logNames entry of (bodyName, fullLogString) \<Rightarrow>
      if bodyName = [] \<and> fullLogString = [] then (u, st)
      else if enabled then
        (if e_category entry = Environments then
           foldl enableStage (u, st) (stagesToUnlock (toLowerCase bodyName))
         else if e_category entry = Monsters \<or> e_category entry = Survivors \<or> e_category entry = Drones then
           (let logUnlock = logUnlockOf bodyName fullLogString;
                u1 = setAdd u logUnlock;
                statBodyName = statBodyNameOf bodyName fullLogString
            in if logUnlock = ''Log.SolusHeart'' then (u1, st)
               else if e_category entry = Drones then
                 (u1, st(''timesSummoned.'' @ statBodyName \<mapsto> ''1'',
                                  ''totalTimeAlive.'' @ statBodyName \<mapsto> ''1''))
               else if e_category entry = Monsters then
                 (let st1 = st(''killsAgainst.'' @ statBodyName \<mapsto> ''1'',
                                     ''deathsFrom.'' @ statBodyName \<mapsto> ''0'')
                  in if logUnlock = ''Logs.MiniVoidRaidCrab'' then
                       (u1, st1(''killsAgainst.MiniVoidRaidCrabBodyBase'' \<mapsto> ''1'',
                                         ''killsAgainst.MiniVoidRaidCrabBodyPhase1'' \<mapsto> ''1'',
                                         ''killsAgainst.MiniVoidRaidCrabBodyPhase2'' \<mapsto> ''1'',
                                         ''killsAgainst.MiniVoidRaidCrabBodyPhase3'' \<mapsto> ''1''))
                     else (u1, st1))
               else
                 (u1, st(''totalTimeAlive.'' @ statBodyName \<mapsto> ''1'',
                                  ''timesPicked.'' @ statBodyName \<mapsto> ''1'',
                                  ''totalWins.'' @ statBodyName \<mapsto> ''1'')))
         else (u, st))
      else
        (if e_category entry = Environments then
           foldl disableStage (u, st) (stagesToUnlock (toLowerCase bodyName))
         else if e_category entry = Monsters \<or> e_category entry = Survivors \<or> e_category entry = Drones then
           (let logUnlock = logUnlockOf bodyName fullLogString;
                u1 = setDelete u logUnlock;
                statBodyName = statBodyNameOf bodyName fullLogString
            in if logUnlock = ''Log.SolusHeart'' then (u1, st)
               else if e_category entry = Drones then
                 (u1, st(''timesSummoned.'' @ statBodyName := None,
                                  ''totalTimeAlive.'' @ statBodyName := None))
               else if e_category entry = Monsters then
                 (u1, st(''killsAgainst.'' @ statBodyName := None,
                                  ''deathsFrom.'' @ statBodyName := None))
               else
                 (u1, st(''totalTimeAlive.'' @ statBodyName := None,
                                  ''timesPicked.'' @ statBodyName := None,
                                  ''totalWins.'' @ statBodyName := None)))
         else (u, st)))"

definition applyLogbookStats :: "LogbookEntry \<Rightarrow> bool \<Rightarrow> SaveData \<Rightarrow> SaveData" where
  "applyLogbookStats entry enabled w =
     (case updateLogbookStats entry enabled (unlocks w) (stats w) of
        (unlocks', stats') \<Rightarrow> w\<lparr>unlocks := unlocks', stats := stats'\<rparr>)"

section \<open>Toggling one logbook entry\<close>

definition addAlias :: "SaveData \<Rightarrow> string \<Rightarrow> SaveData" where
  "addAlias w alias = w\<lparr>viewedViewables := setAdd (viewedViewables w) alias\<rparr>"

definition removeAlias :: "SaveData \<Rightarrow> string \<Rightarrow> SaveData" where
  "removeAlias w alias = w\<lparr>viewedViewables := setDelete (viewedViewables w) alias\<rparr>"

definition enableChallenge :: "Catalog \<Rightarrow> SaveData \<Rightarrow> Challenge \<Rightarrow> SaveData" where
  "enableChallenge cat w challenge =
     foldl addEntryMarkers
       (foldl grantUnlock
          (w\<lparr>achievements := setAdd (achievements w) (c_achievement challenge),
             unviewedAchievements := setAdd (unviewedAchievements w) (c_achievement challenge)\<rparr>)
          (c_unlocks challenge))
       (getLogbookEntriesForChallenge cat (c_id challenge))"

definition disableChallenge :: "Catalog \<Rightarrow> SaveData \<Rightarrow> Challenge \<Rightarrow> SaveData" where
  "disableChallenge cat w challenge =
     foldl removeEntryMarkers
       (foldl revokeUnlock
          (w\<lparr>achievements := setDelete (achievements w) (c_achievement challenge),
             unviewedAchievements := setDelete (unviewedAchievements w) (c_achievement challenge)\<rparr>)
          (c_unlocks challenge))
       (getLogbookEntriesForChallenge cat (c_id challenge))"

definition toggleLogbookEntry :: "Catalog \<Rightarrow> SaveData \<Rightarrow> LogbookEntry \<Rightarrow> bool \<Rightarrow> SaveData" where
  "toggleLogbookEntry cat saveData entry enabled =
     (let w0 = copySets saveData in
      if enabled then
        (let w1 = addEntryMarkers w0 entry;
             w2 = foldl (enableChallenge cat) w1 (getChallengesForLogbookEntry cat (e_id entry));
             w3 = foldl addAlias w2 (getLogbookAliases (e_unlockId entry))
         in applyLogbookStats entry True w3)
      else
        (let relatedChallenges = getChallengesForLogbookEntry cat (e_id entry);
             challengesToDisable =
               filter (\<lambda>challenge. shouldDisableChallengeForEntry cat challenge entry (viewedViewables w0))
                 relatedChallenges;
             w1 = w0\<lparr>unlocks := setDelete (unlocks w0) (e_unlockId entry),
                     viewedViewables := setDelete (viewedViewables w0) (e_unlockId entry)\<rparr>;
             w2 = foldl removeAlias w1 (getLogbookAliases (e_unlockId entry));
             w3 = (case e_pickupId entry of
                     None \<Rightarrow> w2
                   | Some p \<Rightarrow> if p \<noteq> [] then w2\<lparr>discoveredPickups := setDelete (discoveredPickups w2) p\<rparr>
                              else w2);
             w4 = applyLogbookStats entry False w3
         in foldl (disableChallenge cat) w4 challengesToDisable))"

section \<open>Bulk operations\<close>

text \<open>
  The optional filter \<^verbatim>\<open>allowedDLCs?: Record<string, boolean>\<close> is read at DLC tags
  only. A challenge or entry is skipped when the filter is given, the tag is not
  \<^verbatim>\<open>"base"\<close> and the filter holds \<^verbatim>\<open>false\<close> for the tag.
\<close>

definition dlcSkipped :: "(DLC \<rightharpoonup> bool) option \<Rightarrow> DLC \<Rightarrow> bool" where
  "dlcSkipped allowedDLCs dlc =
     (case allowedDLCs of None \<Rightarrow> False | Some f \<Rightarrow> dlc \<noteq> Base \<and> f dlc = Some False)"

definition unlockChallenge :: "Catalog \<Rightarrow> (DLC \<rightharpoonup> bool) option \<Rightarrow> SaveData \<Rightarrow> Challenge \<Rightarrow> SaveData" where
  "unlockChallenge cat allowedDLCs w challenge =
     (if dlcSkipped allowedDLCs (c_dlc challenge) then w
      else foldl addEntryMarkers
             (foldl grantUnlock (w\<lparr>achievements := setAdd (achievements w) (c_achievement challenge)\<rparr>)
                (c_unlocks challenge))
             (getLogbookEntriesForChallenge cat (c_id challenge)))"

definition syncChallenge :: "(DLC \<rightharpoonup> bool) option \<Rightarrow> SaveData \<Rightarrow> Challenge \<Rightarrow> SaveData" where
  "syncChallenge allowedDLCs w challenge =
     (if dlcSkipped allowedDLCs (c_dlc challenge) then w
      else foldl grantUnlock (w\<lparr>achievements := setAdd (achievements w) (c_achievement challenge)\<rparr>)
             (c_unlocks challenge))"

definition unlockEntry :: "Catalog \<Rightarrow> (DLC \<rightharpoonup> bool) option \<Rightarrow> SaveData \<Rightarrow> LogbookEntry \<Rightarrow> SaveData" where
  "unlockEntry cat allowedDLCs w entry =
     (if dlcSkipped allowedDLCs (e_dlc entry) then w
      else
        (let w1 = addEntryMarkers w entry;
             w2 = foldl (syncChallenge allowedDLCs) w1 (getChallengesForLogbookEntry cat (e_id entry));
             w3 = foldl addAlias w2 (getLogbookAliases (e_unlockId entry))
         in applyLogbookStats entry True w3))"

definition unlockAllLogbook :: "Catalog \<Rightarrow> SaveData \<Rightarrow> (DLC \<rightharpoonup> bool) option \<Rightarrow> SaveData" where
  "unlockAllLogbook cat saveData allowedDLCs =
     (foldl (unlockEntry cat allowedDLCs) (copySets saveData) (logbookEntries cat))
       \<lparr>unviewedAchievements := []\<rparr>"

definition unlockAll :: "Catalog \<Rightarrow> SaveData \<Rightarrow> (DLC \<rightharpoonup> bool) option \<Rightarrow> SaveData" where
  "unlockAll cat saveData allowedDLCs =
     (let saveDataWithAchievements =
            (foldl (unlockChallenge cat allowedDLCs) (copySets saveData) (challenges cat))
              \<lparr>unviewedAchievements := []\<rparr>
      in unlockAllLogbook cat saveDataWithAchievements allowedDLCs)"

text \<open>
  \<^verbatim>\<open>lockAllLogbook\<close> derives its own body name and key for each entry;
  \<open>toDisable\<close> is the set \<^verbatim>\<open>challengesToDisable\<close> of achievement ids.
\<close>

definition lockNames :: "LogbookEntry \<Rightarrow> string \<times> string" where
  "lockNames entry =
     (if startsWith (e_unlockId entry) ''Logs.'' then
        (let parts = splitOn CHR ''.'' (e_unlockId entry) in
         if length parts \<ge> 2 then (stripSuffix (stripSuffix (parts ! 1) ''.0'') ''Body'', [])
         else ([], []))
      else
        (let internal = getInternalBodyName (e_unlockId entry) in
         if startsWith internal ''Logs.'' \<or> startsWith internal ''Log.''
         then (stripLogAffixes internal, internal)
         else (internal, [])))"

definition lockStatKeys :: "LogbookCategory \<Rightarrow> string \<Rightarrow> string list" where
  "lockStatKeys category bodyName =
     (let statBodyName = stripSuffix bodyName ''Body'' in
      if category = Drones then
        [''timesSummoned.'' @ statBodyName @ ''Body'', ''totalTimeAlive.'' @ statBodyName @ ''Body'']
      else if category = Monsters then
        [''killsAgainst.'' @ statBodyName @ ''Body'', ''deathsFrom.'' @ statBodyName @ ''Body'']
      else if category = Survivors then
        [''totalTimeAlive.'' @ statBodyName @ ''Body'', ''timesPicked.'' @ statBodyName @ ''Body'',
         ''totalWins.'' @ statBodyName @ ''Body'']
      else [])"

definition deleteStat :: "(string \<rightharpoonup> string) \<Rightarrow> string \<Rightarrow> (string \<rightharpoonup> string)" where
  "deleteStat st key = st(key := None)"

definition lockKey :: "LogbookEntry \<Rightarrow> string \<Rightarrow> string \<Rightarrow> string" where
  "lockKey entry bodyName fullLogString =
     (if e_category entry = Environments then ''Logs.Stages.'' @ toLowerCase bodyName
      else if e_category entry \<in> set [Monsters, Survivors, Drones] then
        (if fullLogString = [] then ''Logs.'' @ bodyName @ ''Body.0'' else fullLogString)
      else fullLogString)"

definition lockStats :: "LogbookEntry \<Rightarrow> string \<Rightarrow> (string \<rightharpoonup> string) \<Rightarrow> (string \<rightharpoonup> string)" where
  "lockStats entry bodyName st =
     (if e_category entry \<noteq> Environments \<and> e_category entry \<in> set [Monsters, Survivors, Drones]
      then foldl deleteStat st (lockStatKeys (e_category entry) bodyName)
      else st)"

definition lockEntryLogs :: "LogbookEntry \<Rightarrow> SaveData \<Rightarrow> SaveData" where
  "lockEntryLogs entry w =
     (case lockNames entry of (bodyName, fullLogString) \<Rightarrow>
      if bodyName \<noteq> [] \<or> fullLogString \<noteq> [] then
        (let key = lockKey entry bodyName fullLogString;
             stats1 = lockStats entry bodyName (stats w)
         in if key \<noteq> [] then w\<lparr>unlocks := setDelete (unlocks w) key, stats := stats1(key := None)\<rparr>
            else w\<lparr>stats := stats1\<rparr>)
      else w)"

definition lockEntry :: "Catalog \<Rightarrow> SaveData \<times> string list \<Rightarrow> LogbookEntry \<Rightarrow> SaveData \<times> string list" where
  "lockEntry cat wd entry =
     (case wd of (w, toDisable) \<Rightarrow>
        (let w1 = w\<lparr>unlocks := setDelete (unlocks w) (e_unlockId entry),
                    viewedViewables := setDelete (viewedViewables w) (e_unlockId entry)\<rparr>;
             w2 = foldl removeAlias w1 (getLogbookAliases (e_unlockId entry));
             w3 = lockEntryLogs entry w2;
             w4 = (case e_pickupId entry of
                     None \<Rightarrow> w3
                   | Some p \<Rightarrow> if p \<noteq> [] then w3\<lparr>discoveredPickups := setDelete (discoveredPickups w3) p\<rparr>
                              else w3)
         in (w4, foldl setAdd toDisable
                   (map c_achievement (getChallengesForLogbookEntry cat (e_id entry))))))"

definition lockAchievement :: "Catalog \<Rightarrow> SaveData \<Rightarrow> string \<Rightarrow> SaveData" where
  "lockAchievement cat w achievementId =
     (let w1 = w\<lparr>achievements := setDelete (achievements w) achievementId,
                 unviewedAchievements := setDelete (unviewedAchievements w) achievementId\<rparr>
      in case find (\<lambda>c. c_achievement c = achievementId) (challenges cat) of
           None \<Rightarrow> w1
         | Some challenge \<Rightarrow> foldl revokeUnlock w1 (c_unlocks challenge))"

definition lockAllLogbook :: "Catalog \<Rightarrow> SaveData \<Rightarrow> SaveData" where
  "lockAllLogbook cat saveData =
     (case foldl (lockEntry cat) (copySets saveData, []) (logbookEntries cat) of
        (w, toDisable) \<Rightarrow> foldl (lockAchievement cat) w toDisable)"

section \<open>Notions used in the statements\<close>

text \<open>The pickup ids that the operations take for present in a list of entries.\<close>

definition pickupsOf :: "LogbookEntry list \<Rightarrow> string set" where
  "pickupsOf es = {p. \<exists>e \<in> set es. e_pickupId e = Some p \<and> p \<noteq> []}"

text \<open>
  For the proofs about the reference graph: the index of the first loop, the entry ids
  that one challenge links to, and the two maps read with their default \<^verbatim>\<open>|| []\<close>.
\<close>

definition entryIndex :: "Catalog \<Rightarrow> string \<rightharpoonup> LogbookEntry" where
  "entryIndex cat = unlockIdToLogbook (foldl indexEntry emptyMapping (logbookEntries cat))"

definition idOfUnlock :: "(string \<rightharpoonup> LogbookEntry) \<Rightarrow> string \<Rightarrow> string list" where
  "idOfUnlock ix u =
     (if isMappedPrefix u then (case ix u of None \<Rightarrow> [] | Some le \<Rightarrow> [e_id le]) else [])"

fun idsOf :: "(string \<rightharpoonup> LogbookEntry) \<Rightarrow> string list \<Rightarrow> string list" where
  "idsOf ix [] = []"
| "idsOf ix (u # us) = idOfUnlock ix u @ idsOf ix us"

definition l2c :: "Mapping \<Rightarrow> string \<Rightarrow> string list" where
  "l2c m eid = (case logbookToChallenge m eid of None \<Rightarrow> [] | Some cs \<Rightarrow> cs)"

definition c2l :: "Mapping \<Rightarrow> string \<Rightarrow> string list" where
  "c2l m cid = (case challengeToLogbook m cid of None \<Rightarrow> [] | Some ids \<Rightarrow> ids)"

text \<open>
  A catalog is well formed when challenge ids, achievement ids, entry ids and pickup ids
  are not repeated.
\<close>

definition pickupOf :: "LogbookEntry \<Rightarrow> string list" where
  "pickupOf e = (case e_pickupId e of None \<Rightarrow> [] | Some p \<Rightarrow> if p \<noteq> [] then [p] else [])"

fun pickupList :: "LogbookEntry list \<Rightarrow> string list" where
  "pickupList [] = []"
| "pickupList (e # es) = pickupOf e @ pickupList es"

definition wellFormed :: "Catalog \<Rightarrow> bool" where
  "wellFormed cat =
     (distinct (map c_id (challenges cat)) \<and> distinct (map c_achievement (challenges cat))
      \<and> distinct (map e_id (logbookEntries cat)) \<and> distinct (pickupList (logbookEntries cat)))"

text \<open>
  The entries of a challenge that no other held achievement provides, and a challenge
  none of whose markers is present in a state.
\<close>

definition unprovided :: "Catalog \<Rightarrow> string list \<Rightarrow> string \<Rightarrow> LogbookEntry list \<Rightarrow> LogbookEntry list" where
  "unprovided cat held a es = filter (\<lambda>e. \<not> isLogbookEntryProvidedByOtherChallenge cat e a held) es"

definition lockedIn :: "Catalog \<Rightarrow> SaveData \<Rightarrow> Challenge \<Rightarrow> bool" where
  "lockedIn cat s A =
     (c_achievement A \<notin> set (achievements s) \<and> c_achievement A \<notin> set (unviewedAchievements s)
      \<and> set (c_unlocks A) \<inter> set (viewedUnlockables s) = {}
      \<and> set (c_unlocks A) \<inter> set (unlocks s) = {}
      \<and> e_unlockId ` set (getLogbookEntriesForChallenge cat (c_id A)) \<inter> set (viewedViewables s) = {}
      \<and> pickupsOf (getLogbookEntriesForChallenge cat (c_id A)) \<inter> set (discoveredPickups s) = {})"

text \<open>The challenges and entries of a list that a DLC filter does not skip.\<close>

definition unskipped :: "(DLC \<rightharpoonup> bool) option \<Rightarrow> Challenge list \<Rightarrow> Challenge set" where
  "unskipped allowedDLCs cs = {c \<in> set cs. \<not> dlcSkipped allowedDLCs (c_dlc c)}"

definition unskippedEntries :: "(DLC \<rightharpoonup> bool) option \<Rightarrow> LogbookEntry list \<Rightarrow> LogbookEntry list" where
  "unskippedEntries allowedDLCs es = filter (\<lambda>e. \<not> dlcSkipped allowedDLCs (e_dlc e)) es"

text \<open>
  The challenges that disabling an entry disables (\<^verbatim>\<open>challengesToDisable\<close>, decided on
  the \<^verbatim>\<open>viewedViewables\<close> of the input state), and the states of the disable branch
  before they are disabled.
\<close>

definition toDisable :: "Catalog \<Rightarrow> SaveData \<Rightarrow> LogbookEntry \<Rightarrow> Challenge list" where
  "toDisable cat s entry =
     filter (\<lambda>challenge. shouldDisableChallengeForEntry cat challenge entry (viewedViewables s))
       (getChallengesForLogbookEntry cat (e_id entry))"

definition markersRemoved :: "SaveData \<Rightarrow> LogbookEntry \<Rightarrow> SaveData" where
  "markersRemoved s entry =
     (let w0 = copySets s;
          w1 = w0\<lparr>unlocks := setDelete (unlocks w0) (e_unlockId entry),
                  viewedViewables := setDelete (viewedViewables w0) (e_unlockId entry)\<rparr>;
          w2 = foldl removeAlias w1 (getLogbookAliases (e_unlockId entry))
      in case e_pickupId entry of
           None \<Rightarrow> w2
         | Some p \<Rightarrow> if p \<noteq> [] then w2\<lparr>discoveredPickups := setDelete (discoveredPickups w2) p\<rparr>
                    else w2)"

definition entryRemoved :: "SaveData \<Rightarrow> LogbookEntry \<Rightarrow> SaveData" where
  "entryRemoved s entry = applyLogbookStats entry False (markersRemoved s entry)"

text \<open>
  The key prefixes under which \<^verbatim>\<open>lockAllLogbook\<close> deletes counters, the counter keys
  it derives for one entry, and two intermediate states of one step of its loop.
\<close>

definition trackedPrefixes :: "string list" where
  "trackedPrefixes = [''Logs.'', ''Log.'', ''timesSummoned.'', ''totalTimeAlive.'', ''killsAgainst.'',
     ''deathsFrom.'', ''timesPicked.'', ''totalWins.'']"

definition trackedKey :: "string \<Rightarrow> bool" where
  "trackedKey k = list_ex (startsWith k) trackedPrefixes"

definition lockCounterKeys :: "LogbookEntry \<Rightarrow> string list" where
  "lockCounterKeys entry =
     (case lockNames entry of (bodyName, fullLogString) \<Rightarrow>
        if (bodyName \<noteq> [] \<or> fullLogString \<noteq> [])
           \<and> e_category entry \<noteq> Environments
           \<and> e_category entry \<in> set [Monsters, Survivors, Drones]
        then lockStatKeys (e_category entry) bodyName else [])"

text \<open>
  The counters that the enable branch of \<^verbatim>\<open>updateLogbookStats\<close> creates for an entry
  (the keys it writes do not depend on the counter map it is given, so the empty one is
  used), the per-stage counters of an environment, and the four phase counters that the
  enable branch writes for \<^verbatim>\<open>Logs.MiniVoidRaidCrab\<close>.
\<close>

definition createdOnEnable :: "LogbookEntry \<Rightarrow> string \<Rightarrow> bool" where
  "createdOnEnable entry k = (snd (updateLogbookStats entry True [] Map.empty) k \<noteq> None)"

definition stageCounter :: "string \<Rightarrow> bool" where
  "stageCounter k = (startsWith k ''totalTimesVisited.'' \<or> startsWith k ''totalTimesCleared.'')"

definition phaseCounters :: "string list" where
  "phaseCounters = [''killsAgainst.MiniVoidRaidCrabBodyBase'', ''killsAgainst.MiniVoidRaidCrabBodyPhase1'',
     ''killsAgainst.MiniVoidRaidCrabBodyPhase2'', ''killsAgainst.MiniVoidRaidCrabBodyPhase3'']"

definition unmarked :: "SaveData \<Rightarrow> LogbookEntry \<Rightarrow> SaveData" where
  "unmarked w entry =
     foldl removeAlias
       (w\<lparr>unlocks := setDelete (unlocks w) (e_unlockId entry),
          viewedViewables := setDelete (viewedViewables w) (e_unlockId entry)\<rparr>)
       (getLogbookAliases (e_unlockId entry))"

definition dropPickup :: "LogbookEntry \<Rightarrow> SaveData \<Rightarrow> SaveData" where
  "dropPickup entry w =
     (case e_pickupId entry of
        None \<Rightarrow> w
      | Some p \<Rightarrow> if p \<noteq> [] then w\<lparr>discoveredPickups := setDelete (discoveredPickups w) p\<rparr> else w)"

section \<open>A small catalog and some states, for concrete evaluation\<close>

definition exFirework :: LogbookEntry where
  "exFirework = \<lparr>e_id = ''firework'', e_category = Items, e_unlockId = ''Items.Firework'',
     e_pickupId = Some ''ItemIndex.Firework'', e_dlc = Base\<rparr>"

definition exMedkit :: LogbookEntry where
  "exMedkit = \<lparr>e_id = ''medkit'', e_category = Items, e_unlockId = ''Items.Medkit'',
     e_pickupId = Some ''ItemIndex.Medkit'', e_dlc = Base\<rparr>"

definition exMeteor :: LogbookEntry where
  "exMeteor = \<lparr>e_id = ''meteor'', e_category = Equipment, e_unlockId = ''Equipment.Meteor'',
     e_pickupId = Some ''EquipmentIndex.Meteor'', e_dlc = Base\<rparr>"

definition exChirp :: LogbookEntry where
  "exChirp = \<lparr>e_id = ''chirp'', e_category = Drones, e_unlockId = ''Logs.ChirpBody.0'',
     e_pickupId = Some ''DroneIndex.Chirp'', e_dlc = Ac\<rparr>"

definition exGolemplains :: LogbookEntry where
  "exGolemplains = \<lparr>e_id = ''golemplains'', e_category = Environments,
     e_unlockId = ''/Logbook/LOGBOOK_CATEGORY_STAGE/MAP_GOLEMPLAINS_TITLE'', e_pickupId = None,
     e_dlc = Base\<rparr>"

definition exChallengeA :: Challenge where
  "exChallengeA = \<lparr>c_id = ''maybe-one-more'', c_achievement = ''RepeatedlyDuplicateItems'',
     c_unlocks = [''Items.Firework''], c_dlc = Base\<rparr>"

definition exChallengeB :: Challenge where
  "exChallengeB = \<lparr>c_id = ''second-provider'', c_achievement = ''SecondProvider'',
     c_unlocks = [''Items.Firework''], c_dlc = Sotv\<rparr>"

definition exChallengeC :: Challenge where
  "exChallengeC = \<lparr>c_id = ''elite-slayer'', c_achievement = ''KillEliteMonster'',
     c_unlocks = [''Items.Medkit'', ''Equipment.Meteor''], c_dlc = Base\<rparr>"

definition exCatalog :: Catalog where
  "exCatalog = \<lparr>challenges = [exChallengeA, exChallengeB, exChallengeC],
     logbookEntries = [exFirework, exMedkit, exMeteor, exChirp, exGolemplains]\<rparr>"

definition exState :: SaveData where
  "exState = \<lparr>name = ''Survivor'', coins = 0, achievements = [], unviewedAchievements = [],
     viewedUnlockables = [], unlocks = [], stats = Map.empty, viewedViewables = [],
     discoveredPickups = []\<rparr>"

definition exHeld :: SaveData where
  "exHeld = \<lparr>name = ''Survivor'', coins = 3, achievements = [''RepeatedlyDuplicateItems''],
     unviewedAchievements = [], viewedUnlockables = [''Items.Firework''],
     unlocks = [''Items.Firework''], stats = [''totalDeaths'' \<mapsto> ''5''],
     viewedViewables = [''Items.Firework''], discoveredPickups = [''ItemIndex.Firework'']\<rparr>"

definition exCounters :: SaveData where
  "exCounters = exState\<lparr>stats := [''timesSummoned.ChirpBody'' \<mapsto> ''3'', ''totalTimeAlive.ChirpBody'' \<mapsto> ''120'']\<rparr>"

definition exPlayed :: SaveData where
  "exPlayed = exState\<lparr>unlocks := [''Logs.ChirpBody.0'', ''Characters.Toolbot''],
     stats := [''timesSummoned.ChirpBody'' \<mapsto> ''3'', ''totalTimeAlive.ChirpBody'' \<mapsto> ''120'',
               ''totalTimesVisited.golemplains'' \<mapsto> ''7'', ''totalDeaths'' \<mapsto> ''5'']\<rparr>"

text \<open>A monster entry given by its logbook path, alone in a catalog, and a state with its counters.\<close>

definition exMagmaWorm :: LogbookEntry where
  "exMagmaWorm = \<lparr>e_id = ''magmaworm'', e_category = Monsters,
     e_unlockId = ''/Logbook/LOGBOOK_CATEGORY_MONSTER/MAGMAWORM_BODY_NAME'', e_pickupId = None,
     e_dlc = Base\<rparr>"

definition exBestiary :: Catalog where
  "exBestiary = \<lparr>challenges = [], logbookEntries = [exMagmaWorm]\<rparr>"

definition exFought :: SaveData where
  "exFought = exState\<lparr>unlocks := [''Logs.MagmaWormBody.0''],
     stats := [''killsAgainst.MagmaWormBody'' \<mapsto> ''12'', ''deathsFrom.MagmaWormBody'' \<mapsto> ''2'']\<rparr>"

section \<open>Sets and the loops over them\<close>

lemma set_setAdd: "set (setAdd xs x) = insert x (set xs)"
  by (auto simp: setAdd_def)

lemma set_setDelete: "set (setDelete xs x) = set xs - {x}"
  by (auto simp: setDelete_def)

lemma set_foldl_setAdd: "set (foldl setAdd xs ys) = set xs \<union> set ys"
  by (induction ys arbitrary: xs) (auto simp: set_setAdd)

lemma set_foldl_setDelete: "set (foldl setDelete xs ys) = set xs - set ys"
  by (induction ys arbitrary: xs) (auto simp: set_setDelete)

lemma set_newSet: "set (newSet xs) = set xs"
  by (simp add: newSet_def set_foldl_setAdd)

lemma pickupsOf_Nil: "pickupsOf [] = {}"
  by (simp add: pickupsOf_def)

lemma pickupsOf_Cons:
  "pickupsOf (e # es) =
     (case e_pickupId e of None \<Rightarrow> {} | Some p \<Rightarrow> if p \<noteq> [] then {p} else {}) \<union> pickupsOf es"
  by (auto simp: pickupsOf_def split: option.splits)

lemma copySets_fields:
  "set (achievements (copySets s)) = set (achievements s)"
  "set (unviewedAchievements (copySets s)) = set (unviewedAchievements s)"
  "set (viewedUnlockables (copySets s)) = set (viewedUnlockables s)"
  "set (unlocks (copySets s)) = set (unlocks s)"
  "set (viewedViewables (copySets s)) = set (viewedViewables s)"
  "set (discoveredPickups (copySets s)) = set (discoveredPickups s)"
  "stats (copySets s) = stats s" "name (copySets s) = name s" "coins (copySets s) = coins s"
  by (simp_all add: copySets_def set_newSet)

lemma foldl_grantUnlock:
  "achievements (foldl grantUnlock w us) = achievements w"
  "unviewedAchievements (foldl grantUnlock w us) = unviewedAchievements w"
  "set (viewedUnlockables (foldl grantUnlock w us)) = set (viewedUnlockables w) \<union> set us"
  "set (unlocks (foldl grantUnlock w us)) = set (unlocks w) \<union> set us"
  "viewedViewables (foldl grantUnlock w us) = viewedViewables w"
  "discoveredPickups (foldl grantUnlock w us) = discoveredPickups w"
  "stats (foldl grantUnlock w us) = stats w"
  "name (foldl grantUnlock w us) = name w"
  "coins (foldl grantUnlock w us) = coins w"
  by (induction us arbitrary: w) (auto simp: grantUnlock_def set_setAdd)

lemma foldl_revokeUnlock:
  "achievements (foldl revokeUnlock w us) = achievements w"
  "unviewedAchievements (foldl revokeUnlock w us) = unviewedAchievements w"
  "set (viewedUnlockables (foldl revokeUnlock w us)) = set (viewedUnlockables w) - set us"
  "set (unlocks (foldl revokeUnlock w us)) = set (unlocks w) - set us"
  "viewedViewables (foldl revokeUnlock w us) = viewedViewables w"
  "discoveredPickups (foldl revokeUnlock w us) = discoveredPickups w"
  "stats (foldl revokeUnlock w us) = stats w"
  "name (foldl revokeUnlock w us) = name w"
  "coins (foldl revokeUnlock w us) = coins w"
  by (induction us arbitrary: w) (auto simp: revokeUnlock_def set_setDelete)

lemma foldl_addEntryMarkers:
  "achievements (foldl addEntryMarkers w es) = achievements w"
  "unviewedAchievements (foldl addEntryMarkers w es) = unviewedAchievements w"
  "viewedUnlockables (foldl addEntryMarkers w es) = viewedUnlockables w"
  "set (unlocks (foldl addEntryMarkers w es)) = set (unlocks w) \<union> e_unlockId ` set es"
  "set (viewedViewables (foldl addEntryMarkers w es)) = set (viewedViewables w) \<union> e_unlockId ` set es"
  "set (discoveredPickups (foldl addEntryMarkers w es)) = set (discoveredPickups w) \<union> pickupsOf es"
  "stats (foldl addEntryMarkers w es) = stats w"
  "name (foldl addEntryMarkers w es) = name w"
  "coins (foldl addEntryMarkers w es) = coins w"
  by (induction es arbitrary: w)
     (auto simp: addEntryMarkers_def set_setAdd pickupsOf_Nil pickupsOf_Cons split: option.splits)

lemma foldl_removeEntryMarkers:
  "achievements (foldl removeEntryMarkers w es) = achievements w"
  "unviewedAchievements (foldl removeEntryMarkers w es) = unviewedAchievements w"
  "viewedUnlockables (foldl removeEntryMarkers w es) = viewedUnlockables w"
  "set (unlocks (foldl removeEntryMarkers w es)) = set (unlocks w) - e_unlockId ` set es"
  "set (viewedViewables (foldl removeEntryMarkers w es)) = set (viewedViewables w) - e_unlockId ` set es"
  "set (discoveredPickups (foldl removeEntryMarkers w es)) = set (discoveredPickups w) - pickupsOf es"
  "stats (foldl removeEntryMarkers w es) = stats w"
  "name (foldl removeEntryMarkers w es) = name w"
  "coins (foldl removeEntryMarkers w es) = coins w"
  by (induction es arbitrary: w)
     (auto simp: removeEntryMarkers_def set_setDelete pickupsOf_Nil pickupsOf_Cons split: option.splits)

lemma foldl_removeUnlessProvided_frame:
  "achievements (foldl (removeUnlessProvided cat a) w es) = achievements w"
  "unviewedAchievements (foldl (removeUnlessProvided cat a) w es) = unviewedAchievements w"
  "viewedUnlockables (foldl (removeUnlessProvided cat a) w es) = viewedUnlockables w"
  "stats (foldl (removeUnlessProvided cat a) w es) = stats w"
  "name (foldl (removeUnlessProvided cat a) w es) = name w"
  "coins (foldl (removeUnlessProvided cat a) w es) = coins w"
  by (induction es arbitrary: w)
     (auto simp: removeUnlessProvided_def removeEntryMarkers_def split: option.splits)

lemma foldl_removeUnlessProvided_eq:
  "foldl (removeUnlessProvided cat a) w es =
   foldl removeEntryMarkers w
     (filter (\<lambda>e. \<not> isLogbookEntryProvidedByOtherChallenge cat e a (achievements w)) es)"
proof (induction es arbitrary: w)
  case Nil
  show ?case by simp
next
  case (Cons e es)
  have ach: "achievements (removeEntryMarkers w e) = achievements w"
    by (simp add: removeEntryMarkers_def)
  show ?case
  proof (cases "isLogbookEntryProvidedByOtherChallenge cat e a (achievements w)")
    case True
    then have "removeUnlessProvided cat a w e = w"
      by (simp add: removeUnlessProvided_def)
    with True Cons.IH [of w] show ?thesis by simp
  next
    case False
    then have "removeUnlessProvided cat a w e = removeEntryMarkers w e"
      by (simp add: removeUnlessProvided_def)
    with False Cons.IH [of "removeEntryMarkers w e"] ach show ?thesis by simp
  qed
qed

section \<open>The reference graph of a catalog\<close>

subsection \<open>Maps built from lists\<close>

lemma foldl_upd_Some:
  "foldl (\<lambda>m x. m(f x \<mapsto> x)) m xs k = Some y \<Longrightarrow> (y \<in> set xs \<and> f y = k) \<or> m k = Some y"
  by (induction xs arbitrary: m) (fastforce split: if_splits)+

lemma foldl_upd_notin:
  "k \<notin> f ` set xs \<Longrightarrow> foldl (\<lambda>m x. m(f x \<mapsto> x)) m xs k = m k"
  by (induction xs arbitrary: m) auto

lemma foldl_upd_distinct:
  "distinct (map f xs) \<Longrightarrow> x \<in> set xs \<Longrightarrow> foldl (\<lambda>m x. m(f x \<mapsto> x)) m xs (f x) = Some x"
proof (induction xs arbitrary: m)
  case Nil
  then show ?case by simp
next
  case (Cons a xs)
  show ?case
  proof (cases "x = a")
    case True
    with Cons.prems have "f a \<notin> f ` set xs" by auto
    then have "foldl (\<lambda>m x. m(f x \<mapsto> x)) (m(f a \<mapsto> a)) xs (f a) = (m(f a \<mapsto> a)) (f a)"
      by (rule foldl_upd_notin)
    also have "\<dots> = Some a" by simp
    finally show ?thesis unfolding True foldl_Cons .
  next
    case False
    with Cons show ?thesis by auto
  qed
qed

lemma set_map_filter: "set (List.map_filter f xs) = {y. \<exists>x \<in> set xs. f x = Some y}"
  by (induction xs) (auto simp: List.map_filter_simps split: option.splits)

lemma challengeById_Some: "challengeById cat k = Some c \<Longrightarrow> c \<in> set (challenges cat) \<and> c_id c = k"
  using foldl_upd_Some [where f = c_id and m = Map.empty and xs = "challenges cat" and k = k and y = c]
  by (simp add: challengeById_def)

lemma challengeById_distinct:
  "distinct (map c_id (challenges cat)) \<Longrightarrow> c \<in> set (challenges cat) \<Longrightarrow> challengeById cat (c_id c) = Some c"
  by (simp add: challengeById_def foldl_upd_distinct)

lemma logbookEntryById_Some:
  "logbookEntryById cat k = Some e \<Longrightarrow> e \<in> set (logbookEntries cat) \<and> e_id e = k"
  using foldl_upd_Some [where f = e_id and m = Map.empty and xs = "logbookEntries cat" and k = k and y = e]
  by (simp add: logbookEntryById_def)

lemma logbookEntryById_distinct:
  "distinct (map e_id (logbookEntries cat)) \<Longrightarrow> e \<in> set (logbookEntries cat)
   \<Longrightarrow> logbookEntryById cat (e_id e) = Some e"
  by (simp add: logbookEntryById_def foldl_upd_distinct)

subsection \<open>The first loop of buildMapping\<close>

lemma foldl_indexEntry_frame:
  "challengeToLogbook (foldl indexEntry m es) = challengeToLogbook m"
  "logbookToChallenge (foldl indexEntry m es) = logbookToChallenge m"
  by (induction es arbitrary: m) (auto simp: indexEntry_def)

lemma foldl_indexEntry_Some:
  "unlockIdToLogbook (foldl indexEntry m es) u = Some e
   \<Longrightarrow> (e \<in> set es \<and> e_unlockId e = u \<and> (e_category e = Items \<or> e_category e = Equipment))
       \<or> unlockIdToLogbook m u = Some e"
proof (induction es arbitrary: m)
  case Nil
  then show ?case by simp
next
  case (Cons a es)
  from Cons.prems have "unlockIdToLogbook (foldl indexEntry (indexEntry m a) es) u = Some e" by simp
  from Cons.IH [OF this] show ?case
    by (auto simp: indexEntry_def split: if_splits)
qed

lemma entryIndex_Some:
  "entryIndex cat u = Some e
   \<Longrightarrow> e \<in> set (logbookEntries cat) \<and> e_unlockId e = u \<and> (e_category e = Items \<or> e_category e = Equipment)"
  using foldl_indexEntry_Some [of emptyMapping "logbookEntries cat" u e]
  by (simp add: entryIndex_def emptyMapping_def)

subsection \<open>The second loop of buildMapping\<close>

lemma set_idOfUnlock:
  "set (idOfUnlock ix u) = {k. \<exists>le. isMappedPrefix u \<and> ix u = Some le \<and> e_id le = k}"
proof (cases "isMappedPrefix u")
  case False
  then show ?thesis by (simp add: idOfUnlock_def)
next
  case True
  then show ?thesis by (cases "ix u") (auto simp: idOfUnlock_def)
qed

lemma set_idsOf:
  "set (idsOf ix us) = {k. \<exists>u \<in> set us. \<exists>le. isMappedPrefix u \<and> ix u = Some le \<and> e_id le = k}"
  by (induction us) (auto simp: set_idOfUnlock)

lemma idsOf_append: "idsOf ix (us @ vs) = idsOf ix us @ idsOf ix vs"
  by (induction us) simp_all

lemma l2c_update:
  "l2c (m\<lparr>logbookToChallenge := (logbookToChallenge m)(k \<mapsto> l2c m k @ [cid])\<rparr>) eid =
     (if eid = k then l2c m k @ [cid] else l2c m eid)"
  by (simp add: l2c_def)

lemma linkUnlock_eq:
  "linkUnlock c (m, l) u =
     (if isMappedPrefix u then
        (case unlockIdToLogbook m u of
           None \<Rightarrow> (m, l)
         | Some le \<Rightarrow>
             (m\<lparr>logbookToChallenge := (logbookToChallenge m)(e_id le \<mapsto> l2c m (e_id le) @ [c_id c])\<rparr>,
              l @ [e_id le]))
      else (m, l))"
  by (simp add: linkUnlock_def l2c_def split: option.splits)

lemma linkUnlock_step:
  assumes "linkUnlock c (m, l) u = (m', l')"
  shows "unlockIdToLogbook m' = unlockIdToLogbook m" "challengeToLogbook m' = challengeToLogbook m"
    "l' = l @ idOfUnlock (unlockIdToLogbook m) u"
    "set (l2c m' eid) =
       set (l2c m eid) \<union> (if eid \<in> set (idOfUnlock (unlockIdToLogbook m) u) then {c_id c} else {})"
proof -
  show "unlockIdToLogbook m' = unlockIdToLogbook m" "challengeToLogbook m' = challengeToLogbook m"
    "l' = l @ idOfUnlock (unlockIdToLogbook m) u"
    using assms by (auto simp: linkUnlock_eq idOfUnlock_def split: if_splits option.splits)
  show "set (l2c m' eid) =
       set (l2c m eid) \<union> (if eid \<in> set (idOfUnlock (unlockIdToLogbook m) u) then {c_id c} else {})"
  proof (cases "isMappedPrefix u")
    case False
    with assms show ?thesis by (simp add: linkUnlock_eq idOfUnlock_def)
  next
    case True
    show ?thesis
    proof (cases "unlockIdToLogbook m u")
      case None
      with True assms show ?thesis by (simp add: linkUnlock_eq idOfUnlock_def)
    next
      case (Some le)
      with True assms have
        "m' = m\<lparr>logbookToChallenge := (logbookToChallenge m)(e_id le \<mapsto> l2c m (e_id le) @ [c_id c])\<rparr>"
        by (simp add: linkUnlock_eq)
      then have "l2c m' eid = (if eid = e_id le then l2c m (e_id le) @ [c_id c] else l2c m eid)"
        by (simp only: l2c_update)
      moreover have "idOfUnlock (unlockIdToLogbook m) u = [e_id le]"
        using True Some by (simp add: idOfUnlock_def)
      ultimately show ?thesis by auto
    qed
  qed
qed

lemma foldl_linkUnlock:
  "foldl (linkUnlock c) (m, l) us = (m', l') \<Longrightarrow>
     unlockIdToLogbook m' = unlockIdToLogbook m \<and> challengeToLogbook m' = challengeToLogbook m
     \<and> l' = l @ idsOf (unlockIdToLogbook m) us
     \<and> (\<forall>eid. set (l2c m' eid) =
           set (l2c m eid) \<union> (if eid \<in> set (idsOf (unlockIdToLogbook m) us) then {c_id c} else {}))"
proof (induction us arbitrary: m l)
  case Nil
  then show ?case by simp
next
  case (Cons u us)
  obtain m1 l1 where step: "linkUnlock c (m, l) u = (m1, l1)" by (cases "linkUnlock c (m, l) u")
  with Cons.prems have rest: "foldl (linkUnlock c) (m1, l1) us = (m', l')" by simp
  note s = linkUnlock_step [OF step] and r = Cons.IH [OF rest]
  show ?case using r unfolding s by auto
qed

lemma linkChallenge_fields:
  "unlockIdToLogbook (linkChallenge m c) = unlockIdToLogbook m"
  "set (l2c (linkChallenge m c) eid) =
     set (l2c m eid) \<union> (if eid \<in> set (idsOf (unlockIdToLogbook m) (c_unlocks c)) then {c_id c} else {})"
  "c2l (linkChallenge m c) cid =
     (if cid = c_id c \<and> idsOf (unlockIdToLogbook m) (c_unlocks c) \<noteq> []
      then idsOf (unlockIdToLogbook m) (c_unlocks c) else c2l m cid)"
proof -
  obtain m1 l1 where f: "foldl (linkUnlock c) (m, []) (c_unlocks c) = (m1, l1)"
    by (cases "foldl (linkUnlock c) (m, []) (c_unlocks c)")
  note r = foldl_linkUnlock [OF f]
  have lc: "linkChallenge m c =
      (if l1 \<noteq> [] then m1\<lparr>challengeToLogbook := (challengeToLogbook m1)(c_id c \<mapsto> l1)\<rparr> else m1)"
    by (simp add: linkChallenge_def f)
  show "unlockIdToLogbook (linkChallenge m c) = unlockIdToLogbook m"
    using r by (simp add: lc)
  show "set (l2c (linkChallenge m c) eid) =
     set (l2c m eid) \<union> (if eid \<in> set (idsOf (unlockIdToLogbook m) (c_unlocks c)) then {c_id c} else {})"
    using r by (simp add: lc l2c_def)
  show "c2l (linkChallenge m c) cid =
     (if cid = c_id c \<and> idsOf (unlockIdToLogbook m) (c_unlocks c) \<noteq> []
      then idsOf (unlockIdToLogbook m) (c_unlocks c) else c2l m cid)"
    using r by (simp add: lc c2l_def)
qed

lemma foldl_linkChallenge_index:
  "unlockIdToLogbook (foldl linkChallenge m cs) = unlockIdToLogbook m"
  by (induction cs arbitrary: m) (simp_all add: linkChallenge_fields)

lemma foldl_linkChallenge_l2c:
  "set (l2c (foldl linkChallenge m cs) eid) =
     set (l2c m eid) \<union> c_id ` {c \<in> set cs. eid \<in> set (idsOf (unlockIdToLogbook m) (c_unlocks c))}"
  by (induction cs arbitrary: m) (auto simp: linkChallenge_fields)

lemma foldl_linkChallenge_c2l_notin:
  "cid \<notin> c_id ` set cs \<Longrightarrow> c2l (foldl linkChallenge m cs) cid = c2l m cid"
  by (induction cs arbitrary: m) (auto simp: linkChallenge_fields)

lemma foldl_linkChallenge_c2l:
  "distinct (map c_id cs) \<Longrightarrow> c \<in> set cs \<Longrightarrow> c2l m (c_id c) = []
   \<Longrightarrow> c2l (foldl linkChallenge m cs) (c_id c) = idsOf (unlockIdToLogbook m) (c_unlocks c)"
proof (induction cs arbitrary: m)
  case Nil
  then show ?case by simp
next
  case (Cons a cs)
  show ?case
  proof (cases "c = a")
    case True
    with Cons.prems have "c_id c \<notin> c_id ` set cs" by auto
    then have "c2l (foldl linkChallenge (linkChallenge m a) cs) (c_id c) = c2l (linkChallenge m a) (c_id c)"
      by (rule foldl_linkChallenge_c2l_notin)
    with True Cons.prems show ?thesis by (simp add: linkChallenge_fields)
  next
    case False
    with Cons.prems have in_cs: "c \<in> set cs" and d: "distinct (map c_id cs)"
      by auto
    from Cons.prems(1) have "c_id a \<notin> c_id ` set cs" by simp
    with in_cs have ne: "c_id c \<noteq> c_id a" by (auto simp: image_iff)
    have "c2l (linkChallenge m a) (c_id c) = []"
      using ne Cons.prems(3) by (simp add: linkChallenge_fields)
    from Cons.IH [OF d in_cs this] show ?thesis
      by (simp add: linkChallenge_fields)
  qed
qed

subsection \<open>The graph of a well-formed catalog\<close>

lemma buildMapping_index: "unlockIdToLogbook (buildMapping cat) = entryIndex cat"
  by (simp add: buildMapping_def foldl_linkChallenge_index entryIndex_def)

lemma set_getChallengesForLogbookEntry:
  assumes "distinct (map c_id (challenges cat))"
  shows "set (getChallengesForLogbookEntry cat eid) =
     {c \<in> set (challenges cat). eid \<in> set (idsOf (entryIndex cat) (c_unlocks c))}"
proof -
  let ?m0 = "foldl indexEntry emptyMapping (logbookEntries cat)"
  have e: "l2c ?m0 eid = []"
    by (simp add: l2c_def foldl_indexEntry_frame emptyMapping_def)
  have ids: "set (l2c (buildMapping cat) eid) =
      c_id ` {c \<in> set (challenges cat). eid \<in> set (idsOf (entryIndex cat) (c_unlocks c))}"
    by (simp add: buildMapping_def foldl_linkChallenge_l2c e entryIndex_def)
  have "set (getChallengesForLogbookEntry cat eid) =
      {c. \<exists>k \<in> set (l2c (buildMapping cat) eid). challengeById cat k = Some c}"
    by (simp add: getChallengesForLogbookEntry_def set_map_filter l2c_def)
  also have "\<dots> = {c \<in> set (challenges cat). eid \<in> set (idsOf (entryIndex cat) (c_unlocks c))}"
    unfolding ids using assms
    by (auto simp: challengeById_distinct dest: challengeById_Some)
  finally show ?thesis .
qed

lemma set_getLogbookEntriesForChallenge:
  assumes "distinct (map c_id (challenges cat))" "distinct (map e_id (logbookEntries cat))"
    and "c \<in> set (challenges cat)"
  shows "set (getLogbookEntriesForChallenge cat (c_id c)) =
     {e. \<exists>u \<in> set (c_unlocks c). isMappedPrefix u \<and> entryIndex cat u = Some e}"
proof -
  let ?m0 = "foldl indexEntry emptyMapping (logbookEntries cat)"
  have e: "c2l ?m0 (c_id c) = []"
    by (simp add: c2l_def foldl_indexEntry_frame emptyMapping_def)
  have ids: "c2l (buildMapping cat) (c_id c) = idsOf (entryIndex cat) (c_unlocks c)"
    using foldl_linkChallenge_c2l [OF assms(1) assms(3) e]
    by (simp add: buildMapping_def entryIndex_def)
  have "set (getLogbookEntriesForChallenge cat (c_id c)) =
      {e. \<exists>k \<in> set (c2l (buildMapping cat) (c_id c)). logbookEntryById cat k = Some e}"
    by (simp add: getLogbookEntriesForChallenge_def set_map_filter c2l_def)
  also have "\<dots> = {e. \<exists>u \<in> set (c_unlocks c). isMappedPrefix u \<and> entryIndex cat u = Some e}"
  proof (intro set_eqI iffI; clarsimp simp: ids set_idsOf)
    fix e u le
    assume u: "u \<in> set (c_unlocks c)" "isMappedPrefix u" and ix: "entryIndex cat u = Some le"
      and by_id: "logbookEntryById cat (e_id le) = Some e"
    from entryIndex_Some [OF ix] have "le \<in> set (logbookEntries cat)" by simp
    from logbookEntryById_distinct [OF assms(2) this] by_id have "le = e" by simp
    with u ix show "\<exists>u \<in> set (c_unlocks c). isMappedPrefix u \<and> entryIndex cat u = Some e" by blast
  next
    fix e u
    assume u: "u \<in> set (c_unlocks c)" "isMappedPrefix u" and ix: "entryIndex cat u = Some e"
    from entryIndex_Some [OF ix] have "e \<in> set (logbookEntries cat)" by simp
    from logbookEntryById_distinct [OF assms(2) this] u ix
    show "\<exists>k. (\<exists>u \<in> set (c_unlocks c). isMappedPrefix u \<and> (\<exists>le. entryIndex cat u = Some le \<and> e_id le = k))
          \<and> logbookEntryById cat k = Some e" by blast
  qed
  finally show ?thesis .
qed

subsection \<open>Facts about well-formed catalogs\<close>

lemma find_distinct:
  "distinct (map f xs) \<Longrightarrow> x \<in> set xs \<Longrightarrow> find (\<lambda>y. f y = f x) xs = Some x"
  by (induction xs) (auto simp: image_iff)

lemma distinct_map_eq:
  "distinct (map f xs) \<Longrightarrow> x \<in> set xs \<Longrightarrow> y \<in> set xs \<Longrightarrow> f x = f y \<Longrightarrow> x = y"
  by (meson distinct_map inj_onD)

lemma find_achievement:
  "wellFormed cat \<Longrightarrow> c \<in> set (challenges cat)
   \<Longrightarrow> find (\<lambda>x. c_achievement x = c_achievement c) (challenges cat) = Some c"
  by (simp add: wellFormed_def find_distinct)

lemma set_pickupOf: "set (pickupOf e) = {p. e_pickupId e = Some p \<and> p \<noteq> []}"
  by (cases "e_pickupId e") (auto simp: pickupOf_def)

lemma set_pickupList: "set (pickupList es) = pickupsOf es"
  by (induction es) (auto simp: set_pickupOf pickupsOf_def)

lemma pickup_unique:
  "distinct (pickupList es) \<Longrightarrow> e \<in> set es \<Longrightarrow> e' \<in> set es
   \<Longrightarrow> e_pickupId e = Some p \<Longrightarrow> e_pickupId e' = Some p \<Longrightarrow> p \<noteq> [] \<Longrightarrow> e = e'"
proof (induction es)
  case Nil
  then show ?case by simp
next
  case (Cons a es)
  from Cons.prems(1) have d: "distinct (pickupList es)"
    and disj: "set (pickupOf a) \<inter> pickupsOf es = {}"
    by (simp_all add: set_pickupList)
  have in_tail: "p \<in> pickupsOf es" if "x \<in> set es" "e_pickupId x = Some p" for x
    using that Cons.prems(6) by (auto simp: pickupsOf_def)
  have in_head: "p \<in> set (pickupOf a)" if "e_pickupId a = Some p"
    using that Cons.prems(6) by (simp add: set_pickupOf)
  show ?case
  proof (cases "e = a")
    case ea: True
    show ?thesis
    proof (cases "e' = a")
      case True
      with ea show ?thesis by simp
    next
      case False
      with Cons.prems have "e' \<in> set es" by simp
      from in_tail [OF this Cons.prems(5)] in_head ea Cons.prems(4) disj show ?thesis by auto
    qed
  next
    case ea: False
    with Cons.prems have e: "e \<in> set es" by simp
    show ?thesis
    proof (cases "e' = a")
      case True
      from in_tail [OF e Cons.prems(4)] in_head True Cons.prems(5) disj show ?thesis by auto
    next
      case False
      with Cons.prems have "e' \<in> set es" by simp
      from Cons.IH [OF d e this Cons.prems(4,5,6)] show ?thesis .
    qed
  qed
qed

lemma linked_entry:
  assumes "wellFormed cat" "c \<in> set (challenges cat)"
    and "e \<in> set (getLogbookEntriesForChallenge cat (c_id c))"
  shows "e \<in> set (logbookEntries cat)" "e_unlockId e \<in> set (c_unlocks c)"
    "isMappedPrefix (e_unlockId e)" "entryIndex cat (e_unlockId e) = Some e"
proof -
  from assms(1) have d: "distinct (map c_id (challenges cat))" "distinct (map e_id (logbookEntries cat))"
    by (simp_all add: wellFormed_def)
  from assms(3) obtain u where u: "u \<in> set (c_unlocks c)" "isMappedPrefix u" "entryIndex cat u = Some e"
    unfolding set_getLogbookEntriesForChallenge [OF d assms(2)] by blast
  from entryIndex_Some [OF u(3)] have "e \<in> set (logbookEntries cat)" "e_unlockId e = u" by simp_all
  with u show "e \<in> set (logbookEntries cat)" "e_unlockId e \<in> set (c_unlocks c)"
    "isMappedPrefix (e_unlockId e)" "entryIndex cat (e_unlockId e) = Some e" by simp_all
qed

lemma linked_challenge:
  assumes "wellFormed cat" "c \<in> set (challenges cat)"
    and "e \<in> set (getLogbookEntriesForChallenge cat (c_id c))"
  shows "c \<in> set (getChallengesForLogbookEntry cat (e_id e))"
proof -
  note l = linked_entry [OF assms]
  have "e_id e \<in> set (idsOf (entryIndex cat) (c_unlocks c))"
    unfolding set_idsOf using l by blast
  moreover from assms(1) have "distinct (map c_id (challenges cat))" by (simp add: wellFormed_def)
  ultimately show ?thesis using assms(2)
    by (simp add: set_getChallengesForLogbookEntry)
qed

lemma provider_grants:
  assumes "wellFormed cat" "e \<in> set (logbookEntries cat)"
    and "c \<in> set (getChallengesForLogbookEntry cat (e_id e))"
  shows "c \<in> set (challenges cat)" "e_unlockId e \<in> set (c_unlocks c)"
proof -
  from assms(1) have d: "distinct (map c_id (challenges cat))" by (simp add: wellFormed_def)
  from assms(3) have c: "c \<in> set (challenges cat)"
    and "e_id e \<in> set (idsOf (entryIndex cat) (c_unlocks c))"
    unfolding set_getChallengesForLogbookEntry [OF d] by simp_all
  then obtain u le where u: "u \<in> set (c_unlocks c)" "entryIndex cat u = Some le" "e_id le = e_id e"
    unfolding set_idsOf by blast
  from entryIndex_Some [OF u(2)] have le: "le \<in> set (logbookEntries cat)" "e_unlockId le = u" by simp_all
  from assms(1) have "distinct (map e_id (logbookEntries cat))" by (simp add: wellFormed_def)
  from distinct_map_eq [OF this le(1) assms(2) u(3)] have "le = e" .
  with le u c show "c \<in> set (challenges cat)" "e_unlockId e \<in> set (c_unlocks c)" by simp_all
qed

lemma linked_same_unlockId:
  assumes "wellFormed cat" "c \<in> set (challenges cat)" "c' \<in> set (challenges cat)"
    and "e \<in> set (getLogbookEntriesForChallenge cat (c_id c))"
    and "e' \<in> set (getLogbookEntriesForChallenge cat (c_id c'))"
    and "e_unlockId e = e_unlockId e'"
  shows "e = e'"
proof -
  have "entryIndex cat (e_unlockId e') = Some e"
    using linked_entry(4) [OF assms(1,2,4)] unfolding assms(6) .
  moreover have "entryIndex cat (e_unlockId e') = Some e'"
    by (rule linked_entry(4) [OF assms(1,3,5)])
  ultimately show ?thesis by (metis option.inject)
qed

subsection \<open>What toggleAchievement does to the six collections\<close>

lemma provided_iff:
  "isLogbookEntryProvidedByOtherChallenge cat e a held \<longleftrightarrow>
     (\<exists>c \<in> set (getChallengesForLogbookEntry cat (e_id e)). c_achievement c \<noteq> a \<and> c_achievement c \<in> set held)"
  by (simp add: isLogbookEntryProvidedByOtherChallenge_def list_ex_iff)

lemma provided_after_delete:
  "isLogbookEntryProvidedByOtherChallenge cat e a (setDelete (achievements (copySets s)) a) =
   isLogbookEntryProvidedByOtherChallenge cat e a (achievements s)"
  by (auto simp: provided_iff set_setDelete copySets_fields)

lemma set_unprovided:
  "set (unprovided cat held a es) =
     {e \<in> set es. \<not> isLogbookEntryProvidedByOtherChallenge cat e a held}"
  by (auto simp: unprovided_def)

lemma toggleAchievement_enable:
  assumes "find (\<lambda>c. c_achievement c = a) (challenges cat) = Some c"
  shows "set (achievements (toggleAchievement cat s a True)) = insert a (set (achievements s))"
    "set (unviewedAchievements (toggleAchievement cat s a True)) = insert a (set (unviewedAchievements s))"
    "set (viewedUnlockables (toggleAchievement cat s a True)) = set (viewedUnlockables s) \<union> set (c_unlocks c)"
    "set (unlocks (toggleAchievement cat s a True)) =
       set (unlocks s) \<union> set (c_unlocks c) \<union> e_unlockId ` set (getLogbookEntriesForChallenge cat (c_id c))"
    "set (viewedViewables (toggleAchievement cat s a True)) =
       set (viewedViewables s) \<union> e_unlockId ` set (getLogbookEntriesForChallenge cat (c_id c))"
    "set (discoveredPickups (toggleAchievement cat s a True)) =
       set (discoveredPickups s) \<union> pickupsOf (getLogbookEntriesForChallenge cat (c_id c))"
  by (simp_all add: toggleAchievement_def Let_def assms foldl_addEntryMarkers foldl_grantUnlock
        copySets_fields set_setAdd)

lemma toggleAchievement_disable:
  assumes "find (\<lambda>c. c_achievement c = a) (challenges cat) = Some c"
  shows "set (achievements (toggleAchievement cat s a False)) = set (achievements s) - {a}"
    "set (unviewedAchievements (toggleAchievement cat s a False)) = set (unviewedAchievements s) - {a}"
    "set (viewedUnlockables (toggleAchievement cat s a False)) = set (viewedUnlockables s) - set (c_unlocks c)"
    "set (unlocks (toggleAchievement cat s a False)) =
       set (unlocks s) - set (c_unlocks c)
       - e_unlockId ` set (unprovided cat (achievements s) a (getLogbookEntriesForChallenge cat (c_id c)))"
    "set (viewedViewables (toggleAchievement cat s a False)) =
       set (viewedViewables s)
       - e_unlockId ` set (unprovided cat (achievements s) a (getLogbookEntriesForChallenge cat (c_id c)))"
    "set (discoveredPickups (toggleAchievement cat s a False)) =
       set (discoveredPickups s)
       - pickupsOf (unprovided cat (achievements s) a (getLogbookEntriesForChallenge cat (c_id c)))"
  by (simp_all add: toggleAchievement_def Let_def assms foldl_removeUnlessProvided_eq
        foldl_removeUnlessProvided_frame foldl_removeEntryMarkers foldl_revokeUnlock
        copySets_fields set_setDelete provided_after_delete unprovided_def)

lemma toggleAchievement_unknown_sets:
  assumes "find (\<lambda>c. c_achievement c = a) (challenges cat) = None"
  shows "set (achievements (toggleAchievement cat s a en)) =
       (if en then insert a (set (achievements s)) else set (achievements s) - {a})"
    "set (unviewedAchievements (toggleAchievement cat s a en)) =
       (if en then insert a (set (unviewedAchievements s)) else set (unviewedAchievements s) - {a})"
    "set (viewedUnlockables (toggleAchievement cat s a en)) = set (viewedUnlockables s)"
    "set (unlocks (toggleAchievement cat s a en)) = set (unlocks s)"
    "set (viewedViewables (toggleAchievement cat s a en)) = set (viewedViewables s)"
    "set (discoveredPickups (toggleAchievement cat s a en)) = set (discoveredPickups s)"
  by (simp_all add: toggleAchievement_def Let_def assms copySets_fields set_setAdd set_setDelete)

section \<open>The example catalog, evaluated\<close>

lemmas ex_defs = exCatalog_def exChallengeA_def exChallengeB_def exChallengeC_def
  exFirework_def exMedkit_def exMeteor_def exChirp_def exGolemplains_def

lemma ex_index:
  "entryIndex exCatalog = [''Items.Firework'' \<mapsto> exFirework, ''Items.Medkit'' \<mapsto> exMedkit,
     ''Equipment.Meteor'' \<mapsto> exMeteor]"
  by (simp add: entryIndex_def exCatalog_def indexEntry_def emptyMapping_def exFirework_def
        exMedkit_def exMeteor_def exChirp_def exGolemplains_def)

lemma ex_wellFormed: "wellFormed exCatalog"
  by (simp add: wellFormed_def ex_defs pickupOf_def)

lemma ex_entries:
  "getLogbookEntriesForChallenge exCatalog ''maybe-one-more'' = [exFirework]"
  "getLogbookEntriesForChallenge exCatalog ''second-provider'' = [exFirework]"
  "getLogbookEntriesForChallenge exCatalog ''elite-slayer'' = [exMedkit, exMeteor]"
  by (simp_all add: getLogbookEntriesForChallenge_def buildMapping_def linkChallenge_def
        linkUnlock_def indexEntry_def emptyMapping_def isMappedPrefix_def startsWith_def
        logbookEntryById_def List.map_filter_simps ex_defs)

lemma ex_challenges:
  "getChallengesForLogbookEntry exCatalog ''firework'' = [exChallengeA, exChallengeB]"
  "getChallengesForLogbookEntry exCatalog ''medkit'' = [exChallengeC]"
  "getChallengesForLogbookEntry exCatalog ''meteor'' = [exChallengeC]"
  "getChallengesForLogbookEntry exCatalog ''chirp'' = []"
  "getChallengesForLogbookEntry exCatalog ''golemplains'' = []"
  by (simp_all add: getChallengesForLogbookEntry_def buildMapping_def linkChallenge_def
        linkUnlock_def indexEntry_def emptyMapping_def isMappedPrefix_def startsWith_def
        challengeById_def List.map_filter_simps ex_defs)

lemma ex_find:
  "find (\<lambda>c. c_achievement c = ''RepeatedlyDuplicateItems'') (challenges exCatalog) = Some exChallengeA"
  "find (\<lambda>c. c_achievement c = ''SecondProvider'') (challenges exCatalog) = Some exChallengeB"
  "find (\<lambda>c. c_achievement c = ''KillEliteMonster'') (challenges exCatalog) = Some exChallengeC"
  by (simp_all add: exCatalog_def exChallengeA_def exChallengeB_def exChallengeC_def)

lemma ex_ids:
  "c_id exChallengeA = ''maybe-one-more''" "c_achievement exChallengeA = ''RepeatedlyDuplicateItems''"
  "c_unlocks exChallengeA = [''Items.Firework'']"
  "c_id exChallengeB = ''second-provider''" "c_achievement exChallengeB = ''SecondProvider''"
  "c_unlocks exChallengeB = [''Items.Firework'']"
  "c_id exChallengeC = ''elite-slayer''" "c_achievement exChallengeC = ''KillEliteMonster''"
  "c_unlocks exChallengeC = [''Items.Medkit'', ''Equipment.Meteor'']"
  "e_id exFirework = ''firework''" "e_unlockId exFirework = ''Items.Firework''"
  "e_pickupId exFirework = Some ''ItemIndex.Firework''"
  "e_id exMedkit = ''medkit''" "e_unlockId exMedkit = ''Items.Medkit''"
  "e_pickupId exMedkit = Some ''ItemIndex.Medkit''"
  "e_id exMeteor = ''meteor''" "e_unlockId exMeteor = ''Equipment.Meteor''"
  "e_pickupId exMeteor = Some ''EquipmentIndex.Meteor''"
  by (simp_all add: exChallengeA_def exChallengeB_def exChallengeC_def exFirework_def exMedkit_def
        exMeteor_def)

lemma find_unknown:
  "a \<notin> c_achievement ` set (challenges cat) \<Longrightarrow> find (\<lambda>c. c_achievement c = a) (challenges cat) = None"
  by (auto simp: find_None_iff)

section \<open>Stat projection and the bulk unlock loops\<close>

subsection \<open>Stat projection\<close>

lemma foldl_enableStage_unlocks:
  "set (fst (foldl enableStage (u, st) stages)) = set u \<union> (\<lambda>stage. ''Logs.Stages.'' @ stage) ` set stages"
  by (induction stages arbitrary: u st) (auto simp: enableStage_def set_setAdd)

lemma foldl_disableStage_unlocks:
  "set (fst (foldl disableStage (u, st) stages)) = set u - (\<lambda>stage. ''Logs.Stages.'' @ stage) ` set stages"
  by (induction stages arbitrary: u st) (auto simp: disableStage_def set_setDelete)

lemma updateLogbookStats_enable_unlocks:
  "set u \<subseteq> set (fst (updateLogbookStats entry True u st))"
  by (auto simp: updateLogbookStats_def Let_def foldl_enableStage_unlocks set_setAdd
        split: prod.splits)

lemma updateLogbookStats_disable_unlocks:
  "set (fst (updateLogbookStats entry False u st)) \<subseteq> set u"
  by (auto simp: updateLogbookStats_def Let_def foldl_disableStage_unlocks set_setDelete
        split: prod.splits)

lemma applyLogbookStats_frame:
  "achievements (applyLogbookStats entry en w) = achievements w"
  "unviewedAchievements (applyLogbookStats entry en w) = unviewedAchievements w"
  "viewedUnlockables (applyLogbookStats entry en w) = viewedUnlockables w"
  "viewedViewables (applyLogbookStats entry en w) = viewedViewables w"
  "discoveredPickups (applyLogbookStats entry en w) = discoveredPickups w"
  "name (applyLogbookStats entry en w) = name w"
  "coins (applyLogbookStats entry en w) = coins w"
  by (simp_all add: applyLogbookStats_def split: prod.splits)

lemma applyLogbookStats_unlocks:
  "set (unlocks w) \<subseteq> set (unlocks (applyLogbookStats entry True w))"
  "set (unlocks (applyLogbookStats entry False w)) \<subseteq> set (unlocks w)"
  using updateLogbookStats_enable_unlocks [of "unlocks w" entry "stats w"]
    updateLogbookStats_disable_unlocks [of entry "unlocks w" "stats w"]
  by (auto simp: applyLogbookStats_def split: prod.splits)

lemma foldl_addAlias:
  "achievements (foldl addAlias w as) = achievements w"
  "unviewedAchievements (foldl addAlias w as) = unviewedAchievements w"
  "viewedUnlockables (foldl addAlias w as) = viewedUnlockables w"
  "unlocks (foldl addAlias w as) = unlocks w"
  "set (viewedViewables (foldl addAlias w as)) = set (viewedViewables w) \<union> set as"
  "discoveredPickups (foldl addAlias w as) = discoveredPickups w"
  "stats (foldl addAlias w as) = stats w"
  by (induction as arbitrary: w) (auto simp: addAlias_def set_setAdd)

lemma foldl_removeAlias:
  "achievements (foldl removeAlias w as) = achievements w"
  "unviewedAchievements (foldl removeAlias w as) = unviewedAchievements w"
  "viewedUnlockables (foldl removeAlias w as) = viewedUnlockables w"
  "unlocks (foldl removeAlias w as) = unlocks w"
  "set (viewedViewables (foldl removeAlias w as)) = set (viewedViewables w) - set as"
  "discoveredPickups (foldl removeAlias w as) = discoveredPickups w"
  "stats (foldl removeAlias w as) = stats w"
  by (induction as arbitrary: w) (auto simp: removeAlias_def set_setDelete)

subsection \<open>Bulk unlock\<close>

lemma unskipped_Nil: "unskipped f [] = {}"
  by (simp add: unskipped_def)


lemma unlockChallenge_sets:
  "set (achievements (unlockChallenge cat f w c)) =
     set (achievements w) \<union> c_achievement ` unskipped f [c]"
  "unviewedAchievements (unlockChallenge cat f w c) = unviewedAchievements w"
  "set (viewedUnlockables (unlockChallenge cat f w c)) =
     set (viewedUnlockables w) \<union> (\<Union>x \<in> unskipped f [c]. set (c_unlocks x))"
  "set (unlocks (unlockChallenge cat f w c)) =
     set (unlocks w) \<union> (\<Union>x \<in> unskipped f [c].
        set (c_unlocks x) \<union> e_unlockId ` set (getLogbookEntriesForChallenge cat (c_id x)))"
  "set (viewedViewables (unlockChallenge cat f w c)) =
     set (viewedViewables w) \<union> (\<Union>x \<in> unskipped f [c].
        e_unlockId ` set (getLogbookEntriesForChallenge cat (c_id x)))"
  "set (discoveredPickups (unlockChallenge cat f w c)) =
     set (discoveredPickups w) \<union> (\<Union>x \<in> unskipped f [c].
        pickupsOf (getLogbookEntriesForChallenge cat (c_id x)))"
  "stats (unlockChallenge cat f w c) = stats w"
  by (auto simp: unlockChallenge_def unskipped_def foldl_addEntryMarkers foldl_grantUnlock set_setAdd)

lemma foldl_unlockChallenge:
  "set (achievements (foldl (unlockChallenge cat f) w cs)) =
     set (achievements w) \<union> c_achievement ` unskipped f cs"
  "unviewedAchievements (foldl (unlockChallenge cat f) w cs) = unviewedAchievements w"
  "set (viewedUnlockables (foldl (unlockChallenge cat f) w cs)) =
     set (viewedUnlockables w) \<union> (\<Union>x \<in> unskipped f cs. set (c_unlocks x))"
  "set (unlocks (foldl (unlockChallenge cat f) w cs)) =
     set (unlocks w) \<union> (\<Union>x \<in> unskipped f cs.
        set (c_unlocks x) \<union> e_unlockId ` set (getLogbookEntriesForChallenge cat (c_id x)))"
  "set (viewedViewables (foldl (unlockChallenge cat f) w cs)) =
     set (viewedViewables w) \<union> (\<Union>x \<in> unskipped f cs.
        e_unlockId ` set (getLogbookEntriesForChallenge cat (c_id x)))"
  "set (discoveredPickups (foldl (unlockChallenge cat f) w cs)) =
     set (discoveredPickups w) \<union> (\<Union>x \<in> unskipped f cs.
        pickupsOf (getLogbookEntriesForChallenge cat (c_id x)))"
  "stats (foldl (unlockChallenge cat f) w cs) = stats w"
proof (induction cs arbitrary: w)
  case Nil
  {
    case 1 show ?case by (simp add: unskipped_Nil)
  next
    case 2 show ?case by simp
  next
    case 3 show ?case by (simp add: unskipped_Nil)
  next
    case 4 show ?case by (simp add: unskipped_Nil)
  next
    case 5 show ?case by (simp add: unskipped_Nil)
  next
    case 6 show ?case by (simp add: unskipped_Nil)
  next
    case 7 show ?case by simp
  }
next
  case (Cons c cs)
  have u: "unskipped f (c # cs) = unskipped f [c] \<union> unskipped f cs"
    by (auto simp: unskipped_def)
  {
    case 1 show ?case unfolding u by (simp add: Cons.IH unlockChallenge_sets image_Un Un_assoc)
  next
    case 2 show ?case by (simp add: Cons.IH unlockChallenge_sets)
  next
    case 3 show ?case unfolding u by (simp add: Cons.IH unlockChallenge_sets Un_assoc)
  next
    case 4 show ?case unfolding u by (simp add: Cons.IH unlockChallenge_sets Un_assoc)
  next
    case 5 show ?case unfolding u by (simp add: Cons.IH unlockChallenge_sets Un_assoc)
  next
    case 6 show ?case unfolding u by (simp add: Cons.IH unlockChallenge_sets Un_assoc)
  next
    case 7 show ?case by (simp add: Cons.IH unlockChallenge_sets)
  }
qed


lemma syncChallenge_sets:
  "set (achievements (syncChallenge f w c)) = set (achievements w) \<union> c_achievement ` unskipped f [c]"
  "unviewedAchievements (syncChallenge f w c) = unviewedAchievements w"
  "set (viewedUnlockables (syncChallenge f w c)) =
     set (viewedUnlockables w) \<union> (\<Union>x \<in> unskipped f [c]. set (c_unlocks x))"
  "set (unlocks (syncChallenge f w c)) = set (unlocks w) \<union> (\<Union>x \<in> unskipped f [c]. set (c_unlocks x))"
  "viewedViewables (syncChallenge f w c) = viewedViewables w"
  "discoveredPickups (syncChallenge f w c) = discoveredPickups w"
  "stats (syncChallenge f w c) = stats w"
  by (auto simp: syncChallenge_def unskipped_def foldl_grantUnlock set_setAdd)

lemma foldl_syncChallenge:
  "set (achievements (foldl (syncChallenge f) w cs)) = set (achievements w) \<union> c_achievement ` unskipped f cs"
  "unviewedAchievements (foldl (syncChallenge f) w cs) = unviewedAchievements w"
  "set (viewedUnlockables (foldl (syncChallenge f) w cs)) =
     set (viewedUnlockables w) \<union> (\<Union>x \<in> unskipped f cs. set (c_unlocks x))"
  "set (unlocks (foldl (syncChallenge f) w cs)) = set (unlocks w) \<union> (\<Union>x \<in> unskipped f cs. set (c_unlocks x))"
  "viewedViewables (foldl (syncChallenge f) w cs) = viewedViewables w"
  "discoveredPickups (foldl (syncChallenge f) w cs) = discoveredPickups w"
  "stats (foldl (syncChallenge f) w cs) = stats w"
proof (induction cs arbitrary: w)
  case Nil
  {
    case 1 show ?case by (simp add: unskipped_Nil)
  next
    case 2 show ?case by simp
  next
    case 3 show ?case by (simp add: unskipped_Nil)
  next
    case 4 show ?case by (simp add: unskipped_Nil)
  next
    case 5 show ?case by simp
  next
    case 6 show ?case by simp
  next
    case 7 show ?case by simp
  }
next
  case (Cons c cs)
  have u: "unskipped f (c # cs) = unskipped f [c] \<union> unskipped f cs"
    by (auto simp: unskipped_def)
  {
    case 1 show ?case unfolding u by (simp add: Cons.IH syncChallenge_sets image_Un Un_assoc)
  next
    case 2 show ?case by (simp add: Cons.IH syncChallenge_sets)
  next
    case 3 show ?case unfolding u by (simp add: Cons.IH syncChallenge_sets Un_assoc)
  next
    case 4 show ?case unfolding u by (simp add: Cons.IH syncChallenge_sets Un_assoc)
  next
    case 5 show ?case by (simp add: Cons.IH syncChallenge_sets)
  next
    case 6 show ?case by (simp add: Cons.IH syncChallenge_sets)
  next
    case 7 show ?case by (simp add: Cons.IH syncChallenge_sets)
  }
qed

lemma addEntryMarkers_sets:
  "achievements (addEntryMarkers w e) = achievements w"
  "unviewedAchievements (addEntryMarkers w e) = unviewedAchievements w"
  "viewedUnlockables (addEntryMarkers w e) = viewedUnlockables w"
  "set (unlocks (addEntryMarkers w e)) = insert (e_unlockId e) (set (unlocks w))"
  "set (viewedViewables (addEntryMarkers w e)) = insert (e_unlockId e) (set (viewedViewables w))"
  "set (discoveredPickups (addEntryMarkers w e)) = set (discoveredPickups w) \<union> pickupsOf [e]"
  "stats (addEntryMarkers w e) = stats w"
  using foldl_addEntryMarkers [of w "[e]"] by simp_all

lemma unlockEntry_skipped:
  "dlcSkipped f (e_dlc e) \<Longrightarrow> unlockEntry cat f w e = w"
  by (simp add: unlockEntry_def)

lemma unlockEntry_sets:
  assumes "\<not> dlcSkipped f (e_dlc e)"
  shows "set (achievements (unlockEntry cat f w e)) =
       set (achievements w) \<union> c_achievement ` unskipped f (getChallengesForLogbookEntry cat (e_id e))"
    "unviewedAchievements (unlockEntry cat f w e) = unviewedAchievements w"
    "set (viewedUnlockables (unlockEntry cat f w e)) =
       set (viewedUnlockables w)
       \<union> (\<Union>x \<in> unskipped f (getChallengesForLogbookEntry cat (e_id e)). set (c_unlocks x))"
    "insert (e_unlockId e) (set (unlocks w)) \<subseteq> set (unlocks (unlockEntry cat f w e))"
    "set (viewedViewables (unlockEntry cat f w e)) =
       insert (e_unlockId e) (set (viewedViewables w)) \<union> set (getLogbookAliases (e_unlockId e))"
    "set (discoveredPickups (unlockEntry cat f w e)) = set (discoveredPickups w) \<union> pickupsOf [e]"
proof -
  let ?w3 = "foldl addAlias (foldl (syncChallenge f) (addEntryMarkers w e)
                (getChallengesForLogbookEntry cat (e_id e))) (getLogbookAliases (e_unlockId e))"
  have eq: "unlockEntry cat f w e = applyLogbookStats e True ?w3"
    using assms by (simp add: unlockEntry_def Let_def)
  show "set (achievements (unlockEntry cat f w e)) =
       set (achievements w) \<union> c_achievement ` unskipped f (getChallengesForLogbookEntry cat (e_id e))"
    by (simp add: eq applyLogbookStats_frame foldl_addAlias foldl_syncChallenge addEntryMarkers_sets)
  show "unviewedAchievements (unlockEntry cat f w e) = unviewedAchievements w"
    by (simp add: eq applyLogbookStats_frame foldl_addAlias foldl_syncChallenge addEntryMarkers_sets)
  show "set (viewedUnlockables (unlockEntry cat f w e)) =
       set (viewedUnlockables w)
       \<union> (\<Union>x \<in> unskipped f (getChallengesForLogbookEntry cat (e_id e)). set (c_unlocks x))"
    by (simp add: eq applyLogbookStats_frame foldl_addAlias foldl_syncChallenge addEntryMarkers_sets)
  show "set (viewedViewables (unlockEntry cat f w e)) =
       insert (e_unlockId e) (set (viewedViewables w)) \<union> set (getLogbookAliases (e_unlockId e))"
    by (simp add: eq applyLogbookStats_frame foldl_addAlias foldl_syncChallenge addEntryMarkers_sets)
  show "set (discoveredPickups (unlockEntry cat f w e)) = set (discoveredPickups w) \<union> pickupsOf [e]"
    by (simp add: eq applyLogbookStats_frame foldl_addAlias foldl_syncChallenge addEntryMarkers_sets)
  have "insert (e_unlockId e) (set (unlocks w)) \<subseteq> set (unlocks ?w3)"
    by (auto simp: foldl_addAlias foldl_syncChallenge addEntryMarkers_sets)
  also have "\<dots> \<subseteq> set (unlocks (applyLogbookStats e True ?w3))"
    by (rule applyLogbookStats_unlocks)
  finally show "insert (e_unlockId e) (set (unlocks w)) \<subseteq> set (unlocks (unlockEntry cat f w e))"
    by (simp add: eq)
qed

lemma unlockEntry_step_achievements:
  "set (achievements (unlockEntry cat f w e)) =
     set (achievements w)
     \<union> c_achievement ` (\<Union>x \<in> set (unskippedEntries f [e]). unskipped f (getChallengesForLogbookEntry cat (e_id x)))"
proof (cases "dlcSkipped f (e_dlc e)")
  case True
  then show ?thesis
    by (simp add: unlockEntry_skipped unskippedEntries_def pickupsOf_Nil)
next
  case False
  have u: "unskippedEntries f [e] = [e]" using False by (simp add: unskippedEntries_def)
  note s = unlockEntry_sets [OF False, where cat = cat and w = w]
  show ?thesis unfolding u by (simp add: s(1))
qed

lemma unlockEntry_step_viewedUnlockables:
  "set (viewedUnlockables (unlockEntry cat f w e)) =
     set (viewedUnlockables w)
     \<union> (\<Union>y \<in> set (unskippedEntries f [e]).
          \<Union>x \<in> unskipped f (getChallengesForLogbookEntry cat (e_id y)). set (c_unlocks x))"
proof (cases "dlcSkipped f (e_dlc e)")
  case True
  then show ?thesis
    by (simp add: unlockEntry_skipped unskippedEntries_def pickupsOf_Nil)
next
  case False
  have u: "unskippedEntries f [e] = [e]" using False by (simp add: unskippedEntries_def)
  note s = unlockEntry_sets [OF False, where cat = cat and w = w]
  show ?thesis unfolding u by (simp add: s(3))
qed

lemma unlockEntry_step_unlocks:
  "set (unlocks w) \<union> e_unlockId ` set (unskippedEntries f [e]) \<subseteq> set (unlocks (unlockEntry cat f w e))"
proof (cases "dlcSkipped f (e_dlc e)")
  case True
  then show ?thesis
    by (simp add: unlockEntry_skipped unskippedEntries_def pickupsOf_Nil)
next
  case False
  have u: "unskippedEntries f [e] = [e]" using False by (simp add: unskippedEntries_def)
  note s = unlockEntry_sets [OF False, where cat = cat and w = w]
  show ?thesis unfolding u using s(4) by simp
qed

lemma unlockEntry_step_viewedViewables:
  "set (viewedViewables w) \<union> e_unlockId ` set (unskippedEntries f [e])
     \<subseteq> set (viewedViewables (unlockEntry cat f w e))"
proof (cases "dlcSkipped f (e_dlc e)")
  case True
  then show ?thesis
    by (simp add: unlockEntry_skipped unskippedEntries_def pickupsOf_Nil)
next
  case False
  have u: "unskippedEntries f [e] = [e]" using False by (simp add: unskippedEntries_def)
  note s = unlockEntry_sets [OF False, where cat = cat and w = w]
  show ?thesis unfolding u by (auto simp: s(5))
qed

lemma unlockEntry_step_discoveredPickups:
  "set (discoveredPickups w) \<union> pickupsOf (unskippedEntries f [e])
     \<subseteq> set (discoveredPickups (unlockEntry cat f w e))"
proof (cases "dlcSkipped f (e_dlc e)")
  case True
  then show ?thesis
    by (simp add: unlockEntry_skipped unskippedEntries_def pickupsOf_Nil)
next
  case False
  have u: "unskippedEntries f [e] = [e]" using False by (simp add: unskippedEntries_def)
  note s = unlockEntry_sets [OF False, where cat = cat and w = w]
  show ?thesis unfolding u by (simp add: s(6))
qed

lemma pickupsOf_append: "pickupsOf (xs @ ys) = pickupsOf xs \<union> pickupsOf ys"
  by (auto simp: pickupsOf_def)

lemma unskippedEntries_Cons:
  "unskippedEntries f (e # es) = unskippedEntries f [e] @ unskippedEntries f es"
  by (simp add: unskippedEntries_def)

lemma foldl_unlockEntry_achievements:
  "set (achievements (foldl (unlockEntry cat f) w es)) =
     set (achievements w)
     \<union> c_achievement ` (\<Union>e \<in> set (unskippedEntries f es). unskipped f (getChallengesForLogbookEntry cat (e_id e)))"
proof (induction es arbitrary: w)
  case Nil
  show ?case by (simp add: unskippedEntries_def)
next
  case (Cons e es)
  show ?case
    unfolding unskippedEntries_Cons [of f e es] foldl_Cons Cons.IH unlockEntry_step_achievements
    by (simp add: image_Un Un_assoc)
qed

lemma foldl_unlockEntry_viewedUnlockables:
  "set (viewedUnlockables (foldl (unlockEntry cat f) w es)) =
     set (viewedUnlockables w)
     \<union> (\<Union>e \<in> set (unskippedEntries f es).
          \<Union>x \<in> unskipped f (getChallengesForLogbookEntry cat (e_id e)). set (c_unlocks x))"
proof (induction es arbitrary: w)
  case Nil
  show ?case by (simp add: unskippedEntries_def)
next
  case (Cons e es)
  show ?case
    unfolding unskippedEntries_Cons [of f e es] foldl_Cons Cons.IH unlockEntry_step_viewedUnlockables
    by (simp add: Un_assoc)
qed

lemma foldl_unlockEntry_unlocks:
  "set (unlocks w) \<union> e_unlockId ` set (unskippedEntries f es) \<subseteq> set (unlocks (foldl (unlockEntry cat f) w es))"
proof (induction es arbitrary: w)
  case Nil
  show ?case by (simp add: unskippedEntries_def)
next
  case (Cons e es)
  have "set (unlocks w) \<union> e_unlockId ` set (unskippedEntries f [e])
      \<subseteq> set (unlocks (unlockEntry cat f w e))" by (rule unlockEntry_step_unlocks)
  moreover have "set (unlocks (unlockEntry cat f w e)) \<union> e_unlockId ` set (unskippedEntries f es)
      \<subseteq> set (unlocks (foldl (unlockEntry cat f) (unlockEntry cat f w e) es))" by (rule Cons.IH)
  ultimately show ?case
    unfolding unskippedEntries_Cons [of f e es] foldl_Cons set_append image_Un by blast
qed

lemma foldl_unlockEntry_viewedViewables:
  "set (viewedViewables w) \<union> e_unlockId ` set (unskippedEntries f es)
     \<subseteq> set (viewedViewables (foldl (unlockEntry cat f) w es))"
proof (induction es arbitrary: w)
  case Nil
  show ?case by (simp add: unskippedEntries_def)
next
  case (Cons e es)
  have "set (viewedViewables w) \<union> e_unlockId ` set (unskippedEntries f [e])
      \<subseteq> set (viewedViewables (unlockEntry cat f w e))" by (rule unlockEntry_step_viewedViewables)
  moreover have "set (viewedViewables (unlockEntry cat f w e)) \<union> e_unlockId ` set (unskippedEntries f es)
      \<subseteq> set (viewedViewables (foldl (unlockEntry cat f) (unlockEntry cat f w e) es))" by (rule Cons.IH)
  ultimately show ?case
    unfolding unskippedEntries_Cons [of f e es] foldl_Cons set_append image_Un by blast
qed

lemma foldl_unlockEntry_discoveredPickups:
  "set (discoveredPickups w) \<union> pickupsOf (unskippedEntries f es)
     \<subseteq> set (discoveredPickups (foldl (unlockEntry cat f) w es))"
proof (induction es arbitrary: w)
  case Nil
  show ?case by (simp add: unskippedEntries_def pickupsOf_Nil)
next
  case (Cons e es)
  have "set (discoveredPickups w) \<union> pickupsOf (unskippedEntries f [e])
      \<subseteq> set (discoveredPickups (unlockEntry cat f w e))" by (rule unlockEntry_step_discoveredPickups)
  moreover have "set (discoveredPickups (unlockEntry cat f w e)) \<union> pickupsOf (unskippedEntries f es)
      \<subseteq> set (discoveredPickups (foldl (unlockEntry cat f) (unlockEntry cat f w e) es))" by (rule Cons.IH)
  ultimately show ?case
    unfolding unskippedEntries_Cons [of f e es] foldl_Cons pickupsOf_append by blast
qed


lemma unskipped_mono: "set cs \<subseteq> set ds \<Longrightarrow> unskipped f cs \<subseteq> unskipped f ds"
  by (auto simp: unskipped_def)

lemma unlockAllLogbook_sets:
  "set (achievements (unlockAllLogbook cat s f)) =
     set (achievements s)
     \<union> c_achievement ` (\<Union>e \<in> set (unskippedEntries f (logbookEntries cat)).
          unskipped f (getChallengesForLogbookEntry cat (e_id e)))"
  "unviewedAchievements (unlockAllLogbook cat s f) = []"
  "set (viewedUnlockables (unlockAllLogbook cat s f)) =
     set (viewedUnlockables s)
     \<union> (\<Union>e \<in> set (unskippedEntries f (logbookEntries cat)).
          \<Union>x \<in> unskipped f (getChallengesForLogbookEntry cat (e_id e)). set (c_unlocks x))"
  by (simp_all add: unlockAllLogbook_def foldl_unlockEntry_achievements
        foldl_unlockEntry_viewedUnlockables copySets_fields)

lemma unlockAllLogbook_grows:
  "set (unlocks s) \<union> e_unlockId ` set (unskippedEntries f (logbookEntries cat))
     \<subseteq> set (unlocks (unlockAllLogbook cat s f))"
  "set (viewedViewables s) \<union> e_unlockId ` set (unskippedEntries f (logbookEntries cat))
     \<subseteq> set (viewedViewables (unlockAllLogbook cat s f))"
  "set (discoveredPickups s) \<union> pickupsOf (unskippedEntries f (logbookEntries cat))
     \<subseteq> set (discoveredPickups (unlockAllLogbook cat s f))"
  using foldl_unlockEntry_unlocks [where w = "copySets s" and f = f and es = "logbookEntries cat" and cat = cat]
    foldl_unlockEntry_viewedViewables [where w = "copySets s" and f = f and es = "logbookEntries cat" and cat = cat]
    foldl_unlockEntry_discoveredPickups [where w = "copySets s" and f = f and es = "logbookEntries cat" and cat = cat]
  by (simp_all add: unlockAllLogbook_def copySets_fields)


lemma unskipped_None: "unskipped None cs = set cs"
  by (simp add: unskipped_def dlcSkipped_def)

lemma unskippedEntries_None: "unskippedEntries None es = es"
  by (simp add: unskippedEntries_def dlcSkipped_def)

lemma unlockAll_eq:
  "unlockAll cat s f =
     unlockAllLogbook cat ((foldl (unlockChallenge cat f) (copySets s) (challenges cat))
                             \<lparr>unviewedAchievements := []\<rparr>) f"
  by (simp add: unlockAll_def Let_def)







section \<open>The disable branch of \<^verbatim>\<open>toggleLogbookEntry\<close>\<close>

lemma shouldDisable_iff:
  "shouldDisableChallengeForEntry cat c E vv \<longleftrightarrow>
     (length (getLogbookEntriesForChallenge cat (c_id c)) = 1
      \<or> (\<forall>e \<in> set (getLogbookEntriesForChallenge cat (c_id c)).
            e_id e \<noteq> e_id E \<longrightarrow> e_unlockId e \<notin> set vv))"
  by (auto simp: shouldDisableChallengeForEntry_def Let_def list_ex_iff)

lemma shouldDisable_copySets:
  "shouldDisableChallengeForEntry cat c E (viewedViewables (copySets s)) =
   shouldDisableChallengeForEntry cat c E (viewedViewables s)"
  by (simp add: shouldDisable_iff copySets_fields)

lemma disableChallenge_sets:
  "set (achievements (disableChallenge cat w c)) = set (achievements w) - {c_achievement c}"
  "set (unviewedAchievements (disableChallenge cat w c)) = set (unviewedAchievements w) - {c_achievement c}"
  "set (viewedUnlockables (disableChallenge cat w c)) = set (viewedUnlockables w) - set (c_unlocks c)"
  "set (unlocks (disableChallenge cat w c)) =
     set (unlocks w) - set (c_unlocks c) - e_unlockId ` set (getLogbookEntriesForChallenge cat (c_id c))"
  "set (viewedViewables (disableChallenge cat w c)) =
     set (viewedViewables w) - e_unlockId ` set (getLogbookEntriesForChallenge cat (c_id c))"
  "set (discoveredPickups (disableChallenge cat w c)) =
     set (discoveredPickups w) - pickupsOf (getLogbookEntriesForChallenge cat (c_id c))"
  "stats (disableChallenge cat w c) = stats w"
  by (simp_all add: disableChallenge_def foldl_removeEntryMarkers foldl_revokeUnlock set_setDelete)

lemma foldl_disableChallenge_achievements:
  "set (achievements (foldl (disableChallenge cat) w cs)) = set (achievements w) - c_achievement ` set cs"
  by (induction cs arbitrary: w) (auto simp: disableChallenge_sets)

lemma foldl_disableChallenge_unviewed:
  "set (unviewedAchievements (foldl (disableChallenge cat) w cs)) =
     set (unviewedAchievements w) - c_achievement ` set cs"
  by (induction cs arbitrary: w) (auto simp: disableChallenge_sets)

lemma foldl_disableChallenge_viewedUnlockables:
  "set (viewedUnlockables (foldl (disableChallenge cat) w cs)) =
     set (viewedUnlockables w) - (\<Union>c \<in> set cs. set (c_unlocks c))"
  by (induction cs arbitrary: w) (auto simp: disableChallenge_sets)

lemma foldl_disableChallenge_unlocks:
  "set (unlocks (foldl (disableChallenge cat) w cs)) =
     set (unlocks w)
     - (\<Union>c \<in> set cs. set (c_unlocks c) \<union> e_unlockId ` set (getLogbookEntriesForChallenge cat (c_id c)))"
  by (induction cs arbitrary: w) (auto simp: disableChallenge_sets)

lemma foldl_disableChallenge_viewedViewables:
  "set (viewedViewables (foldl (disableChallenge cat) w cs)) =
     set (viewedViewables w)
     - (\<Union>c \<in> set cs. e_unlockId ` set (getLogbookEntriesForChallenge cat (c_id c)))"
  by (induction cs arbitrary: w) (auto simp: disableChallenge_sets)

lemma foldl_disableChallenge_discoveredPickups:
  "set (discoveredPickups (foldl (disableChallenge cat) w cs)) =
     set (discoveredPickups w)
     - (\<Union>c \<in> set cs. pickupsOf (getLogbookEntriesForChallenge cat (c_id c)))"
  by (induction cs arbitrary: w) (auto simp: disableChallenge_sets)

lemma foldl_disableChallenge_stats:
  "stats (foldl (disableChallenge cat) w cs) = stats w"
  by (induction cs arbitrary: w) (auto simp: disableChallenge_sets)

lemma toggleLogbookEntry_disable_eq:
  "toggleLogbookEntry cat s E False = foldl (disableChallenge cat) (entryRemoved s E) (toDisable cat s E)"
  by (simp add: toggleLogbookEntry_def entryRemoved_def markersRemoved_def toDisable_def Let_def
        shouldDisable_copySets)

lemma markersRemoved_sets:
  "set (achievements (markersRemoved s E)) = set (achievements s)"
  "set (unviewedAchievements (markersRemoved s E)) = set (unviewedAchievements s)"
  "set (viewedUnlockables (markersRemoved s E)) = set (viewedUnlockables s)"
  "set (unlocks (markersRemoved s E)) = set (unlocks s) - {e_unlockId E}"
  "set (viewedViewables (markersRemoved s E)) =
     set (viewedViewables s) - {e_unlockId E} - set (getLogbookAliases (e_unlockId E))"
  "set (discoveredPickups (markersRemoved s E)) = set (discoveredPickups s) - pickupsOf [E]"
  "stats (markersRemoved s E) = stats s"
  by (auto simp: markersRemoved_def Let_def foldl_removeAlias copySets_fields
        set_setDelete pickupsOf_def split: option.splits)

lemma entryRemoved_sets:
  "set (achievements (entryRemoved s E)) = set (achievements s)"
  "set (unviewedAchievements (entryRemoved s E)) = set (unviewedAchievements s)"
  "set (viewedUnlockables (entryRemoved s E)) = set (viewedUnlockables s)"
  "set (viewedViewables (entryRemoved s E)) =
     set (viewedViewables s) - {e_unlockId E} - set (getLogbookAliases (e_unlockId E))"
  "set (discoveredPickups (entryRemoved s E)) = set (discoveredPickups s) - pickupsOf [E]"
  by (simp_all add: entryRemoved_def applyLogbookStats_frame markersRemoved_sets)

lemma entryRemoved_unlocks:
  "set (unlocks (entryRemoved s E)) \<subseteq> set (unlocks s) - {e_unlockId E}"
  using applyLogbookStats_unlocks(2) [of E "markersRemoved s E"]
  by (simp add: entryRemoved_def markersRemoved_sets)

lemma toggleLogbookEntry_disable_cascade_sets:
  "set (achievements (toggleLogbookEntry cat s E False)) =
     set (achievements s) - c_achievement ` set (toDisable cat s E)"
  "set (unviewedAchievements (toggleLogbookEntry cat s E False)) =
     set (unviewedAchievements s) - c_achievement ` set (toDisable cat s E)"
  "set (viewedUnlockables (toggleLogbookEntry cat s E False)) =
     set (viewedUnlockables s) - (\<Union>c \<in> set (toDisable cat s E). set (c_unlocks c))"
  by (simp_all add: toggleLogbookEntry_disable_eq foldl_disableChallenge_achievements
        foldl_disableChallenge_unviewed foldl_disableChallenge_viewedUnlockables entryRemoved_sets)

lemma toggleLogbookEntry_disable_markers:
  assumes "c \<in> set (toDisable cat s E)"
  shows "set (c_unlocks c) \<inter> set (unlocks (toggleLogbookEntry cat s E False)) = {}"
    "e_unlockId ` set (getLogbookEntriesForChallenge cat (c_id c))
       \<inter> (set (unlocks (toggleLogbookEntry cat s E False))
          \<union> set (viewedViewables (toggleLogbookEntry cat s E False))) = {}"
    "pickupsOf (getLogbookEntriesForChallenge cat (c_id c))
       \<inter> set (discoveredPickups (toggleLogbookEntry cat s E False)) = {}"
  using assms
  by (auto simp: toggleLogbookEntry_disable_eq foldl_disableChallenge_unlocks
        foldl_disableChallenge_viewedViewables foldl_disableChallenge_discoveredPickups)

lemma ex_toDisable: "toDisable exCatalog exHeld exFirework = [exChallengeA, exChallengeB]"
  by (simp add: toDisable_def ex_ids ex_challenges ex_entries shouldDisable_iff)

section \<open>Counters: the drone example and \<^verbatim>\<open>lockAllLogbook\<close>\<close>

lemma enableChallenge_stats: "stats (enableChallenge cat w c) = stats w"
  by (simp add: enableChallenge_def foldl_addEntryMarkers foldl_grantUnlock)

lemma foldl_enableChallenge_stats: "stats (foldl (enableChallenge cat) w cs) = stats w"
  by (induction cs arbitrary: w) (simp_all add: enableChallenge_stats)

lemma toggleLogbookEntry_enable_stats:
  "stats (toggleLogbookEntry cat s E True) = snd (updateLogbookStats E True
      (unlocks (foldl addAlias (foldl (enableChallenge cat) (addEntryMarkers (copySets s) E)
         (getChallengesForLogbookEntry cat (e_id E))) (getLogbookAliases (e_unlockId E))))
      (stats s))"
  by (simp add: toggleLogbookEntry_def Let_def applyLogbookStats_def foldl_addAlias
        foldl_enableChallenge_stats addEntryMarkers_sets copySets_fields split: prod.splits)

lemma toggleLogbookEntry_disable_stats:
  "stats (toggleLogbookEntry cat s E False) =
     snd (updateLogbookStats E False (unlocks (markersRemoved s E)) (stats s))"
  by (simp add: toggleLogbookEntry_disable_eq foldl_disableChallenge_stats entryRemoved_def
        applyLogbookStats_def markersRemoved_sets split: prod.splits)

lemma chirp_internal: "getInternalBodyName ''Logs.ChirpBody.0'' = ''Logs.chirpbody.0''"
  by (simp add: getInternalBodyName_def lastOrEmpty_def stripSuffix_def stripPrefix_def endsWith_def
        startsWith_def overrides_def pascalSegment_def toUpperChar_def toLowerChar_def
        toLowerCase_def lowerLetters_def upperLetters_def)

lemma chirp_fields:
  "e_id exChirp = ''chirp''" "e_category exChirp = Drones" "e_unlockId exChirp = ''Logs.ChirpBody.0''"
  "e_pickupId exChirp = Some ''DroneIndex.Chirp''"
  by (simp_all add: exChirp_def)

lemma chirp_logNames: "logNames exChirp = (''chirpbody'', ''Logs.chirpbody.0'')"
  by (simp add: logNames_def chirp_fields chirp_internal startsWith_def stripLogAffixes_def
        stripPrefix_def stripSuffix_def endsWith_def)

lemma chirp_updateLogbookStats:
  "updateLogbookStats exChirp True u st =
     (setAdd u ''Logs.chirpbody.0'',
      st(''timesSummoned.chirpbodyBody'' \<mapsto> ''1'', ''totalTimeAlive.chirpbodyBody'' \<mapsto> ''1''))"
  "updateLogbookStats exChirp False u st =
     (setDelete u ''Logs.chirpbody.0'',
      st(''timesSummoned.chirpbodyBody'' := None, ''totalTimeAlive.chirpbodyBody'' := None))"
  by (simp_all add: updateLogbookStats_def chirp_logNames Let_def logUnlockOf_def statBodyNameOf_def
        endsWith_def startsWith_def chirp_fields)

lemma startsWith_append: "startsWith (p @ x) p"
  by (simp add: startsWith_def)

lemma foldl_deleteStat: "foldl deleteStat st ks k = (if k \<in> set ks then None else st k)"
  by (induction ks arbitrary: st) (auto simp: deleteStat_def)

lemma trackedKey_prefix: "p \<in> set trackedPrefixes \<Longrightarrow> trackedKey (p @ x)"
  unfolding trackedKey_def list_ex_iff using startsWith_append [of p x] by blast

lemma trackedKey_startsWith: "p \<in> set trackedPrefixes \<Longrightarrow> startsWith k p \<Longrightarrow> trackedKey k"
  by (auto simp: trackedKey_def list_ex_iff)

lemma lockStatKeys_tracked: "k \<in> set (lockStatKeys c b) \<Longrightarrow> trackedKey k"
  by (auto simp: lockStatKeys_def Let_def trackedKey_def trackedPrefixes_def startsWith_def
        split: if_splits)

lemma lockNames_full:
  "lockNames e = (b, f) \<Longrightarrow> f = [] \<or> startsWith f ''Logs.'' \<or> startsWith f ''Log.''"
  by (auto simp: lockNames_def Let_def split: if_splits)



lemma lockKey_tracked:
  assumes "lockNames e = (b, f)"
  shows "lockKey e b f = [] \<or> trackedKey (lockKey e b f)"
proof -
  have 1: "trackedKey (''Logs.Stages.'' @ toLowerCase b)"
    using trackedKey_prefix [of "''Logs.''" "''Stages.'' @ toLowerCase b"]
    by (simp add: trackedPrefixes_def)
  have 2: "trackedKey (''Logs.'' @ b @ ''Body.0'')"
    using trackedKey_prefix [of "''Logs.''" "b @ ''Body.0''"] by (simp add: trackedPrefixes_def)
  have 3: "f = [] \<or> trackedKey f"
    using lockNames_full [OF assms] trackedKey_startsWith [of "''Logs.''" f]
      trackedKey_startsWith [of "''Log.''" f]
    by (auto simp: trackedPrefixes_def)
  consider (env) "lockKey e b f = ''Logs.Stages.'' @ toLowerCase b"
    | (log) "lockKey e b f = ''Logs.'' @ b @ ''Body.0''" | (full) "lockKey e b f = f"
    unfolding lockKey_def by presburger
  then show ?thesis
  proof cases
    case env
    with 1 show ?thesis by metis
  next
    case log
    with 2 show ?thesis by metis
  next
    case full
    with 3 show ?thesis by metis
  qed
qed

lemma lockStats_apply:
  "lockStats e b st k =
     (if e_category e \<noteq> Environments \<and> e_category e \<in> set [Monsters, Survivors, Drones]
         \<and> k \<in> set (lockStatKeys (e_category e) b) then None else st k)"
  by (simp add: lockStats_def foldl_deleteStat)

lemma lockStats_frame: "\<not> trackedKey k \<Longrightarrow> lockStats e b st k = st k"
  using lockStatKeys_tracked [of k "e_category e" b] by (auto simp: lockStats_apply)

lemma lockStats_None: "st k = None \<Longrightarrow> lockStats e b st k = None"
  by (simp add: lockStats_apply)

lemma lockEntryLogs_eq:
  assumes "lockNames e = (b, f)"
  shows "lockEntryLogs e w =
     (if b \<noteq> [] \<or> f \<noteq> [] then
        (if lockKey e b f \<noteq> []
         then w\<lparr>unlocks := setDelete (unlocks w) (lockKey e b f),
                stats := (lockStats e b (stats w))(lockKey e b f := None)\<rparr>
         else w\<lparr>stats := lockStats e b (stats w)\<rparr>)
      else w)"
  by (simp add: lockEntryLogs_def assms Let_def)

lemma lockEntryLogs_frame:
  "achievements (lockEntryLogs e w) = achievements w"
  "unviewedAchievements (lockEntryLogs e w) = unviewedAchievements w"
  "viewedUnlockables (lockEntryLogs e w) = viewedUnlockables w"
  "viewedViewables (lockEntryLogs e w) = viewedViewables w"
  "discoveredPickups (lockEntryLogs e w) = discoveredPickups w"
  by (cases "lockNames e"; simp add: lockEntryLogs_eq)+

lemma lockEntryLogs_unlocks: "set (unlocks (lockEntryLogs e w)) \<subseteq> set (unlocks w)"
  by (cases "lockNames e") (auto simp: lockEntryLogs_eq set_setDelete)

lemma lockEntryLogs_stats_None: "stats w k = None \<Longrightarrow> stats (lockEntryLogs e w) k = None"
  by (cases "lockNames e") (simp add: lockEntryLogs_eq lockStats_None)

lemma lockEntryLogs_stats_keys: "k \<in> set (lockCounterKeys e) \<Longrightarrow> stats (lockEntryLogs e w) k = None"
  by (cases "lockNames e") (auto simp: lockEntryLogs_eq lockCounterKeys_def lockStats_apply split: if_splits)

lemma lockEntryLogs_stats_frame:
  assumes "\<not> trackedKey k"
  shows "stats (lockEntryLogs e w) k = stats w k"
proof -
  obtain b f where n: "lockNames e = (b, f)" by (cases "lockNames e")
  from lockKey_tracked [OF n] assms have "lockKey e b f = [] \<or> k \<noteq> lockKey e b f" by blast
  then show ?thesis
    using assms by (auto simp: lockEntryLogs_eq [OF n] lockStats_frame)
qed

lemma dropPickup_fields:
  "unlocks (dropPickup e w) = unlocks w"
  "viewedViewables (dropPickup e w) = viewedViewables w"
  "stats (dropPickup e w) = stats w"
  "set (discoveredPickups (dropPickup e w)) = set (discoveredPickups w) - pickupsOf [e]"
  by (auto simp: dropPickup_def pickupsOf_def set_setDelete split: option.splits)

lemma unmarked_fields:
  "set (unlocks (unmarked w e)) = set (unlocks w) - {e_unlockId e}"
  "set (viewedViewables (unmarked w e)) =
     set (viewedViewables w) - {e_unlockId e} - set (getLogbookAliases (e_unlockId e))"
  "discoveredPickups (unmarked w e) = discoveredPickups w"
  "stats (unmarked w e) = stats w"
  by (simp_all add: unmarked_def foldl_removeAlias set_setDelete)

lemma lockEntry_fst:
  "fst (lockEntry cat wd e) = dropPickup e (lockEntryLogs e (unmarked (fst wd) e))"
  by (cases wd) (simp add: lockEntry_def Let_def unmarked_def dropPickup_def)

lemma lockEntry_unlocks:
  "set (unlocks (fst (lockEntry cat wd e))) \<subseteq> set (unlocks (fst wd)) - {e_unlockId e}"
  unfolding lockEntry_fst dropPickup_fields
  using lockEntryLogs_unlocks [of e "unmarked (fst wd) e"]
  by (simp add: unmarked_fields)

lemma lockEntry_viewedViewables:
  "set (viewedViewables (fst (lockEntry cat wd e))) \<subseteq> set (viewedViewables (fst wd)) - {e_unlockId e}"
  unfolding lockEntry_fst dropPickup_fields
  by (auto simp: lockEntryLogs_frame unmarked_fields)

lemma lockEntry_discoveredPickups:
  "set (discoveredPickups (fst (lockEntry cat wd e))) \<subseteq> set (discoveredPickups (fst wd)) - pickupsOf [e]"
  unfolding lockEntry_fst dropPickup_fields
  by (simp add: lockEntryLogs_frame unmarked_fields)

lemma lockEntry_stats_frame:
  "\<not> trackedKey k \<Longrightarrow> stats (fst (lockEntry cat wd e)) k = stats (fst wd) k"
  unfolding lockEntry_fst dropPickup_fields
  by (simp add: lockEntryLogs_stats_frame unmarked_fields)

lemma lockEntry_stats_None:
  "stats (fst wd) k = None \<Longrightarrow> stats (fst (lockEntry cat wd e)) k = None"
  unfolding lockEntry_fst dropPickup_fields
  by (simp add: lockEntryLogs_stats_None unmarked_fields)

lemma lockEntry_stats_keys:
  "k \<in> set (lockCounterKeys e) \<Longrightarrow> stats (fst (lockEntry cat wd e)) k = None"
  unfolding lockEntry_fst dropPickup_fields
  by (simp add: lockEntryLogs_stats_keys)

lemma foldl_lockEntry_unlocks:
  "set (unlocks (fst (foldl (lockEntry cat) wd es))) \<subseteq> set (unlocks (fst wd)) - e_unlockId ` set es"
proof (induction es arbitrary: wd)
  case Nil
  show ?case by simp
next
  case (Cons e es)
  from Cons.IH [of "lockEntry cat wd e"] lockEntry_unlocks [of cat wd e]
  show ?case by auto
qed

lemma foldl_lockEntry_viewedViewables:
  "set (viewedViewables (fst (foldl (lockEntry cat) wd es)))
     \<subseteq> set (viewedViewables (fst wd)) - e_unlockId ` set es"
proof (induction es arbitrary: wd)
  case Nil
  show ?case by simp
next
  case (Cons e es)
  from Cons.IH [of "lockEntry cat wd e"] lockEntry_viewedViewables [of cat wd e]
  show ?case by auto
qed

lemma foldl_lockEntry_discoveredPickups:
  "set (discoveredPickups (fst (foldl (lockEntry cat) wd es)))
     \<subseteq> set (discoveredPickups (fst wd)) - pickupsOf es"
proof (induction es arbitrary: wd)
  case Nil
  show ?case by (simp add: pickupsOf_Nil)
next
  case (Cons e es)
  have "pickupsOf (e # es) = pickupsOf [e] \<union> pickupsOf es"
    using pickupsOf_append [of "[e]" es] by simp
  with Cons.IH [of "lockEntry cat wd e"] lockEntry_discoveredPickups [of cat wd e]
  show ?case by auto
qed

lemma foldl_lockEntry_stats_frame:
  "\<not> trackedKey k \<Longrightarrow> stats (fst (foldl (lockEntry cat) wd es)) k = stats (fst wd) k"
  by (induction es arbitrary: wd) (simp_all add: lockEntry_stats_frame)

lemma foldl_lockEntry_stats_None:
  "stats (fst wd) k = None \<Longrightarrow> stats (fst (foldl (lockEntry cat) wd es)) k = None"
  by (induction es arbitrary: wd) (simp_all add: lockEntry_stats_None)

lemma foldl_lockEntry_stats_keys:
  "e \<in> set es \<Longrightarrow> k \<in> set (lockCounterKeys e) \<Longrightarrow> stats (fst (foldl (lockEntry cat) wd es)) k = None"
proof (induction es arbitrary: wd)
  case Nil
  then show ?case by simp
next
  case (Cons a es)
  show ?case
  proof (cases "e = a")
    case True
    with Cons.prems have "stats (fst (lockEntry cat wd a)) k = None"
      by (simp add: lockEntry_stats_keys)
    then show ?thesis by (simp add: foldl_lockEntry_stats_None)
  next
    case False
    with Cons show ?thesis by simp
  qed
qed

lemma lockAchievement_fields:
  "set (unlocks (lockAchievement cat w a)) \<subseteq> set (unlocks w)"
  "viewedViewables (lockAchievement cat w a) = viewedViewables w"
  "discoveredPickups (lockAchievement cat w a) = discoveredPickups w"
  "stats (lockAchievement cat w a) = stats w"
  by (auto simp: lockAchievement_def Let_def foldl_revokeUnlock split: option.splits)

lemma foldl_lockAchievement_unlocks:
  "set (unlocks (foldl (lockAchievement cat) w as)) \<subseteq> set (unlocks w)"
proof (induction as arbitrary: w)
  case Nil
  show ?case by simp
next
  case (Cons a as)
  from Cons.IH [of "lockAchievement cat w a"] lockAchievement_fields(1) [of cat w a]
  show ?case by auto
qed

lemma foldl_lockAchievement_fields:
  "viewedViewables (foldl (lockAchievement cat) w as) = viewedViewables w"
  "discoveredPickups (foldl (lockAchievement cat) w as) = discoveredPickups w"
  "stats (foldl (lockAchievement cat) w as) = stats w"
  by (induction as arbitrary: w) (simp_all add: lockAchievement_fields)

lemma lockAllLogbook_eq:
  "lockAllLogbook cat s =
     foldl (lockAchievement cat) (fst (foldl (lockEntry cat) (copySets s, []) (logbookEntries cat)))
       (snd (foldl (lockEntry cat) (copySets s, []) (logbookEntries cat)))"
  by (simp add: lockAllLogbook_def split: prod.splits)

lemma lockAllLogbook_unlock_ids:
  assumes "e \<in> set (logbookEntries cat)"
  shows "e_unlockId e \<notin> set (unlocks (lockAllLogbook cat s))"
    "e_unlockId e \<notin> set (viewedViewables (lockAllLogbook cat s))"
    "pickupsOf [e] \<inter> set (discoveredPickups (lockAllLogbook cat s)) = {}"
proof -
  have "set (unlocks (lockAllLogbook cat s))
      \<subseteq> set (unlocks (fst (foldl (lockEntry cat) (copySets s, []) (logbookEntries cat))))"
    unfolding lockAllLogbook_eq by (rule foldl_lockAchievement_unlocks)
  with foldl_lockEntry_unlocks [of cat "(copySets s, [])" "logbookEntries cat"] assms
  show "e_unlockId e \<notin> set (unlocks (lockAllLogbook cat s))" by auto
  from foldl_lockEntry_viewedViewables [of cat "(copySets s, [])" "logbookEntries cat"] assms
  show "e_unlockId e \<notin> set (viewedViewables (lockAllLogbook cat s))"
    unfolding lockAllLogbook_eq foldl_lockAchievement_fields by auto
  have "pickupsOf [e] \<subseteq> pickupsOf (logbookEntries cat)"
    using assms by (auto simp: pickupsOf_def)
  with foldl_lockEntry_discoveredPickups [of cat "(copySets s, [])" "logbookEntries cat"]
  show "pickupsOf [e] \<inter> set (discoveredPickups (lockAllLogbook cat s)) = {}"
    unfolding lockAllLogbook_eq foldl_lockAchievement_fields by auto
qed

lemma lockAllLogbook_stats_frame:
  "\<not> trackedKey k \<Longrightarrow> stats (lockAllLogbook cat s) k = stats s k"
  unfolding lockAllLogbook_eq foldl_lockAchievement_fields
  by (simp add: foldl_lockEntry_stats_frame copySets_fields)

lemma lockAllLogbook_stats_keys:
  "e \<in> set (logbookEntries cat) \<Longrightarrow> k \<in> set (lockCounterKeys e) \<Longrightarrow> stats (lockAllLogbook cat s) k = None"
  unfolding lockAllLogbook_eq foldl_lockAchievement_fields
  by (rule foldl_lockEntry_stats_keys)

lemma golemplains_fields:
  "e_id exGolemplains = ''golemplains''" "e_category exGolemplains = Environments"
  "e_unlockId exGolemplains = ''/Logbook/LOGBOOK_CATEGORY_STAGE/MAP_GOLEMPLAINS_TITLE''"
  "e_pickupId exGolemplains = None"
  by (simp_all add: exGolemplains_def)

lemma golemplains_internal:
  "getInternalBodyName ''/Logbook/LOGBOOK_CATEGORY_STAGE/MAP_GOLEMPLAINS_TITLE'' = ''Golemplains''"
  by (simp add: getInternalBodyName_def lastOrEmpty_def stripSuffix_def stripPrefix_def endsWith_def
        startsWith_def overrides_def pascalSegment_def toUpperChar_def toLowerChar_def
        toLowerCase_def lowerLetters_def upperLetters_def)

lemma golemplains_logNames: "logNames exGolemplains = (''Golemplains'', [])"
  by (simp add: logNames_def golemplains_fields golemplains_internal startsWith_def)

lemma golemplains_updateLogbookStats:
  "snd (updateLogbookStats exGolemplains True u st) =
     st(''totalTimesVisited.golemplains'' \<mapsto> ''1'', ''totalTimesCleared.golemplains'' \<mapsto> ''1'')"
  by (simp add: updateLogbookStats_def golemplains_logNames golemplains_fields stagesToUnlock_def
        enableStage_def toLowerCase_def toLowerChar_def lowerLetters_def upperLetters_def
        startsWith_def)

lemma chirp_lockCounterKeys:
  "lockCounterKeys exChirp = [''timesSummoned.ChirpBody'', ''totalTimeAlive.ChirpBody'']"
  by (simp add: lockCounterKeys_def lockNames_def chirp_fields startsWith_def Let_def
        stripSuffix_def endsWith_def lockStatKeys_def)

subsection \<open>Counters created on enable and removed by the bulk lock\<close>

lemma startsWith_eq: "startsWith k p \<Longrightarrow> \<exists>r. k = p @ r"
  unfolding startsWith_def by (metis append_take_drop_id)

lemma stageCounter_untracked:
  assumes "stageCounter k"
  shows "\<not> trackedKey k"
proof -
  from assms startsWith_eq obtain r where
    "k = ''totalTimesVisited.'' @ r \<or> k = ''totalTimesCleared.'' @ r"
    unfolding stageCounter_def by blast
  then show ?thesis
    by (auto simp: trackedKey_def trackedPrefixes_def startsWith_def)
qed

lemma splitOn_nonempty: "splitOn d s \<noteq> []"
  by (induction s) (auto split: list.splits)

lemma splitOn_single: "d \<notin> set m \<Longrightarrow> splitOn d m = [m]"
  by (induction m) (auto split: list.splits)

lemma splitOn_first: "d \<notin> set m \<Longrightarrow> splitOn d (m @ d # rest) = m # splitOn d rest"
  by (induction m) (auto split: list.splits)

lemma stripSuffix_append: "stripSuffix (n @ p) p = n"
  by (simp add: stripSuffix_def endsWith_def)

lemma stripSuffix_readd: "stripSuffix b p @ p = (if endsWith b p then b else b @ p)"
  unfolding stripSuffix_def endsWith_def
  by (auto) (metis append_take_drop_id)

lemma includesStr_Nil: "p \<noteq> [] \<Longrightarrow> \<not> includesStr [] p"
  by simp

lemma foldl_enableStage_keys:
  "snd (foldl enableStage (u, st) ss) k \<noteq> None \<Longrightarrow> st k \<noteq> None \<or> stageCounter k"
proof (induction ss arbitrary: u st)
  case Nil
  then show ?case by simp
next
  case (Cons x xs)
  define u' where "u' = setAdd u (''Logs.Stages.'' @ x)"
  define st' where "st' = st(''totalTimesVisited.'' @ x \<mapsto> ''1'', ''totalTimesCleared.'' @ x \<mapsto> ''1'')"
  have step: "foldl enableStage (u, st) (x # xs) = foldl enableStage (u', st') xs"
    by (simp add: enableStage_def u'_def st'_def)
  from Cons.prems have "snd (foldl enableStage (u', st') xs) k \<noteq> None"
    unfolding step .
  from Cons.IH [OF this] have "st' k \<noteq> None \<or> stageCounter k" .
  moreover have "stageCounter (''totalTimesVisited.'' @ x)" "stageCounter (''totalTimesCleared.'' @ x)"
    unfolding stageCounter_def using startsWith_append by blast+
  moreover have "st' k \<noteq> None \<Longrightarrow>
      st k \<noteq> None \<or> k = ''totalTimesVisited.'' @ x \<or> k = ''totalTimesCleared.'' @ x"
    unfolding st'_def fun_upd_def by presburger
  ultimately show ?case by blast
qed

lemma created_cases:
  assumes n: "logNames e = (b, f)" and c: "createdOnEnable e k"
    and st: "\<not> stageCounter k" and ph: "k \<notin> set phaseCounters"
  shows "(b \<noteq> [] \<or> f \<noteq> []) \<and> e_category e \<in> set [Monsters, Survivors, Drones]
         \<and> k \<in> set (map (\<lambda>p. p @ statBodyNameOf b f)
               (if e_category e = Drones then [''timesSummoned.'', ''totalTimeAlive.'']
                else if e_category e = Monsters then [''killsAgainst.'', ''deathsFrom.'']
                else [''totalTimeAlive.'', ''timesPicked.'', ''totalWins.'']))"
proof (cases "e_category e = Environments")
  case True
  with c n have "b \<noteq> [] \<or> f \<noteq> []"
    and "snd (foldl enableStage ([], Map.empty) (stagesToUnlock (toLowerCase b))) k \<noteq> None"
    by (auto simp: createdOnEnable_def updateLogbookStats_def split: if_splits)
  from foldl_enableStage_keys [OF this(2)] st show ?thesis by simp
next
  case False
  with c n show ?thesis using ph
    by (cases "e_category e")
      (auto simp: createdOnEnable_def updateLogbookStats_def Let_def phaseCounters_def
        split: if_splits)
qed

lemma lockStatKeys_eq:
  "lockStatKeys c b = map (\<lambda>p. p @ stripSuffix b ''Body'' @ ''Body'')
     (if c = Drones then [''timesSummoned.'', ''totalTimeAlive.'']
      else if c = Monsters then [''killsAgainst.'', ''deathsFrom.'']
      else if c = Survivors then [''totalTimeAlive.'', ''timesPicked.'', ''totalWins.'']
      else [])"
  by (simp add: lockStatKeys_def Let_def)

lemma created_lockCounterKeys:
  assumes nl: "\<not> startsWith (e_unlockId e) ''Logs.''"
    and ns: "\<not> includesStr (getInternalBodyName (e_unlockId e)) ''SolusHeart''"
    and c: "createdOnEnable e k" and st: "\<not> stageCounter k" and ph: "k \<notin> set phaseCounters"
  shows "k \<in> set (lockCounterKeys e)"
proof -
  obtain b f where n: "logNames e = (b, f)" by (cases "logNames e")
  from n nl have ln: "lockNames e = (b, f)" by (simp add: logNames_def lockNames_def)
  from n nl have "f = [] \<or> f = getInternalBodyName (e_unlockId e)"
    by (auto simp: logNames_def Let_def split: if_splits)
  with ns have nf: "\<not> includesStr f ''SolusHeart''" by auto
  have sb: "statBodyNameOf b f = stripSuffix b ''Body'' @ ''Body''"
    unfolding statBodyNameOf_def stripSuffix_readd using nf by simp
  note cc = created_cases [OF n c st ph, unfolded sb]
  from cc have 1: "b \<noteq> [] \<or> f \<noteq> []" by (rule conjunct1)
  from cc have 2: "e_category e \<in> set [Monsters, Survivors, Drones]"
    by (rule conjunct2 [THEN conjunct1])
  from cc have 3: "k \<in> set (map (\<lambda>p. p @ stripSuffix b ''Body'' @ ''Body'')
               (if e_category e = Drones then [''timesSummoned.'', ''totalTimeAlive.'']
                else if e_category e = Monsters then [''killsAgainst.'', ''deathsFrom.'']
                else [''totalTimeAlive.'', ''timesPicked.'', ''totalWins.'']))"
    by (rule conjunct2 [THEN conjunct2])
  from 2 have 4: "e_category e \<noteq> Environments" by auto
  from 2 3 have "k \<in> set (lockStatKeys (e_category e) b)"
    unfolding lockStatKeys_eq by auto
  with 1 2 4 show ?thesis by (simp add: lockCounterKeys_def ln)
qed

lemma logsForm_lockNames:
  assumes u: "e_unlockId e = ''Logs.'' @ n @ ''Body.0''" and d: "CHR ''.'' \<notin> set n"
  shows "lockNames e = (n, [])"
proof -
  from d have "CHR ''.'' \<notin> set (n @ ''Body'')" by simp
  from splitOn_first [OF this, of "''0''"]
  have "splitOn CHR ''.'' (n @ ''Body.0'') = (n @ ''Body'') # splitOn CHR ''.'' ''0''" by simp
  then have sp: "splitOn CHR ''.'' (e_unlockId e) = [''Logs'', n @ ''Body'', ''0'']"
    by (simp add: u)
  have sw: "startsWith (e_unlockId e) ''Logs.''"
    unfolding u by (rule startsWith_append)
  have "\<not> endsWith (n @ ''Body'') ''.0''" by (simp add: endsWith_def)
  then have "stripSuffix (stripSuffix (n @ ''Body'') ''.0'') ''Body'' = n"
    by (simp add: stripSuffix_def [of "n @ ''Body''" "''.0''"] stripSuffix_append)
  with sp sw show ?thesis by (simp add: lockNames_def Let_def)
qed

lemma logsForm_lockCounterKeys:
  assumes u: "e_unlockId e = ''Logs.'' @ n @ ''Body.0''" and d: "CHR ''.'' \<notin> set n"
    and ne: "n \<noteq> []" and nb: "\<not> endsWith n ''Body''"
  shows "lockCounterKeys e = map (\<lambda>p. p @ n @ ''Body'')
     (if e_category e = Drones then [''timesSummoned.'', ''totalTimeAlive.'']
      else if e_category e = Monsters then [''killsAgainst.'', ''deathsFrom.'']
      else if e_category e = Survivors then [''totalTimeAlive.'', ''timesPicked.'', ''totalWins.'']
      else [])"
proof -
  from nb have "stripSuffix n ''Body'' = n" by (simp add: stripSuffix_def)
  then show ?thesis
    unfolding lockCounterKeys_def logsForm_lockNames [OF u d] lockStatKeys_eq using ne
    by (cases "e_category e") simp_all
qed

lemma logsForm_removed:
  assumes e: "e \<in> set (logbookEntries cat)"
    and u: "e_unlockId e = ''Logs.'' @ n @ ''Body.0''" and d: "CHR ''.'' \<notin> set n"
    and ne: "n \<noteq> []" and nb: "\<not> endsWith n ''Body''"
  shows "e_category e = Drones \<Longrightarrow>
           stats (lockAllLogbook cat s) (''timesSummoned.'' @ n @ ''Body'') = None
           \<and> stats (lockAllLogbook cat s) (''totalTimeAlive.'' @ n @ ''Body'') = None"
    and "e_category e = Monsters \<Longrightarrow>
           stats (lockAllLogbook cat s) (''killsAgainst.'' @ n @ ''Body'') = None
           \<and> stats (lockAllLogbook cat s) (''deathsFrom.'' @ n @ ''Body'') = None"
    and "e_category e = Survivors \<Longrightarrow>
           stats (lockAllLogbook cat s) (''totalTimeAlive.'' @ n @ ''Body'') = None
           \<and> stats (lockAllLogbook cat s) (''timesPicked.'' @ n @ ''Body'') = None
           \<and> stats (lockAllLogbook cat s) (''totalWins.'' @ n @ ''Body'') = None"
proof -
  note k = logsForm_lockCounterKeys [OF u d ne nb]
  note r = lockAllLogbook_stats_keys [OF e, of _ s, unfolded k]
  show "e_category e = Drones \<Longrightarrow>
           stats (lockAllLogbook cat s) (''timesSummoned.'' @ n @ ''Body'') = None
           \<and> stats (lockAllLogbook cat s) (''totalTimeAlive.'' @ n @ ''Body'') = None"
    using r [of "''timesSummoned.'' @ n @ ''Body''"] r [of "''totalTimeAlive.'' @ n @ ''Body''"]
    by simp
  show "e_category e = Monsters \<Longrightarrow>
           stats (lockAllLogbook cat s) (''killsAgainst.'' @ n @ ''Body'') = None
           \<and> stats (lockAllLogbook cat s) (''deathsFrom.'' @ n @ ''Body'') = None"
    using r [of "''killsAgainst.'' @ n @ ''Body''"] r [of "''deathsFrom.'' @ n @ ''Body''"]
    by simp
  show "e_category e = Survivors \<Longrightarrow>
           stats (lockAllLogbook cat s) (''totalTimeAlive.'' @ n @ ''Body'') = None
           \<and> stats (lockAllLogbook cat s) (''timesPicked.'' @ n @ ''Body'') = None
           \<and> stats (lockAllLogbook cat s) (''totalWins.'' @ n @ ''Body'') = None"
    using r [of "''totalTimeAlive.'' @ n @ ''Body''"] r [of "''timesPicked.'' @ n @ ''Body''"]
      r [of "''totalWins.'' @ n @ ''Body''"]
    by simp
qed

lemma magmaworm_fields:
  "e_category exMagmaWorm = Monsters"
  "e_unlockId exMagmaWorm = ''/Logbook/LOGBOOK_CATEGORY_MONSTER/MAGMAWORM_BODY_NAME''"
  by (simp_all add: exMagmaWorm_def)

lemma magmaworm_internal:
  "getInternalBodyName ''/Logbook/LOGBOOK_CATEGORY_MONSTER/MAGMAWORM_BODY_NAME'' = ''Logs.MagmaWormBody.0''"
  by (simp add: getInternalBodyName_def lastOrEmpty_def stripSuffix_def stripPrefix_def endsWith_def
        startsWith_def overrides_def)

lemma magmaworm_logNames: "logNames exMagmaWorm = (''MagmaWormBody'', ''Logs.MagmaWormBody.0'')"
  by (simp add: logNames_def magmaworm_fields magmaworm_internal startsWith_def stripLogAffixes_def
        stripPrefix_def stripSuffix_def endsWith_def)

lemma magmaworm_created:
  "createdOnEnable exMagmaWorm ''killsAgainst.MagmaWormBody''"
  "createdOnEnable exMagmaWorm ''deathsFrom.MagmaWormBody''"
  by (simp_all add: createdOnEnable_def updateLogbookStats_def magmaworm_logNames Let_def
        logUnlockOf_def statBodyNameOf_def endsWith_def magmaworm_fields)

lemma foldl_enableStage_mono:
  "snd (foldl enableStage (u1, st1) ss) k \<noteq> None \<Longrightarrow> (\<And>x. st1 x \<noteq> None \<Longrightarrow> st2 x \<noteq> None)
   \<Longrightarrow> snd (foldl enableStage (u2, st2) ss) k \<noteq> None"
proof (induction ss arbitrary: u1 st1 u2 st2)
  case Nil
  then show ?case by simp
next
  case (Cons x xs)
  define a where "a = ''totalTimesVisited.'' @ x"
  define b where "b = ''totalTimesCleared.'' @ x"
  have step: "foldl enableStage (u, st) (x # xs)
      = foldl enableStage (setAdd u (''Logs.Stages.'' @ x), st(a \<mapsto> ''1'', b \<mapsto> ''1'')) xs" for u st
    by (simp add: enableStage_def a_def b_def)
  have m: "(st2(a \<mapsto> ''1'', b \<mapsto> ''1'')) y \<noteq> None" if "(st1(a \<mapsto> ''1'', b \<mapsto> ''1'')) y \<noteq> None" for y
    using that Cons.prems(2) [of y] by (auto split: if_splits)
  from Cons.prems(1) show ?case
    unfolding step by (rule Cons.IH) (rule m)
qed

lemma updateLogbookStats_enable_mono:
  assumes "snd (updateLogbookStats e True u1 Map.empty) k \<noteq> None"
  shows "snd (updateLogbookStats e True u2 st) k \<noteq> None"
proof -
  obtain b f where n: "logNames e = (b, f)" by (cases "logNames e")
  show ?thesis
  proof (cases "e_category e = Environments")
    case True
    with assms n have ne: "\<not> (b = [] \<and> f = [])"
      and "snd (foldl enableStage (u1, Map.empty) (stagesToUnlock (toLowerCase b))) k \<noteq> None"
      by (auto simp: updateLogbookStats_def split: if_splits)
    from foldl_enableStage_mono [OF this(2), of st u2]
    have "snd (foldl enableStage (u2, st) (stagesToUnlock (toLowerCase b))) k \<noteq> None" by simp
    with True n ne show ?thesis by (auto simp: updateLogbookStats_def)
  next
    case False
    with assms n show ?thesis
      by (cases "e_category e")
        (auto simp: updateLogbookStats_def Let_def split: if_splits)
  qed
qed

lemma created_by_toggle:
  "createdOnEnable e k \<Longrightarrow> stats (toggleLogbookEntry cat s e True) k \<noteq> None"
  unfolding createdOnEnable_def toggleLogbookEntry_enable_stats
  by (rule updateLogbookStats_enable_mono)

section \<open>Frame of \<^verbatim>\<open>toggleAchievement\<close>\<close>

text \<open>
  Claim C10. For every catalog, state, achievement id (known or not) and flag, the state
  returned by \<^verbatim>\<open>toggleAchievement\<close> has the counter map, the name and the coins of the
  input state: only the six collections can differ.
\<close>

theorem toggleAchievement_frame:
  "stats (toggleAchievement cat s a en) = stats s
   \<and> name (toggleAchievement cat s a en) = name s
   \<and> coins (toggleAchievement cat s a en) = coins s"
  by (simp add: toggleAchievement_def Let_def foldl_addEntryMarkers foldl_grantUnlock
        foldl_removeUnlessProvided_frame foldl_revokeUnlock copySets_fields split: option.splits)

section \<open>Unknown achievement ids\<close>

text \<open>
  Claim C7, as amended. For an achievement id that matches no challenge of the catalog,
  \<^verbatim>\<open>toggleAchievement\<close> is total (it cannot fault) and touches the two achievement
  collections only: the id itself is added to (enable) or removed from (disable)
  \<^verbatim>\<open>achievements\<close> and \<^verbatim>\<open>unviewedAchievements\<close>, while \<^verbatim>\<open>viewedUnlockables\<close>,
  \<^verbatim>\<open>unlocks\<close>, \<^verbatim>\<open>viewedViewables\<close> and \<^verbatim>\<open>discoveredPickups\<close> keep their elements
  and the counter map is the same.
\<close>

theorem toggleAchievement_unknown:
  assumes "a \<notin> c_achievement ` set (challenges cat)"
  shows "set (achievements (toggleAchievement cat s a en)) =
           (if en then insert a (set (achievements s)) else set (achievements s) - {a})
       \<and> set (unviewedAchievements (toggleAchievement cat s a en)) =
           (if en then insert a (set (unviewedAchievements s)) else set (unviewedAchievements s) - {a})
       \<and> set (viewedUnlockables (toggleAchievement cat s a en)) = set (viewedUnlockables s)
       \<and> set (unlocks (toggleAchievement cat s a en)) = set (unlocks s)
       \<and> set (viewedViewables (toggleAchievement cat s a en)) = set (viewedViewables s)
       \<and> set (discoveredPickups (toggleAchievement cat s a en)) = set (discoveredPickups s)
       \<and> stats (toggleAchievement cat s a en) = stats s"
proof -
  note u = toggleAchievement_unknown_sets [OF find_unknown [OF assms]]
  have "stats (toggleAchievement cat s a en) = stats s"
    by (simp add: toggleAchievement_def Let_def find_unknown [OF assms] copySets_fields)
  with u show ?thesis by simp
qed

text \<open>The theorem at the example catalog, for an id that no challenge has.\<close>

theorem toggleAchievement_unknown_witness:
  "''NoSuchAchievement'' \<notin> c_achievement ` set (challenges exCatalog)
   \<and> set (achievements (toggleAchievement exCatalog exHeld ''NoSuchAchievement'' True)) =
       {''NoSuchAchievement'', ''RepeatedlyDuplicateItems''}
   \<and> set (unlocks (toggleAchievement exCatalog exHeld ''NoSuchAchievement'' True)) = {''Items.Firework''}
   \<and> stats (toggleAchievement exCatalog exHeld ''NoSuchAchievement'' True) ''totalDeaths'' = Some ''5''"
proof -
  have h: "''NoSuchAchievement'' \<notin> c_achievement ` set (challenges exCatalog)"
    by (simp add: ex_defs)
  from toggleAchievement_unknown [OF h, of exHeld True] h show ?thesis
    by (simp add: exHeld_def)
qed

text \<open>
  Claim C7 as stated calls the operation a no-op on the achievement fields. Enabling an
  unknown id in the empty example state puts the id into \<^verbatim>\<open>achievements\<close>.
\<close>

theorem toggleAchievement_unknown_counterexample:
  "''NoSuchAchievement'' \<notin> c_achievement ` set (challenges exCatalog)
   \<and> set (achievements (toggleAchievement exCatalog exState ''NoSuchAchievement'' True))
       \<noteq> set (achievements exState)"
proof -
  have h: "''NoSuchAchievement'' \<notin> c_achievement ` set (challenges exCatalog)"
    by (simp add: ex_defs)
  from toggleAchievement_unknown_sets(1) [OF find_unknown [OF h], of exState True] h show ?thesis
    by (simp add: exState_def)
qed

section \<open>Two challenges that share a logbook entry\<close>

text \<open>
  Claim C1 (shared-entry retention). In a well-formed catalog let two distinct challenges
  \<open>A\<close> and \<open>B\<close> both be linked to the entry \<open>E\<close>. After enabling both and disabling
  \<open>A\<close>, challenge \<open>B\<close> is still held, but the unlock id of \<open>E\<close> is neither in
  \<^verbatim>\<open>unlocks\<close> nor in \<^verbatim>\<open>viewedUnlockables\<close>, although enabling \<open>B\<close> alone puts it in
  both. The disable branch guards \<^verbatim>\<open>unlocks.delete(entry.unlockId)\<close> by
  \<^verbatim>\<open>isLogbookEntryProvidedByOtherChallenge\<close>, but a link exists only when the unlock id
  of \<open>E\<close> is one of the unlock ids of \<open>A\<close>, and the loop before the guard has already
  deleted those. For the other two collections the guard works: the unlock id of \<open>E\<close>
  stays in \<^verbatim>\<open>viewedViewables\<close>, its pickup id (if any) in \<^verbatim>\<open>discoveredPickups\<close>, and
  \<^verbatim>\<open>isLogbookEntryUnlocked\<close> holds. Disabling \<open>B\<close> as well removes the unlock id of
  \<open>E\<close> from \<^verbatim>\<open>unlocks\<close> and \<^verbatim>\<open>viewedViewables\<close> and its pickup id from
  \<^verbatim>\<open>discoveredPickups\<close>, provided no third challenge linked to \<open>E\<close> is held in the
  starting state.
\<close>

theorem shared_entry_unlock_dropped:
  assumes wf: "wellFormed cat"
    and A: "A \<in> set (challenges cat)" and B: "B \<in> set (challenges cat)" and AB: "A \<noteq> B"
    and EA: "E \<in> set (getLogbookEntriesForChallenge cat (c_id A))"
    and EB: "E \<in> set (getLogbookEntriesForChallenge cat (c_id B))"
  shows "let s2 = toggleAchievement cat (toggleAchievement cat s (c_achievement A) True)
                    (c_achievement B) True;
             s3 = toggleAchievement cat s2 (c_achievement A) False;
             s4 = toggleAchievement cat s3 (c_achievement B) False
         in c_achievement B \<in> set (achievements s3)
            \<and> e_unlockId E \<notin> set (unlocks s3)
            \<and> e_unlockId E \<notin> set (viewedUnlockables s3)
            \<and> e_unlockId E \<in> set (unlocks (toggleAchievement cat s (c_achievement B) True))
            \<and> e_unlockId E \<in> set (viewedUnlockables (toggleAchievement cat s (c_achievement B) True))
            \<and> e_unlockId E \<in> set (viewedViewables s3)
            \<and> pickupsOf [E] \<subseteq> set (discoveredPickups s3)
            \<and> isLogbookEntryUnlocked s3 E
            \<and> ((\<forall>C \<in> set (getChallengesForLogbookEntry cat (e_id E)).
                   C \<noteq> A \<longrightarrow> C \<noteq> B \<longrightarrow> c_achievement C \<notin> set (achievements s))
                 \<longrightarrow> e_unlockId E \<notin> set (unlocks s4)
                     \<and> e_unlockId E \<notin> set (viewedViewables s4)
                     \<and> pickupsOf [E] \<inter> set (discoveredPickups s4) = {})"
proof -
  define a where "a = c_achievement A"
  define b where "b = c_achievement B"
  define s1 where "s1 = toggleAchievement cat s a True"
  define s2 where "s2 = toggleAchievement cat s1 b True"
  define s3 where "s3 = toggleAchievement cat s2 a False"
  define s4 where "s4 = toggleAchievement cat s3 b False"
  define sB where "sB = toggleAchievement cat s b True"
  define EAs where "EAs = getLogbookEntriesForChallenge cat (c_id A)"
  define EBs where "EBs = getLogbookEntriesForChallenge cat (c_id B)"
  have fA: "find (\<lambda>c. c_achievement c = a) (challenges cat) = Some A"
    unfolding a_def by (rule find_achievement [OF wf A])
  have fB: "find (\<lambda>c. c_achievement c = b) (challenges cat) = Some B"
    unfolding b_def by (rule find_achievement [OF wf B])
  from wf have "distinct (map c_achievement (challenges cat))" by (simp add: wellFormed_def)
  from distinct_map_eq [OF this A B] AB have ab: "a \<noteq> b" unfolding a_def b_def by blast
  note e1 = toggleAchievement_enable [OF fA, of s, folded s1_def EAs_def]
  note e2 = toggleAchievement_enable [OF fB, of s1, folded s2_def EBs_def]
  note d3 = toggleAchievement_disable [OF fA, of s2, folded s3_def EAs_def]
  note d4 = toggleAchievement_disable [OF fB, of s3, folded s4_def EBs_def]
  note eB = toggleAchievement_enable [OF fB, of s, folded sB_def EBs_def]
  have E_in: "E \<in> set (logbookEntries cat)" by (rule linked_entry(1) [OF wf A EA])
  have grantA: "e_unlockId E \<in> set (c_unlocks A)" by (rule linked_entry(2) [OF wf A EA])
  have grantB: "e_unlockId E \<in> set (c_unlocks B)" by (rule linked_entry(2) [OF wf B EB])
  have B_prov: "B \<in> set (getChallengesForLogbookEntry cat (e_id E))"
    by (rule linked_challenge [OF wf B EB])
  have ach2: "set (achievements s2) = insert b (insert a (set (achievements s)))"
    by (simp add: e1 e2)
  have ach3: "set (achievements s3) = insert b (insert a (set (achievements s))) - {a}"
    by (simp add: d3 ach2)
  have held: "b \<in> set (achievements s3)"
    unfolding ach3 using ab by simp
  have un3: "e_unlockId E \<notin> set (unlocks s3)"
    unfolding d3(4) using grantA by simp
  have vu3: "e_unlockId E \<notin> set (viewedUnlockables s3)"
    unfolding d3(3) using grantA by simp
  have alone: "e_unlockId E \<in> set (unlocks sB)" "e_unlockId E \<in> set (viewedUnlockables sB)"
    unfolding eB(3) eB(4) using grantB by simp_all
  have provided: "isLogbookEntryProvidedByOtherChallenge cat E a (achievements s2)"
    unfolding provided_iff using B_prov ab ach2 b_def by auto
  have kept: "e \<noteq> E" if "e \<in> set (unprovided cat (achievements s2) a EAs)" for e
    using that provided by (auto simp: set_unprovided)
  have in_EAs: "e \<in> set EAs" if "e \<in> set (unprovided cat (achievements s2) a EAs)" for e
    using that by (simp add: set_unprovided)
  have vv2: "e_unlockId E \<in> set (viewedViewables s2)"
    using EB by (simp add: e2 EBs_def)
  have vv3: "e_unlockId E \<in> set (viewedViewables s3)"
  proof -
    have "e_unlockId E \<notin> e_unlockId ` set (unprovided cat (achievements s2) a EAs)"
    proof
      assume "e_unlockId E \<in> e_unlockId ` set (unprovided cat (achievements s2) a EAs)"
      then obtain e where e: "e \<in> set (unprovided cat (achievements s2) a EAs)"
        and eq: "e_unlockId e = e_unlockId E" by auto
      from in_EAs [OF e] have "e \<in> set (getLogbookEntriesForChallenge cat (c_id A))"
        by (simp add: EAs_def)
      from linked_same_unlockId [OF wf A A this EA eq] kept [OF e] show False by simp
    qed
    with vv2 show ?thesis by (simp add: d3)
  qed
  have dp3: "pickupsOf [E] \<subseteq> set (discoveredPickups s3)"
  proof
    fix p assume "p \<in> pickupsOf [E]"
    then have p: "e_pickupId E = Some p" "p \<noteq> []" by (simp_all add: pickupsOf_def)
    with EB have "p \<in> pickupsOf EBs" by (auto simp: pickupsOf_def EBs_def)
    then have in2: "p \<in> set (discoveredPickups s2)" by (simp add: e2)
    have "p \<notin> pickupsOf (unprovided cat (achievements s2) a EAs)"
    proof
      assume "p \<in> pickupsOf (unprovided cat (achievements s2) a EAs)"
      then obtain e where e: "e \<in> set (unprovided cat (achievements s2) a EAs)"
        and ep: "e_pickupId e = Some p" by (auto simp: pickupsOf_def)
      from in_EAs [OF e] have "e \<in> set (getLogbookEntriesForChallenge cat (c_id A))"
        by (simp add: EAs_def)
      from linked_entry(1) [OF wf A this] have e_in: "e \<in> set (logbookEntries cat)" .
      from wf have "distinct (pickupList (logbookEntries cat))" by (simp add: wellFormed_def)
      from pickup_unique [OF this e_in E_in ep p] kept [OF e] show False by simp
    qed
    with in2 show "p \<in> set (discoveredPickups s3)" by (simp add: d3)
  qed
  have ok3: "isLogbookEntryUnlocked s3 E"
    using vv3 by (simp add: isLogbookEntryUnlocked_def)
  have gone: "e_unlockId E \<notin> set (unlocks s4) \<and> e_unlockId E \<notin> set (viewedViewables s4)
      \<and> pickupsOf [E] \<inter> set (discoveredPickups s4) = {}"
    if third: "\<forall>C \<in> set (getChallengesForLogbookEntry cat (e_id E)).
                 C \<noteq> A \<longrightarrow> C \<noteq> B \<longrightarrow> c_achievement C \<notin> set (achievements s)"
  proof -
    have "\<not> isLogbookEntryProvidedByOtherChallenge cat E b (achievements s3)"
      unfolding provided_iff ach3 using third a_def b_def by auto
    with EB have "E \<in> set (unprovided cat (achievements s3) b EBs)"
      by (simp add: set_unprovided EBs_def)
    then have "e_unlockId E \<in> e_unlockId ` set (unprovided cat (achievements s3) b EBs)"
      and "pickupsOf [E] \<subseteq> pickupsOf (unprovided cat (achievements s3) b EBs)"
      by (auto simp: pickupsOf_def)
    then show ?thesis by (auto simp: d4)
  qed
  show ?thesis
    unfolding Let_def
    using held un3 vu3 alone vv3 dp3 ok3 gone
    by (simp add: s1_def s2_def s3_def s4_def sB_def a_def b_def)
qed

text \<open>The theorem at the example catalog: both example challenges unlock the firework.\<close>

theorem shared_entry_unlock_dropped_witness:
  "wellFormed exCatalog \<and> exChallengeA \<in> set (challenges exCatalog)
   \<and> exChallengeB \<in> set (challenges exCatalog) \<and> exChallengeA \<noteq> exChallengeB
   \<and> exFirework \<in> set (getLogbookEntriesForChallenge exCatalog (c_id exChallengeA))
   \<and> exFirework \<in> set (getLogbookEntriesForChallenge exCatalog (c_id exChallengeB))
   \<and> ''SecondProvider'' \<in> set (achievements
        (toggleAchievement exCatalog
          (toggleAchievement exCatalog
            (toggleAchievement exCatalog exState ''RepeatedlyDuplicateItems'' True)
            ''SecondProvider'' True)
          ''RepeatedlyDuplicateItems'' False))
   \<and> ''Items.Firework'' \<notin> set (unlocks
        (toggleAchievement exCatalog
          (toggleAchievement exCatalog
            (toggleAchievement exCatalog exState ''RepeatedlyDuplicateItems'' True)
            ''SecondProvider'' True)
          ''RepeatedlyDuplicateItems'' False))
   \<and> ''Items.Firework'' \<in> set (unlocks (toggleAchievement exCatalog exState ''SecondProvider'' True))
   \<and> ''Items.Firework'' \<in> set (viewedViewables
        (toggleAchievement exCatalog
          (toggleAchievement exCatalog
            (toggleAchievement exCatalog exState ''RepeatedlyDuplicateItems'' True)
            ''SecondProvider'' True)
          ''RepeatedlyDuplicateItems'' False))
   \<and> ''Items.Firework'' \<notin> set (viewedViewables
        (toggleAchievement exCatalog
          (toggleAchievement exCatalog
            (toggleAchievement exCatalog
              (toggleAchievement exCatalog exState ''RepeatedlyDuplicateItems'' True)
              ''SecondProvider'' True)
            ''RepeatedlyDuplicateItems'' False)
          ''SecondProvider'' False))"
proof -
  have h1: "exChallengeA \<in> set (challenges exCatalog)" by (simp add: exCatalog_def)
  have h2: "exChallengeB \<in> set (challenges exCatalog)" by (simp add: exCatalog_def)
  have h3: "exChallengeA \<noteq> exChallengeB" by (simp add: exChallengeA_def exChallengeB_def)
  have h4: "exFirework \<in> set (getLogbookEntriesForChallenge exCatalog (c_id exChallengeA))"
    by (simp add: ex_ids ex_entries)
  have h5: "exFirework \<in> set (getLogbookEntriesForChallenge exCatalog (c_id exChallengeB))"
    by (simp add: ex_ids ex_entries)
  have third: "\<forall>C \<in> set (getChallengesForLogbookEntry exCatalog (e_id exFirework)).
      C \<noteq> exChallengeA \<longrightarrow> C \<noteq> exChallengeB \<longrightarrow> c_achievement C \<notin> set (achievements exState)"
    by (simp add: ex_ids ex_challenges)
  from shared_entry_unlock_dropped [OF ex_wellFormed h1 h2 h3 h4 h5, of exState] third
  show ?thesis using ex_wellFormed h1 h2 h3 h4 h5
    by (simp add: Let_def ex_ids)
qed

text \<open>
  Claim C1 keeps the unlock id of \<open>E\<close> in \<^verbatim>\<open>unlocks\<close> after \<open>A\<close> is disabled. At the
  example catalog, starting from the empty state, it is gone.
\<close>

theorem shared_entry_retention_counterexample:
  "exFirework \<in> set (getLogbookEntriesForChallenge exCatalog (c_id exChallengeA))
   \<and> exFirework \<in> set (getLogbookEntriesForChallenge exCatalog (c_id exChallengeB))
   \<and> exChallengeA \<noteq> exChallengeB
   \<and> e_unlockId exFirework \<notin> set (unlocks
        (toggleAchievement exCatalog
          (toggleAchievement exCatalog
            (toggleAchievement exCatalog exState (c_achievement exChallengeA) True)
            (c_achievement exChallengeB) True)
          (c_achievement exChallengeA) False))"
  by (simp add: ex_ids ex_entries toggleAchievement_disable(4) [OF ex_find(1)]
        exChallengeA_def exChallengeB_def)

section \<open>Enabling and then disabling a challenge\<close>

text \<open>
  Claim C3, as amended. In a well-formed catalog let \<open>A\<close> be a challenge none of whose
  markers is present in the state \<open>s\<close> (\<open>lockedIn\<close>), and whose unlock ids are not
  granted by another achievement held in \<open>s\<close>. Then enabling \<open>A\<close> and disabling it
  again restores each of the six collections, as a set.
\<close>

theorem enable_disable_symmetry:
  assumes wf: "wellFormed cat" and A: "A \<in> set (challenges cat)"
    and locked: "lockedIn cat s A"
    and notShared: "\<forall>C \<in> set (challenges cat). C \<noteq> A \<longrightarrow> c_achievement C \<in> set (achievements s)
                      \<longrightarrow> set (c_unlocks C) \<inter> set (c_unlocks A) = {}"
  shows "let r = toggleAchievement cat (toggleAchievement cat s (c_achievement A) True)
                   (c_achievement A) False
         in set (achievements r) = set (achievements s)
            \<and> set (unviewedAchievements r) = set (unviewedAchievements s)
            \<and> set (viewedUnlockables r) = set (viewedUnlockables s)
            \<and> set (unlocks r) = set (unlocks s)
            \<and> set (viewedViewables r) = set (viewedViewables s)
            \<and> set (discoveredPickups r) = set (discoveredPickups s)"
proof -
  define a where "a = c_achievement A"
  define s1 where "s1 = toggleAchievement cat s a True"
  define r where "r = toggleAchievement cat s1 a False"
  define EAs where "EAs = getLogbookEntriesForChallenge cat (c_id A)"
  have fA: "find (\<lambda>c. c_achievement c = a) (challenges cat) = Some A"
    unfolding a_def by (rule find_achievement [OF wf A])
  note e1 = toggleAchievement_enable [OF fA, of s, folded s1_def EAs_def]
  note d2 = toggleAchievement_disable [OF fA, of s1, folded r_def EAs_def]
  have none: "\<not> isLogbookEntryProvidedByOtherChallenge cat e a (achievements s1)" if e: "e \<in> set EAs" for e
  proof
    assume "isLogbookEntryProvidedByOtherChallenge cat e a (achievements s1)"
    then obtain C where C: "C \<in> set (getChallengesForLogbookEntry cat (e_id e))"
      and ne: "c_achievement C \<noteq> a" and held: "c_achievement C \<in> set (achievements s)"
      unfolding provided_iff e1 by auto
    from e have eA: "e \<in> set (getLogbookEntriesForChallenge cat (c_id A))" by (simp add: EAs_def)
    note l = linked_entry [OF wf A eA]
    note p = provider_grants [OF wf l(1) C]
    from ne have "C \<noteq> A" by (auto simp: a_def)
    with notShared p(1) held have "set (c_unlocks C) \<inter> set (c_unlocks A) = {}" by blast
    with p(2) l(2) show False by blast
  qed
  then have all: "unprovided cat (achievements s1) a EAs = EAs"
    by (simp add: unprovided_def)
  have sub: "e_unlockId ` set EAs \<subseteq> set (c_unlocks A)"
    using linked_entry(2) [OF wf A] by (auto simp: EAs_def)
  from locked have l: "a \<notin> set (achievements s)" "a \<notin> set (unviewedAchievements s)"
    "set (c_unlocks A) \<inter> set (viewedUnlockables s) = {}"
    "set (c_unlocks A) \<inter> set (unlocks s) = {}"
    "e_unlockId ` set EAs \<inter> set (viewedViewables s) = {}"
    "pickupsOf EAs \<inter> set (discoveredPickups s) = {}"
    by (simp_all add: lockedIn_def a_def EAs_def)
  have "set (achievements r) = set (achievements s)" using l(1) by (simp add: d2 e1)
  moreover have "set (unviewedAchievements r) = set (unviewedAchievements s)"
    using l(2) by (simp add: d2 e1)
  moreover have "set (viewedUnlockables r) = set (viewedUnlockables s)"
    using l(3) unfolding d2 e1 by blast
  moreover have "set (unlocks r) = set (unlocks s)"
    using l(4) sub unfolding d2 e1 all by blast
  moreover have "set (viewedViewables r) = set (viewedViewables s)"
    using l(5) unfolding d2 e1 all by blast
  moreover have "set (discoveredPickups r) = set (discoveredPickups s)"
    using l(6) unfolding d2 e1 all by blast
  ultimately show ?thesis
    unfolding Let_def by (simp add: r_def s1_def a_def)
qed

text \<open>The theorem at the example catalog, for a state that holds another achievement.\<close>

theorem enable_disable_symmetry_witness:
  "wellFormed exCatalog \<and> exChallengeC \<in> set (challenges exCatalog) \<and> lockedIn exCatalog exHeld exChallengeC
   \<and> achievements exHeld = [c_achievement exChallengeA]
   \<and> set (c_unlocks exChallengeA) \<inter> set (c_unlocks exChallengeC) = {}
   \<and> set (unlocks (toggleAchievement exCatalog
                      (toggleAchievement exCatalog exHeld ''KillEliteMonster'' True)
                      ''KillEliteMonster'' False)) = {''Items.Firework''}
   \<and> set (achievements (toggleAchievement exCatalog
                      (toggleAchievement exCatalog exHeld ''KillEliteMonster'' True)
                      ''KillEliteMonster'' False)) = {''RepeatedlyDuplicateItems''}"
proof -
  have h1: "exChallengeC \<in> set (challenges exCatalog)" by (simp add: exCatalog_def)
  have h2: "lockedIn exCatalog exHeld exChallengeC"
    by (simp add: lockedIn_def ex_ids ex_entries exHeld_def pickupsOf_def)
  have h3: "\<forall>C \<in> set (challenges exCatalog). C \<noteq> exChallengeC \<longrightarrow> c_achievement C \<in> set (achievements exHeld)
         \<longrightarrow> set (c_unlocks C) \<inter> set (c_unlocks exChallengeC) = {}"
    by (simp add: exCatalog_def ex_ids exHeld_def)
  from enable_disable_symmetry [OF ex_wellFormed h1 h2 h3] ex_wellFormed h1 h2 h3
  show ?thesis by (simp add: Let_def ex_ids exHeld_def)
qed

text \<open>
  Claim C3 as stated covers every state. In a state that already holds \<open>A\<close> (and no
  other achievement) the enable changes nothing and the disable removes \<open>A\<close>.
\<close>

theorem enable_disable_symmetry_counterexample:
  "exChallengeA \<in> set (challenges exCatalog)
   \<and> achievements exHeld = [c_achievement exChallengeA]
   \<and> set (achievements (toggleAchievement exCatalog
                           (toggleAchievement exCatalog exHeld (c_achievement exChallengeA) True)
                           (c_achievement exChallengeA) False))
       \<noteq> set (achievements exHeld)"
proof -
  have m: "exChallengeA \<in> set (challenges exCatalog)" by (simp add: exCatalog_def)
  have h: "achievements exHeld = [''RepeatedlyDuplicateItems'']" by (simp add: exHeld_def)
  have "set (achievements (toggleAchievement exCatalog
                           (toggleAchievement exCatalog exHeld ''RepeatedlyDuplicateItems'' True)
                           ''RepeatedlyDuplicateItems'' False)) = {}"
    by (simp add: toggleAchievement_disable(1) [OF ex_find(1)]
          toggleAchievement_enable(1) [OF ex_find(1)] h)
  with m h show ?thesis by (simp add: ex_ids)
qed

section \<open>Bulk unlock\<close>

text \<open>
  Claim C4. After \<^verbatim>\<open>unlockAll\<close> without a DLC filter, the achievement id of every
  challenge of the catalog is in \<^verbatim>\<open>achievements\<close>, and every logbook entry of the
  catalog, of whatever category, satisfies \<^verbatim>\<open>isLogbookEntryUnlocked\<close>.
\<close>

theorem unlockAll_complete:
  "(\<forall>c \<in> set (challenges cat). c_achievement c \<in> set (achievements (unlockAll cat s None)))
   \<and> (\<forall>e \<in> set (logbookEntries cat). isLogbookEntryUnlocked (unlockAll cat s None) e)"
proof -
  define w where "w = (foldl (unlockChallenge cat None) (copySets s) (challenges cat))\<lparr>unviewedAchievements := []\<rparr>"
  have r: "unlockAll cat s None = unlockAllLogbook cat w None"
    by (simp add: unlockAll_eq w_def)
  have "c_achievement ` set (challenges cat) \<subseteq> set (achievements w)"
    by (simp add: w_def foldl_unlockChallenge copySets_fields unskipped_None)
  also have "\<dots> \<subseteq> set (achievements (unlockAll cat s None))"
    unfolding r unlockAllLogbook_sets by blast
  finally have 1: "\<forall>c \<in> set (challenges cat). c_achievement c \<in> set (achievements (unlockAll cat s None))"
    by blast
  have "e_unlockId ` set (logbookEntries cat) \<subseteq> set (unlocks (unlockAll cat s None))"
    using unlockAllLogbook_grows(1) [of w None cat] unfolding r unskippedEntries_None by blast
  then have 2: "\<forall>e \<in> set (logbookEntries cat). isLogbookEntryUnlocked (unlockAll cat s None) e"
    by (auto simp: isLogbookEntryUnlocked_def)
  from 1 2 show ?thesis ..
qed

text \<open>The theorem at the example catalog: a DLC challenge and the drone entry.\<close>

theorem unlockAll_complete_witness:
  "exChallengeB \<in> set (challenges exCatalog)
   \<and> c_achievement exChallengeB \<in> set (achievements (unlockAll exCatalog exState None))
   \<and> exChirp \<in> set (logbookEntries exCatalog)
   \<and> isLogbookEntryUnlocked (unlockAll exCatalog exState None) exChirp"
proof -
  have h1: "exChallengeB \<in> set (challenges exCatalog)" by (simp add: exCatalog_def)
  have h2: "exChirp \<in> set (logbookEntries exCatalog)" by (simp add: exCatalog_def)
  note t = unlockAll_complete [of exCatalog exState]
  from t [THEN conjunct1, THEN bspec, OF h1] t [THEN conjunct2, THEN bspec, OF h2] h1 h2
  show ?thesis by simp
qed




section \<open>Disabling a logbook entry\<close>

text \<open>
  Claim C2. \<^verbatim>\<open>toggleLogbookEntry(s, E, false)\<close> disables exactly the challenges of
  \<open>toDisable\<close>: the challenges linked to \<open>E\<close> that link to exactly one entry, or all
  of whose other entries have their unlock id absent from the \<^verbatim>\<open>viewedViewables\<close> of
  the input state. Their achievement ids leave \<^verbatim>\<open>achievements\<close> and
  \<^verbatim>\<open>unviewedAchievements\<close>, their unlock ids leave \<^verbatim>\<open>viewedUnlockables\<close> and
  \<^verbatim>\<open>unlocks\<close>, and the unlock ids and pickup ids of every entry they link to leave
  \<^verbatim>\<open>unlocks\<close>, \<^verbatim>\<open>viewedViewables\<close> and \<^verbatim>\<open>discoveredPickups\<close>; no other achievement
  id or viewed unlockable is removed.
\<close>

theorem toggleLogbookEntry_disable_cascade:
  "set (achievements (toggleLogbookEntry cat s E False)) =
     set (achievements s) - c_achievement ` set (toDisable cat s E)
   \<and> set (unviewedAchievements (toggleLogbookEntry cat s E False)) =
     set (unviewedAchievements s) - c_achievement ` set (toDisable cat s E)
   \<and> set (viewedUnlockables (toggleLogbookEntry cat s E False)) =
     set (viewedUnlockables s) - (\<Union>c \<in> set (toDisable cat s E). set (c_unlocks c))
   \<and> (\<forall>c \<in> set (toDisable cat s E).
         set (c_unlocks c) \<inter> set (unlocks (toggleLogbookEntry cat s E False)) = {}
         \<and> e_unlockId ` set (getLogbookEntriesForChallenge cat (c_id c))
             \<inter> (set (unlocks (toggleLogbookEntry cat s E False))
                \<union> set (viewedViewables (toggleLogbookEntry cat s E False))) = {}
         \<and> pickupsOf (getLogbookEntriesForChallenge cat (c_id c))
             \<inter> set (discoveredPickups (toggleLogbookEntry cat s E False)) = {})
   \<and> (\<forall>c. c \<in> set (toDisable cat s E) \<longleftrightarrow>
         c \<in> set (getChallengesForLogbookEntry cat (e_id E))
         \<and> (length (getLogbookEntriesForChallenge cat (c_id c)) = 1
            \<or> (\<forall>e \<in> set (getLogbookEntriesForChallenge cat (c_id c)).
                  e_id e \<noteq> e_id E \<longrightarrow> e_unlockId e \<notin> set (viewedViewables s))))"
proof -
  have "\<forall>c. c \<in> set (toDisable cat s E) \<longleftrightarrow>
         c \<in> set (getChallengesForLogbookEntry cat (e_id E))
         \<and> (length (getLogbookEntriesForChallenge cat (c_id c)) = 1
            \<or> (\<forall>e \<in> set (getLogbookEntriesForChallenge cat (c_id c)).
                  e_id e \<noteq> e_id E \<longrightarrow> e_unlockId e \<notin> set (viewedViewables s)))"
    by (simp add: toDisable_def shouldDisable_iff)
  moreover have "\<forall>c \<in> set (toDisable cat s E).
         set (c_unlocks c) \<inter> set (unlocks (toggleLogbookEntry cat s E False)) = {}
         \<and> e_unlockId ` set (getLogbookEntriesForChallenge cat (c_id c))
             \<inter> (set (unlocks (toggleLogbookEntry cat s E False))
                \<union> set (viewedViewables (toggleLogbookEntry cat s E False))) = {}
         \<and> pickupsOf (getLogbookEntriesForChallenge cat (c_id c))
             \<inter> set (discoveredPickups (toggleLogbookEntry cat s E False)) = {}"
    using toggleLogbookEntry_disable_markers [of _ cat s E] by blast
  ultimately show ?thesis
    using toggleLogbookEntry_disable_cascade_sets [of cat s E] by blast
qed

text \<open>
  The theorem at the example catalog: both challenges of the firework link to that one
  entry, so disabling the entry disables both.
\<close>

theorem toggleLogbookEntry_disable_cascade_witness:
  "toDisable exCatalog exHeld exFirework = [exChallengeA, exChallengeB]
   \<and> set (achievements exHeld) = {c_achievement exChallengeA}
   \<and> set (achievements (toggleLogbookEntry exCatalog exHeld exFirework False)) = {}
   \<and> set (viewedUnlockables (toggleLogbookEntry exCatalog exHeld exFirework False)) = {}
   \<and> e_unlockId exFirework \<notin> set (viewedViewables (toggleLogbookEntry exCatalog exHeld exFirework False))"
proof -
  note t = toggleLogbookEntry_disable_cascade [of exCatalog exHeld exFirework]
  have h: "set (achievements exHeld) = {c_achievement exChallengeA}"
    "set (viewedUnlockables exHeld) = {''Items.Firework''}"
    by (simp_all add: exHeld_def ex_ids)
  have a: "set (achievements (toggleLogbookEntry exCatalog exHeld exFirework False)) = {}"
    unfolding t [THEN conjunct1] ex_toDisable h by simp
  have b: "set (viewedUnlockables (toggleLogbookEntry exCatalog exHeld exFirework False)) = {}"
    unfolding t [THEN conjunct2, THEN conjunct2, THEN conjunct1] ex_toDisable h by (simp add: ex_ids)
  have "exChallengeA \<in> set (toDisable exCatalog exHeld exFirework)"
    by (simp add: ex_toDisable)
  from t [THEN conjunct2, THEN conjunct2, THEN conjunct2, THEN conjunct1, THEN bspec, OF this]
  have c: "e_unlockId exFirework \<notin> set (viewedViewables (toggleLogbookEntry exCatalog exHeld exFirework False))"
    by (auto simp: ex_ids ex_entries)
  from a b c h ex_toDisable show ?thesis by simp
qed

section \<open>The drone scenario\<close>

text \<open>
  Claim C5. The claim expects the counters \<^verbatim>\<open>timesSummoned.ChirpBody\<close> and
  \<^verbatim>\<open>totalTimeAlive.ChirpBody\<close> after enabling the drone entry with unlock id
  \<^verbatim>\<open>Logs.ChirpBody.0\<close>. On this entry the code writes the keys
  \<^verbatim>\<open>timesSummoned.chirpbodyBody\<close> and \<^verbatim>\<open>totalTimeAlive.chirpbodyBody\<close> instead and
  leaves the expected keys as they were, for every catalog and every state; disabling
  does not touch the expected keys either.
\<close>

theorem drone_scenario_counters:
  "exChirp = \<lparr>e_id = ''chirp'', e_category = Drones, e_unlockId = ''Logs.ChirpBody.0'',
                e_pickupId = Some ''DroneIndex.Chirp'', e_dlc = Ac\<rparr>
   \<and> stats (toggleLogbookEntry cat s exChirp True) =
       (stats s)(''timesSummoned.chirpbodyBody'' \<mapsto> ''1'', ''totalTimeAlive.chirpbodyBody'' \<mapsto> ''1'')
   \<and> stats (toggleLogbookEntry cat s exChirp True) ''timesSummoned.ChirpBody'' =
       stats s ''timesSummoned.ChirpBody''
   \<and> stats (toggleLogbookEntry cat s exChirp True) ''totalTimeAlive.ChirpBody'' =
       stats s ''totalTimeAlive.ChirpBody''
   \<and> stats (toggleLogbookEntry cat exState exChirp True) ''timesSummoned.ChirpBody'' = None
   \<and> stats (toggleLogbookEntry cat s exChirp False) ''timesSummoned.ChirpBody'' =
       stats s ''timesSummoned.ChirpBody''"
  by (simp add: toggleLogbookEntry_enable_stats toggleLogbookEntry_disable_stats
        chirp_updateLogbookStats exState_def) (simp add: exChirp_def)

section \<open>Counters and the unlocked predicate\<close>

text \<open>
  Claim C8. Let the unlock id of an entry, its aliases, its viewable path, its pickup id
  (for a drone without one, the pickup id resolved from the unlock id) and the log unlock
  id derived from it all be absent from \<^verbatim>\<open>unlocks\<close>, \<^verbatim>\<open>viewedViewables\<close> and
  \<^verbatim>\<open>discoveredPickups\<close>. Then whatever progress counters the counter map holds (keys
  that do not start with \<^verbatim>\<open>Logs.\<close>), the entry is not unlocked.
\<close>

theorem counters_alone_not_unlocked:
  assumes "e_unlockId e \<notin> set (unlocks s)"
    and "e_unlockId e \<notin> set (viewedViewables s)"
    and "set (getLogbookAliases (e_unlockId e)) \<inter> set (viewedViewables s) = {}"
    and "\<forall>v. convertToViewableId e = Some v \<longrightarrow> v \<notin> set (viewedViewables s)"
    and "\<forall>p. e_pickupId e = Some p \<longrightarrow> p \<notin> set (discoveredPickups s)"
    and "\<forall>d. e_category e = Drones \<and> \<not> truthy (e_pickupId e) \<and> getDronePickupId (e_unlockId e) = Some d
            \<longrightarrow> d \<notin> set (discoveredPickups s)"
    and "failsafeBodyName e \<notin> set (unlocks s)"
    and "''Logs.'' @ failsafeBodyName e @ ''Body.0'' \<notin> set (unlocks s)"
    and "\<forall>k \<in> dom (stats s). \<not> startsWith k ''Logs.''"
  shows "\<not> isLogbookEntryUnlocked s e"
proof -
  have "stats s (''Logs.'' @ failsafeBodyName e @ ''Body.0'') = None"
  proof (rule ccontr)
    assume "stats s (''Logs.'' @ failsafeBodyName e @ ''Body.0'') \<noteq> None"
    then have "''Logs.'' @ failsafeBodyName e @ ''Body.0'' \<in> dom (stats s)" by (simp add: dom_def)
    with assms(9) have "\<not> startsWith (''Logs.'' @ failsafeBodyName e @ ''Body.0'') ''Logs.''" by blast
    then show False using startsWith_append [of "''Logs.''" "failsafeBodyName e @ ''Body.0''"] by simp
  qed
  moreover have "\<not> list_ex (\<lambda>alias. alias \<in> set (viewedViewables s)) (getLogbookAliases (e_unlockId e))"
    using assms(3) by (auto simp: list_ex_iff)
  moreover have "\<not> (case convertToViewableId e of None \<Rightarrow> False
                     | Some viewableId \<Rightarrow> viewableId \<noteq> [] \<and> viewableId \<in> set (viewedViewables s))"
    using assms(4) by (simp split: option.splits)
  moreover have "\<not> (case e_pickupId e of None \<Rightarrow> False
                     | Some p \<Rightarrow> p \<noteq> [] \<and> p \<in> set (discoveredPickups s))"
    using assms(5) by (simp split: option.splits)
  moreover have "\<not> (e_category e = Drones \<and> \<not> truthy (e_pickupId e)
                     \<and> (case getDronePickupId (e_unlockId e) of None \<Rightarrow> False
                        | Some d \<Rightarrow> d \<noteq> [] \<and> d \<in> set (discoveredPickups s)))"
    using assms(6) by (auto split: option.splits)
  ultimately show ?thesis
    using assms(1,2,7,8) by (simp add: isLogbookEntryUnlocked_def Let_def)
qed

text \<open>
  The theorem for the drone entry in a state that holds its two counters and no marker.
\<close>

theorem counters_alone_not_unlocked_witness:
  "stats exCounters ''timesSummoned.ChirpBody'' = Some ''3''
   \<and> stats exCounters ''totalTimeAlive.ChirpBody'' = Some ''120''
   \<and> unlocks exCounters = [] \<and> viewedViewables exCounters = [] \<and> discoveredPickups exCounters = []
   \<and> \<not> isLogbookEntryUnlocked exCounters exChirp"
proof -
  have e: "unlocks exCounters = []" "viewedViewables exCounters = []" "discoveredPickups exCounters = []"
    by (simp_all add: exCounters_def exState_def)
  have st: "stats exCounters ''timesSummoned.ChirpBody'' = Some ''3''"
    "stats exCounters ''totalTimeAlive.ChirpBody'' = Some ''120''"
    by (simp_all add: exCounters_def)
  have d: "\<forall>k \<in> dom (stats exCounters). \<not> startsWith k ''Logs.''"
    by (simp add: exCounters_def startsWith_def)
  have "\<not> isLogbookEntryUnlocked exCounters exChirp"
    by (rule counters_alone_not_unlocked) (simp_all add: e d)
  with e st show ?thesis by simp
qed

text \<open>
  The hypothesis on the keys is needed: a key of the shape \<^verbatim>\<open>Logs.<body>Body.0\<close> in
  the counter map does unlock the entry, as the last check of the predicate reads it.
\<close>

lemma log_key_in_counter_map_unlocks:
  "isLogbookEntryUnlocked (exState\<lparr>stats := [''Logs.ChirpBodyBody.0'' \<mapsto> ''1'']\<rparr>) exChirp"
proof -
  have "failsafeBodyName exChirp = ''ChirpBody''"
    by (simp add: failsafeBodyName_def chirp_fields startsWith_def stripSuffix_def endsWith_def)
  then show ?thesis
    by (simp add: isLogbookEntryUnlocked_def Let_def startsWith_def)
qed

section \<open>Bulk lock of the logbook\<close>

text \<open>
  Claim C6, as amended. After \<^verbatim>\<open>lockAllLogbook\<close>, for every entry of the catalog: its
  unlock id is absent from \<^verbatim>\<open>unlocks\<close> and \<^verbatim>\<open>viewedViewables\<close> and its pickup id from
  \<^verbatim>\<open>discoveredPickups\<close>. If the entry is given by its logbook path (its unlock id does
  not start with \<^verbatim>\<open>Logs.\<close>) and its resolved name does not contain \<^verbatim>\<open>SolusHeart\<close>, every
  counter that enabling the entry creates is absent, the per-stage counters and the four
  phase counters apart. If the unlock id is \<^verbatim>\<open>Logs.<N>Body.0\<close>, the counters of the
  entry's category are absent under the name \<^verbatim>\<open><N>Body\<close>: \<^verbatim>\<open>timesSummoned\<close> and
  \<^verbatim>\<open>totalTimeAlive\<close> for a drone, \<^verbatim>\<open>killsAgainst\<close> and \<^verbatim>\<open>deathsFrom\<close> for a monster,
  \<^verbatim>\<open>totalTimeAlive\<close>, \<^verbatim>\<open>timesPicked\<close> and \<^verbatim>\<open>totalWins\<close> for a survivor. Every counter
  whose key starts with none of the tracked prefixes keeps its value, and so does every
  per-stage \<^verbatim>\<open>totalTimesVisited.\<close> and \<^verbatim>\<open>totalTimesCleared.\<close> counter: those are kept,
  not removed.
\<close>

theorem lockAllLogbook_minimal:
  "(\<forall>e \<in> set (logbookEntries cat).
       e_unlockId e \<notin> set (unlocks (lockAllLogbook cat s))
     \<and> e_unlockId e \<notin> set (viewedViewables (lockAllLogbook cat s))
     \<and> pickupsOf [e] \<inter> set (discoveredPickups (lockAllLogbook cat s)) = {}
     \<and> (\<not> startsWith (e_unlockId e) ''Logs.''
          \<and> \<not> includesStr (getInternalBodyName (e_unlockId e)) ''SolusHeart''
        \<longrightarrow> (\<forall>k. createdOnEnable e k \<and> \<not> stageCounter k \<and> k \<notin> set phaseCounters
                \<longrightarrow> stats (lockAllLogbook cat s) k = None))
     \<and> (\<forall>n. e_unlockId e = ''Logs.'' @ n @ ''Body.0'' \<and> n \<noteq> [] \<and> CHR ''.'' \<notin> set n
              \<and> \<not> endsWith n ''Body''
          \<longrightarrow> (e_category e = Drones
                \<longrightarrow> stats (lockAllLogbook cat s) (''timesSummoned.'' @ n @ ''Body'') = None
                  \<and> stats (lockAllLogbook cat s) (''totalTimeAlive.'' @ n @ ''Body'') = None)
            \<and> (e_category e = Monsters
                \<longrightarrow> stats (lockAllLogbook cat s) (''killsAgainst.'' @ n @ ''Body'') = None
                  \<and> stats (lockAllLogbook cat s) (''deathsFrom.'' @ n @ ''Body'') = None)
            \<and> (e_category e = Survivors
                \<longrightarrow> stats (lockAllLogbook cat s) (''totalTimeAlive.'' @ n @ ''Body'') = None
                  \<and> stats (lockAllLogbook cat s) (''timesPicked.'' @ n @ ''Body'') = None
                  \<and> stats (lockAllLogbook cat s) (''totalWins.'' @ n @ ''Body'') = None)))
   \<and> (\<forall>k. \<not> trackedKey k \<longrightarrow> stats (lockAllLogbook cat s) k = stats s k)
   \<and> (\<forall>k. stageCounter k \<longrightarrow> stats (lockAllLogbook cat s) k = stats s k)"
proof -
  have ids: "e_unlockId e \<notin> set (unlocks (lockAllLogbook cat s))
     \<and> e_unlockId e \<notin> set (viewedViewables (lockAllLogbook cat s))
     \<and> pickupsOf [e] \<inter> set (discoveredPickups (lockAllLogbook cat s)) = {}"
    if "e \<in> set (logbookEntries cat)" for e
    using lockAllLogbook_unlock_ids [OF that, of s] by blast
  have created: "stats (lockAllLogbook cat s) k = None"
    if "e \<in> set (logbookEntries cat)" "\<not> startsWith (e_unlockId e) ''Logs.''"
      "\<not> includesStr (getInternalBodyName (e_unlockId e)) ''SolusHeart''"
      "createdOnEnable e k" "\<not> stageCounter k" "k \<notin> set phaseCounters" for e k
    using lockAllLogbook_stats_keys [OF that(1) created_lockCounterKeys [OF that(2-6)]] .
  have frame: "stats (lockAllLogbook cat s) k = stats s k" if "\<not> trackedKey k" for k
    using lockAllLogbook_stats_frame [OF that] .
  have stage: "stats (lockAllLogbook cat s) k = stats s k" if "stageCounter k" for k
    using frame [OF stageCounter_untracked [OF that]] .
  show ?thesis
    using ids created logsForm_removed [of _ cat _ s] frame stage
    by (intro conjI ballI allI impI) blast+
qed

text \<open>
  The theorem at the example catalog, for a state with drone and stage counters, and at a
  catalog with one monster entry given by its logbook path.
\<close>

theorem lockAllLogbook_minimal_witness:
  "exChirp \<in> set (logbookEntries exCatalog)
   \<and> e_unlockId exChirp = ''Logs.'' @ ''Chirp'' @ ''Body.0'' \<and> e_category exChirp = Drones
   \<and> e_unlockId exChirp \<in> set (unlocks exPlayed)
   \<and> e_unlockId exChirp \<notin> set (unlocks (lockAllLogbook exCatalog exPlayed))
   \<and> stats exPlayed ''timesSummoned.ChirpBody'' = Some ''3''
   \<and> stats (lockAllLogbook exCatalog exPlayed) ''timesSummoned.ChirpBody'' = None
   \<and> stats (lockAllLogbook exCatalog exPlayed) ''totalTimeAlive.ChirpBody'' = None
   \<and> stats (lockAllLogbook exCatalog exPlayed) ''totalDeaths'' = Some ''5''
   \<and> stats (lockAllLogbook exCatalog exPlayed) ''totalTimesVisited.golemplains'' = Some ''7''
   \<and> exMagmaWorm \<in> set (logbookEntries exBestiary)
   \<and> \<not> startsWith (e_unlockId exMagmaWorm) ''Logs.''
   \<and> \<not> includesStr (getInternalBodyName (e_unlockId exMagmaWorm)) ''SolusHeart''
   \<and> createdOnEnable exMagmaWorm ''killsAgainst.MagmaWormBody''
   \<and> stats exFought ''killsAgainst.MagmaWormBody'' = Some ''12''
   \<and> stats (lockAllLogbook exBestiary exFought) ''killsAgainst.MagmaWormBody'' = None"
proof -
  note t = lockAllLogbook_minimal [of exCatalog exPlayed]
  have h: "exChirp \<in> set (logbookEntries exCatalog)" by (simp add: exCatalog_def)
  note c = t [THEN conjunct1, THEN bspec, OF h]
  have 1: "e_unlockId exChirp \<notin> set (unlocks (lockAllLogbook exCatalog exPlayed))"
    using c by (rule conjunct1)
  have u: "e_unlockId exChirp = ''Logs.'' @ ''Chirp'' @ ''Body.0''" by (simp add: chirp_fields)
  have form: "e_unlockId exChirp = ''Logs.'' @ ''Chirp'' @ ''Body.0'' \<and> ''Chirp'' \<noteq> []
      \<and> CHR ''.'' \<notin> set ''Chirp'' \<and> \<not> endsWith ''Chirp'' ''Body''"
    by (simp add: chirp_fields endsWith_def)
  note d = c [THEN conjunct2, THEN conjunct2, THEN conjunct2, THEN conjunct2, THEN spec,
      THEN mp, OF form, THEN conjunct1, THEN mp, OF chirp_fields(2)]
  have 2: "stats (lockAllLogbook exCatalog exPlayed) ''timesSummoned.ChirpBody'' = None"
    "stats (lockAllLogbook exCatalog exPlayed) ''totalTimeAlive.ChirpBody'' = None"
    using d by simp_all
  have n: "\<not> trackedKey ''totalDeaths''"
    by (simp add: trackedKey_def trackedPrefixes_def startsWith_def)
  have 3: "stats (lockAllLogbook exCatalog exPlayed) ''totalDeaths'' = Some ''5''"
    using t [THEN conjunct2, THEN conjunct1, THEN spec, THEN mp, OF n] by (simp add: exPlayed_def)
  have g: "stageCounter ''totalTimesVisited.golemplains''"
    by (simp add: stageCounter_def startsWith_def)
  have 4: "stats (lockAllLogbook exCatalog exPlayed) ''totalTimesVisited.golemplains'' = Some ''7''"
    using t [THEN conjunct2, THEN conjunct2, THEN spec, THEN mp, OF g] by (simp add: exPlayed_def)
  have 5: "e_unlockId exChirp \<in> set (unlocks exPlayed)"
    "stats exPlayed ''timesSummoned.ChirpBody'' = Some ''3''"
    by (simp_all add: exPlayed_def chirp_fields)
  note t2 = lockAllLogbook_minimal [of exBestiary exFought]
  have h2: "exMagmaWorm \<in> set (logbookEntries exBestiary)" by (simp add: exBestiary_def)
  have p: "\<not> startsWith (e_unlockId exMagmaWorm) ''Logs.''
      \<and> \<not> includesStr (getInternalBodyName (e_unlockId exMagmaWorm)) ''SolusHeart''"
    by (simp add: magmaworm_fields magmaworm_internal startsWith_def)
  have q: "createdOnEnable exMagmaWorm ''killsAgainst.MagmaWormBody''
      \<and> \<not> stageCounter ''killsAgainst.MagmaWormBody''
      \<and> ''killsAgainst.MagmaWormBody'' \<notin> set phaseCounters"
    by (simp add: magmaworm_created stageCounter_def startsWith_def phaseCounters_def)
  have 6: "stats (lockAllLogbook exBestiary exFought) ''killsAgainst.MagmaWormBody'' = None"
    using t2 [THEN conjunct1, THEN bspec, OF h2, THEN conjunct2, THEN conjunct2, THEN conjunct2,
      THEN conjunct1, THEN mp, OF p, THEN spec, THEN mp, OF q] .
  have 7: "stats exFought ''killsAgainst.MagmaWormBody'' = Some ''12''"
    by (simp add: exFought_def)
  from h u chirp_fields(2) 1 2 3 4 5 h2 p q 6 7 show ?thesis by simp
qed

text \<open>
  Claim C6 as stated has the per-stage counters removed. Enabling the stage entry of the
  example catalog creates \<^verbatim>\<open>totalTimesVisited.golemplains\<close>, and the bulk lock leaves it.
\<close>

theorem lockAllLogbook_minimal_counterexample:
  "exGolemplains \<in> set (logbookEntries exCatalog) \<and> e_category exGolemplains = Environments
   \<and> stats exState ''totalTimesVisited.golemplains'' = None
   \<and> stats (toggleLogbookEntry exCatalog exState exGolemplains True) ''totalTimesVisited.golemplains''
       = Some ''1''
   \<and> stats (lockAllLogbook exCatalog (toggleLogbookEntry exCatalog exState exGolemplains True))
        ''totalTimesVisited.golemplains'' = Some ''1''"
proof -
  have n: "\<not> trackedKey ''totalTimesVisited.golemplains''"
    by (simp add: trackedKey_def trackedPrefixes_def startsWith_def)
  have 1: "stats (toggleLogbookEntry exCatalog exState exGolemplains True) ''totalTimesVisited.golemplains''
      = Some ''1''"
    by (simp add: toggleLogbookEntry_enable_stats golemplains_updateLogbookStats)
  have 2: "stats (lockAllLogbook exCatalog (toggleLogbookEntry exCatalog exState exGolemplains True))
        ''totalTimesVisited.golemplains'' = Some ''1''"
    by (simp add: lockAllLogbook_stats_frame [OF n] 1)
  have 3: "exGolemplains \<in> set (logbookEntries exCatalog)" by (simp add: exCatalog_def)
  have 4: "stats exState ''totalTimesVisited.golemplains'' = None" by (simp add: exState_def)
  from 1 2 3 4 show ?thesis by (simp add: golemplains_fields)
qed

end
